(* ===== verification/Prelude.thy ===== *)
theory Prelude
  imports Main "HOL-Library.Word" "HOL-Library.Sublist" "HOL-Library.AList"
    "HOL-Library.Multiset"
begin

text \<open>
  Shared vocabulary of the development: bytes as \<open>8 word\<close> lists, the Python
  exceptions the program raises or catches as a datatype, a bind for the
  error-or-value type \<open>pyerr + 'a\<close>, the string operations of Python's \<open>str\<close>
  that the program uses (\<open>lower\<close>, \<open>startswith\<close>, \<open>endswith\<close>, \<open>in\<close>), decimal
  rendering and reading of natural numbers, and \<open>os.path.join\<close>.
  The named collection \<open>model_eval\<close> gathers the equations that evaluate the
  model on concrete inputs; \<open>decimal_simps\<close> the facts on decimal strings.
\<close>

named_theorems model_eval "equations that evaluate the model on concrete inputs"
named_theorems decimal_simps "facts on decimal renderings of numbers"

section \<open>Bytes\<close>

type_synonym byte = "8 word"
type_synonym bytes = "byte list"

section \<open>Python exceptions and the error-or-value type\<close>

text \<open>
  Each exception class the program raises or catches is a constructor; the
  string is the exception's message where the program reads it (\<open>str(e)\<close>).
  \<open>RequestException\<close> stands for \<open>requests.exceptions.RequestException\<close> and all
  its subclasses (connection errors, timeouts, \<open>HTTPError\<close>).
  \<open>SystemExit\<close> is raised by \<open>sys.exit(n)\<close>; it is not an \<open>Exception\<close>,
  so no \<open>except Exception\<close> clause of the program catches it. \<open>EOFError\<close> is
  raised by \<open>input()\<close> at the end of its input.
\<close>

datatype pyerr =
    RequestException string
  | TypeError string
  | ValueError string
  | FileNotFoundError string
  | UnboundLocalError string
  | BadZipFile
  | OSError string
  | SystemExit nat
  | EOFError
  | OverflowError string

type_synonym 'a result = "pyerr + 'a"

definition ebind :: "'e + 'a \<Rightarrow> ('a \<Rightarrow> 'e + 'b) \<Rightarrow> 'e + 'b" where
  "ebind m f = (case m of Inl e \<Rightarrow> Inl e | Inr a \<Rightarrow> f a)"

section \<open>Python string operations\<close>

text \<open>
  \<open>s.startswith(p)\<close> is \<^const>\<open>prefix\<close> \<open>p s\<close>, \<open>s.endswith(p)\<close> is
  \<^const>\<open>suffix\<close> \<open>p s\<close> and \<open>p in s\<close> is \<^const>\<open>sublist\<close> \<open>p s\<close>, all from
  HOL-Library.Sublist. \<open>str.lower\<close> is modelled on ASCII letters; a \<open>char\<close> of
  Isabelle is one byte, so non-ASCII letters (which Python also lowers) are
  left unchanged.
\<close>

definition lower_char :: "char \<Rightarrow> char" where
  "lower_char c =
     (case map_of (zip ''ABCDEFGHIJKLMNOPQRSTUVWXYZ'' ''abcdefghijklmnopqrstuvwxyz'') c of
        Some d \<Rightarrow> d | None \<Rightarrow> c)"

definition lower :: "string \<Rightarrow> string" where
  "lower s = map lower_char s"

text \<open>\<open>str.isspace\<close> on an ASCII character, which is also \<open>\s\<close> of a
  \<open>str\<close> pattern: tab to carriage return, the four separators 0x1C--0x1F,
  and space. \<open>py_strip\<close> is \<open>str.strip()\<close> with no argument, which removes
  such characters at both ends.\<close>

definition py_space :: "char \<Rightarrow> bool" where
  "py_space c \<longleftrightarrow> of_char c \<in> ({9..13} \<union> {28..32} :: nat set)"

definition py_strip :: "string \<Rightarrow> string" where
  "py_strip s = rev (dropWhile py_space (rev (dropWhile py_space s)))"

lemmas str_ops_eval [model_eval] = sublist_code suffix_to_prefix lower_char_def

section \<open>Decimal numbers\<close>

definition is_digit :: "char \<Rightarrow> bool" where
  "is_digit c \<longleftrightarrow> c \<in> set ''0123456789''"

definition digit_char :: "nat \<Rightarrow> char" where
  "digit_char n = ''0123456789'' ! n"

definition digit_val :: "char \<Rightarrow> nat" where
  "digit_val c = of_char c - 48"

text \<open>\<open>str(n)\<close> for a natural number: its decimal digits, no padding.\<close>

fun show_nat :: "nat \<Rightarrow> string" where
  "show_nat n =
     (if n < 10 then [digit_char n] else show_nat (n div 10) @ [digit_char (n mod 10)])"

declare show_nat.simps [simp del]

text \<open>\<open>str(e)\<close> of an exception.\<close>

fun str_err :: "pyerr \<Rightarrow> string" where
  "str_err (RequestException m) = m"
| "str_err (TypeError m) = m"
| "str_err (ValueError m) = m"
| "str_err (FileNotFoundError m) = m"
| "str_err (UnboundLocalError m) = m"
| "str_err BadZipFile = ''File is not a zip file''"
| "str_err (OSError m) = m"
| "str_err (SystemExit n) = show_nat n"
| "str_err EOFError = ''EOF when reading a line''"
| "str_err (OverflowError m) = m"

text \<open>\<open>int(s)\<close> on a string of ASCII digits.\<close>

definition read_nat :: "string \<Rightarrow> nat" where
  "read_nat s = foldl (\<lambda>n c. 10 * n + digit_val c) 0 s"

text \<open>Zero-padded rendering, as \<open>strftime\<close>'s \<open>%m\<close>, \<open>%d\<close> (width 2) and
  \<open>%Y\<close> (width 4) print their fields.\<close>

definition pad_nat :: "nat \<Rightarrow> nat \<Rightarrow> string" where
  "pad_nat w n = replicate (w - length (show_nat n)) (CHR ''0'') @ show_nat n"

lemmas decimal_eval [model_eval] =
  show_nat.simps digit_char_def digit_val_def read_nat_def pad_nat_def is_digit_def

section \<open>Paths\<close>

text \<open>\<open>os.path.join(a, b)\<close> of \<open>posixpath\<close>: an absolute \<open>b\<close> replaces \<open>a\<close>;
  otherwise a separator is inserted unless \<open>a\<close> is empty or ends in one.\<close>

definition path_join :: "string \<Rightarrow> string \<Rightarrow> string" where
  "path_join a b =
     (if prefix ''/'' b then b
      else if a = [] \<or> suffix ''/'' a then a @ b
      else a @ CHR ''/'' # b)"

lemmas path_join_eval [model_eval] = path_join_def

section \<open>Lemmas on the error monad, strings and decimals\<close>

lemma ebind_Inl [simp]: "ebind (Inl e) f = Inl e"
  by (simp add: ebind_def)

lemma ebind_Inr [simp]: "ebind (Inr a) f = f a"
  by (simp add: ebind_def)

lemma ebind_eq_Inr:
  "ebind m f = Inr b \<longleftrightarrow> (\<exists>a. m = Inr a \<and> f a = Inr b)"
  by (cases m) simp_all

lemma ebind_eq_Inl:
  "ebind m f = Inl e \<longleftrightarrow> m = Inl e \<or> (\<exists>a. m = Inr a \<and> f a = Inl e)"
  by (cases m) simp_all

lemma length_lower [simp]: "length (lower s) = length s"
  by (simp add: lower_def)

lemma lower_append [simp]: "lower (xs @ ys) = lower xs @ lower ys"
  by (simp add: lower_def)

lemma lower_Cons [simp]: "lower (c # cs) = lower_char c # lower cs"
  by (simp add: lower_def)

lemma lower_Nil [simp]: "lower [] = []"
  by (simp add: lower_def)

lemma digit_cases:
  assumes "d < (10::nat)"
  shows "d = 0 \<or> d = 1 \<or> d = 2 \<or> d = 3 \<or> d = 4 \<or> d = 5 \<or> d = 6 \<or> d = 7 \<or> d = 8 \<or> d = 9"
  using assms by presburger

lemma digit_val_digit_char [simp, decimal_simps]:
  assumes "d < 10" shows "digit_val (digit_char d) = d"
  using digit_cases [OF assms] by (elim disjE) (simp_all add: digit_val_def digit_char_def)

lemma is_digit_iff: "is_digit c \<longleftrightarrow> (\<exists>d<10. c = digit_char d)"
proof -
  have "length ''0123456789'' = 10" by simp
  then show ?thesis unfolding is_digit_def digit_char_def in_set_conv_nth by metis
qed

lemma is_digit_digit_char [simp, decimal_simps]:
  "d < 10 \<Longrightarrow> is_digit (digit_char d)"
  by (auto simp: is_digit_iff)

lemma digit_val_lt [decimal_simps]: "is_digit c \<Longrightarrow> digit_val c < 10"
  by (auto simp: is_digit_iff)

lemma digit_char_digit_val [simp, decimal_simps]:
  "is_digit c \<Longrightarrow> digit_char (digit_val c) = c"
  by (auto simp: is_digit_iff)

lemma show_nat_nonempty [simp]: "show_nat n \<noteq> []"
  by (subst show_nat.simps) simp

lemma show_nat_digits [decimal_simps]: "\<forall>c \<in> set (show_nat n). is_digit c"
proof (induction n rule: show_nat.induct)
  case (1 n)
  then show ?case by (subst show_nat.simps) auto
qed

lemma read_nat_snoc [simp, decimal_simps]:
  "read_nat (xs @ [c]) = 10 * read_nat xs + digit_val c"
  by (simp add: read_nat_def)

lemma read_nat_Nil [simp]: "read_nat [] = 0"
  by (simp add: read_nat_def)

lemma read_show_nat [simp, decimal_simps]: "read_nat (show_nat n) = n"
proof (induction n rule: show_nat.induct)
  case (1 n)
  show ?case
  proof (cases "n < 10")
    case True
    then show ?thesis
      using read_nat_snoc [of "[]" "digit_char n"] by (simp add: show_nat.simps [of n])
  next
    case False
    with "1.IH" show ?thesis by (simp add: show_nat.simps [of n])
  qed
qed

lemma show_nat_inj [decimal_simps]: "show_nat m = show_nat n \<longleftrightarrow> m = n"
  by (metis read_show_nat)

lemma read_nat_append:
  "read_nat (xs @ ys) = read_nat xs * 10 ^ length ys + read_nat ys"
proof (induction ys rule: rev_induct)
  case Nil
  then show ?case by simp
next
  case (snoc y ys)
  then show ?case
    using read_nat_snoc [of "xs @ ys" y] read_nat_snoc [of ys y]
    by (simp add: algebra_simps)
qed

lemma read_nat_zeros [simp]: "read_nat (replicate k (CHR ''0'')) = 0"
  by (induction k) (simp_all add: read_nat_def digit_val_def)

lemma read_pad_nat [simp, decimal_simps]: "read_nat (pad_nat w n) = n"
proof -
  have "read_nat (pad_nat w n) =
          read_nat (replicate (w - length (show_nat n)) (CHR ''0'')) * 10 ^ length (show_nat n)
          + read_nat (show_nat n)"
    unfolding pad_nat_def by (rule read_nat_append)
  then show ?thesis by simp
qed

lemma pad_nat_digits [decimal_simps]: "\<forall>c \<in> set (pad_nat w n). is_digit c"
proof -
  have "is_digit (CHR ''0'')" by (simp add: is_digit_def)
  then show ?thesis using show_nat_digits [of n] by (auto simp: pad_nat_def)
qed

lemma length_show_nat_le:
  "n < 10 ^ w \<Longrightarrow> 0 < w \<Longrightarrow> length (show_nat n) \<le> w"
proof (induction n arbitrary: w rule: show_nat.induct)
  case (1 n)
  show ?case
  proof (cases "n < 10")
    case True
    with "1.prems" show ?thesis by (simp add: show_nat.simps [of n])
  next
    case False
    from "1.prems"(1) False have "w \<noteq> 1" by auto
    with "1.prems"(2) obtain v where w: "w = Suc v" and v: "0 < v"
      by (cases w) auto
    from "1.prems"(1) w have "n < 10 ^ v * 10" by (simp add: mult.commute)
    then have "n div 10 < 10 ^ v" by (rule less_mult_imp_div_less)
    with "1.IH" False v have "length (show_nat (n div 10)) \<le> v" by blast
    with False w show ?thesis by (simp add: show_nat.simps [of n])
  qed
qed


lemma length_pad_nat [decimal_simps]:
  assumes "n < 10 ^ w" and "0 < w"
  shows "length (pad_nat w n) = w"
proof -
  have "length (show_nat n) \<le> w" using assms by (rule length_show_nat_le)
  then show ?thesis unfolding pad_nat_def by simp
qed

lemma not_digit_in_show_nat [decimal_simps]:
  "\<not> is_digit c \<Longrightarrow> c \<notin> set (show_nat n)"
  using show_nat_digits by blast

lemma path_join_inv:
  "path_join d n = e \<Longrightarrow> n \<in> {e, drop (length d) e, drop (Suc (length d)) e}"
  by (auto simp: path_join_def split: if_splits)

lemma takeWhile_sep: "c \<notin> set xs \<Longrightarrow> takeWhile (\<lambda>x. x \<noteq> c) (xs @ c # ys) = xs"
  by (induction xs) auto

lemma show_nat_sep_inj:
  assumes "xs @ show_nat m @ c # ys = xs @ show_nat n @ c # ys" and "\<not> is_digit c"
  shows "m = n"
proof -
  have "show_nat m @ c # ys = show_nat n @ c # ys" using assms(1) by simp
  then have "takeWhile (\<lambda>x. x \<noteq> c) (show_nat m @ c # ys) = takeWhile (\<lambda>x. x \<noteq> c) (show_nat n @ c # ys)"
    by simp
  then show ?thesis
    using takeWhile_sep [OF not_digit_in_show_nat [OF assms(2)]] by (simp add: show_nat_inj)
qed

end
