(* ===== verification/HtmlRows.thy ===== *)
theory HtmlRows
  imports Prelude "HOL-Library.Monad_Syntax"
begin

text \<open>
  The regular expression of \<open>HTMLParser.parse\<close> (\<open>src/src/parser.py\<close>,
  line 21) that finds the rows of the exported HTML table, as a matcher on
  the text, with the lemmas that each match consumes input. The pattern of
  line 21 and the coordinate pattern of line 36 (theory \<open>Parser\<close>) are deterministic apart from the
  lazy \<open>.*?\<close>: each \<open>[^<]+\<close>, \<open>[^']+\<close> and \<open>[-\d.]+\<close> is followed by a
  character outside its class, and each \<open>\s*\<close> by one outside \<open>\s\<close>, so
  backtracking never shortens them; they are written out here as matchers on
  the text, \<open>.*?\<close> as the shortest run without a newline after which the
  rest matches. Characters are bytes: \<open>\d\<close> and \<open>\s\<close> are their ASCII
  members.
\<close>

type_synonym row = "string \<times> string \<times> string \<times> string"

definition lit :: "string \<Rightarrow> string \<Rightarrow> string option" where
  "lit l s = (if prefix l s then Some (drop (length l) s) else None)"

text \<open>\<open>([^<]+)\<close>.\<close>

definition grp_nlt :: "string \<Rightarrow> (string \<times> string) option" where
  "grp_nlt s = (let g = takeWhile (\<lambda>c. c \<noteq> CHR ''<'') s in if g = [] then None else Some (g, drop (length g) s))"

definition quote_char :: char where
  "quote_char = CHR 0x27"

definition onclick_prefix :: string where
  "onclick_prefix = ''onclick='' @ [CHR 0x22] @ ''downloadMemories('' @ [quote_char]"

text \<open>\<open>onclick="downloadMemories\('([^']+)'\<close>.\<close>

definition url_tail :: "string \<Rightarrow> (string \<times> string) option" where
  "url_tail s = do {
     r \<leftarrow> lit onclick_prefix s;
     let u = takeWhile (\<lambda>c. c \<noteq> quote_char) r;
     if u = [] then None else do {
       r2 \<leftarrow> lit [quote_char] (drop (length u) r);
       Some (u, r2) } }"

text \<open>\<open>.*?\<close> followed by the rest of the pattern: the shortest skip, over
  characters other than a newline.\<close>

fun lazy_url :: "string \<Rightarrow> (string \<times> string) option" where
  "lazy_url [] = url_tail []"
| "lazy_url (c # cs) =
     (case url_tail (c # cs) of
        Some r \<Rightarrow> Some r
      | None \<Rightarrow> if c = CHR 0x0A then None else lazy_url cs)"

text \<open>The pattern of line 21 at the start of a string: the four groups and
  the rest of the text.\<close>

definition row_match :: "string \<Rightarrow> (row \<times> string) option" where
  "row_match s = do {
     r0 \<leftarrow> lit ''<tr><td>'' s;
     (d, r1) \<leftarrow> grp_nlt r0;
     r2 \<leftarrow> lit ''</td><td>'' r1;
     (t, r3) \<leftarrow> grp_nlt r2;
     r4 \<leftarrow> lit ''</td><td>'' r3;
     (l, r5) \<leftarrow> grp_nlt r4;
     r6 \<leftarrow> lit ''</td><td>'' r5;
     (u, r7) \<leftarrow> lazy_url r6;
     Some ((d, t, l, u), r7) }"

section \<open>Lemmas\<close>

lemma lit_shorter: "lit l s = Some r \<Longrightarrow> length r = length s - length l \<and> length l \<le> length s"
  by (auto simp: lit_def prefix_def split: if_splits)

lemma grp_nlt_shorter: "grp_nlt s = Some (g, r) \<Longrightarrow> length r < length s"
proof -
  assume h: "grp_nlt s = Some (g, r)"
  then have g: "g = takeWhile (\<lambda>c. c \<noteq> CHR ''<'') s" "g \<noteq> []" "r = drop (length g) s"
    by (auto simp: grp_nlt_def Let_def split: if_splits)
  have "length g \<le> length s" "0 < length g" using g(1,2) by (simp_all add: length_takeWhile_le)
  then have "length s - length g < length s" by arith
  then show ?thesis using g(3) by simp
qed

lemma url_tail_shorter: "url_tail s = Some (u, r) \<Longrightarrow> length r < length s"
  by (auto simp: url_tail_def Let_def split: if_splits Option.bind_splits dest!: lit_shorter)

lemma lazy_url_shorter: "lazy_url s = Some (u, r) \<Longrightarrow> length r < length s"
proof (induction s)
  case Nil
  then show ?case by (auto dest: url_tail_shorter)
next
  case (Cons c cs)
  then show ?case by (auto split: option.splits if_splits dest: url_tail_shorter)
qed

lemma row_match_shorter: "row_match s = Some (x, r) \<Longrightarrow> length r < length s"
  unfolding row_match_def
  by (auto simp: bind_eq_Some_conv split: prod.splits dest!: lit_shorter grp_nlt_shorter lazy_url_shorter)

end
