(* ===== verification/Strptime.thy ===== *)
theory Strptime
  imports Prelude
begin

text \<open>
  The program parses and prints timestamps with \<open>datetime.strptime\<close> and
  \<open>datetime.strftime\<close> (\<open>src/src/utils.py\<close>, \<open>src/src/downloader.py\<close>,
  \<open>src/src/zip_processor.py\<close>). Their behaviour decides every file name the
  program writes, so this theory models the part of CPython's \<open>_strptime\<close>
  module those calls exercise: the directives \<open>%Y %m %d %H %M %S\<close>, literal
  characters, and whitespace. CPython compiles the format into a regular
  expression (each directive an alternation of digit patterns, each run of
  whitespace \<open>\s+\<close>, literals matched case-insensitively), takes the first
  match that the backtracking matcher finds at the start of the input, and
  raises \<open>ValueError\<close> when there is none or when input is left over. The
  matcher here returns all matches in the backtracking order (a list of
  successes), so the first element is the match CPython takes. The parsed
  fields are then checked as the \<open>datetime\<close> constructor checks them.
  \<open>strftime\<close> pads \<open>%Y\<close> to four digits and the other fields to two.
\<close>

section \<open>Formats\<close>

datatype directive = DY | Dm | Dd | DH | DM | DS

datatype fmt_item = FLit char | FSpace | FDir directive

text \<open>\<open>\s\<close> on ASCII: tab, line feed, vertical tab, form feed, carriage return,
  the separators 0x1c--0x1f and space.\<close>

definition is_ws :: "char \<Rightarrow> bool" where
  "is_ws c \<longleftrightarrow> c \<in> set [CHR 0x09, CHR 0x0A, CHR 0x0B, CHR 0x0C, CHR 0x0D,
                          CHR 0x1C, CHR 0x1D, CHR 0x1E, CHR 0x1F, CHR 0x20]"

definition directive_of :: "char \<Rightarrow> directive option" where
  "directive_of c =
     map_of [(CHR ''Y'', DY), (CHR ''m'', Dm), (CHR ''d'', Dd),
             (CHR ''H'', DH), (CHR ''M'', DM), (CHR ''S'', DS)] c"

text \<open>Translation of a format string into items, as \<open>TimeRE.pattern\<close> does:
  a run of whitespace becomes one \<open>\s+\<close>, \<open>%x\<close> a directive; an unknown
  directive or a trailing \<open>%\<close> makes the format invalid.\<close>

function fmt_items :: "string \<Rightarrow> fmt_item list option" where
  "fmt_items [] = Some []"
| "fmt_items (c # cs) =
     (if c = CHR ''%'' then
        (case cs of
           [] \<Rightarrow> None
         | d # ds \<Rightarrow>
             (case directive_of d of
                None \<Rightarrow> None
              | Some dv \<Rightarrow> map_option (Cons (FDir dv)) (fmt_items ds)))
      else if is_ws c then map_option (Cons FSpace) (fmt_items (dropWhile is_ws cs))
      else map_option (Cons (FLit c)) (fmt_items cs))"
  by pat_completeness auto
termination
  by (relation "measure length") (auto simp: le_imp_less_Suc length_dropWhile_le)

section \<open>The matcher\<close>

text \<open>A character class of the patterns is a range of ASCII digits
  (\<open>\d\<close> is \<open>Digits 0 9\<close>, \<open>[1-9]\<close> is \<open>Digits 1 9\<close>, a literal digit \<open>3\<close> is
  \<open>Digits 3 3\<close>) or the blank of \<open>%d\<close>'s last alternative; an alternative of a
  directive's alternation is a list of classes, one per character. The
  alternations are those of CPython's \<open>TimeRE\<close>, in its order:
  \<open>%Y\<close> \<open>\d\d\d\d\<close>; \<open>%m\<close> \<open>1[0-2]|0[1-9]|[1-9]\<close>;
  \<open>%d\<close> \<open>3[0-1]|[1-2]\d|0[1-9]|[1-9]| [1-9]\<close>; \<open>%H\<close> \<open>2[0-3]|[0-1]\d|\d\<close>;
  \<open>%M\<close> \<open>[0-5]\d|\d\<close>; \<open>%S\<close> \<open>6[0-1]|[0-5]\d|\d\<close>. Python's \<open>\d\<close> on
  \<open>str\<close> also admits non-ASCII decimal digits; the model's characters are
  bytes, so only ASCII digits are modelled.\<close>

datatype cclass = Digits nat nat | Blank

fun in_class :: "cclass \<Rightarrow> char \<Rightarrow> bool" where
  "in_class (Digits lo hi) c \<longleftrightarrow> is_digit c \<and> lo \<le> digit_val c \<and> digit_val c \<le> hi"
| "in_class Blank c \<longleftrightarrow> c = CHR '' ''"

abbreviation (input) D09 :: cclass where
  "D09 \<equiv> Digits 0 9"

fun directive_alts :: "directive \<Rightarrow> cclass list list" where
  "directive_alts DY = [[D09, D09, D09, D09]]"
| "directive_alts Dm = [[Digits 1 1, Digits 0 2], [Digits 0 0, Digits 1 9], [Digits 1 9]]"
| "directive_alts Dd =
     [[Digits 3 3, Digits 0 1], [Digits 1 2, D09], [Digits 0 0, Digits 1 9], [Digits 1 9],
      [Blank, Digits 1 9]]"
| "directive_alts DH = [[Digits 2 2, Digits 0 3], [Digits 0 1, D09], [D09]]"
| "directive_alts DM = [[Digits 0 5, D09], [D09]]"
| "directive_alts DS = [[Digits 6 6, Digits 0 1], [Digits 0 5, D09], [D09]]"

definition class_match :: "cclass list \<Rightarrow> string \<Rightarrow> bool" where
  "class_match cls s \<longleftrightarrow>
     length cls \<le> length s \<and> list_all2 in_class cls (take (length cls) s)"

text \<open>All matches of one item at the start of the input, in backtracking
  order: the text a directive captured (\<open>None\<close> for literals and whitespace)
  and the rest of the input. \<open>\s+\<close> is greedy, so the longest run comes first.\<close>

fun match_item :: "fmt_item \<Rightarrow> string \<Rightarrow> (string option \<times> string) list" where
  "match_item (FLit c) s =
     (case s of
        [] \<Rightarrow> []
      | x # xs \<Rightarrow> (if lower_char x = lower_char c then [(None, xs)] else []))"
| "match_item FSpace s =
     map (\<lambda>k. (None, drop k s)) (rev [1..<Suc (length (takeWhile is_ws s))])"
| "match_item (FDir d) s =
     map (\<lambda>a. (Some (take (length a) s), drop (length a) s))
       (filter (\<lambda>a. class_match a s) (directive_alts d))"

fun capture :: "fmt_item \<Rightarrow> string option \<Rightarrow> (directive \<times> string) list" where
  "capture (FDir d) (Some g) = [(d, g)]"
| "capture _ _ = []"

fun match_items :: "fmt_item list \<Rightarrow> string \<Rightarrow> ((directive \<times> string) list \<times> string) list" where
  "match_items [] s = [([], s)]"
| "match_items (i # is) s =
     concat (map (\<lambda>(g, r). map (\<lambda>(gs, r'). (capture i g @ gs, r')) (match_items is r))
                 (match_item i s))"

section \<open>Date-times\<close>

record datetime =
  year :: nat
  month :: nat
  day :: nat
  hour :: nat
  minute :: nat
  second :: nat

definition is_leap :: "nat \<Rightarrow> bool" where
  "is_leap y \<longleftrightarrow> 4 dvd y \<and> (\<not> 100 dvd y \<or> 400 dvd y)"

definition days_in_month :: "nat \<Rightarrow> nat \<Rightarrow> nat" where
  "days_in_month y m =
     (if m = 2 then (if is_leap y then 29 else 28)
      else if m \<in> {4, 6, 9, 11} then 30 else 31)"

text \<open>The range checks of the \<open>datetime\<close> constructor.\<close>

definition dt_valid :: "datetime \<Rightarrow> bool" where
  "dt_valid t \<longleftrightarrow>
     1 \<le> year t \<and> year t \<le> 9999 \<and> 1 \<le> month t \<and> month t \<le> 12 \<and>
     1 \<le> day t \<and> day t \<le> days_in_month (year t) (month t) \<and>
     hour t \<le> 23 \<and> minute t \<le> 59 \<and> second t \<le> 59"

text \<open>\<open>int()\<close> of a captured field; the only non-digit a capture can hold is
  the leading blank of \<open>%d\<close>'s last alternative, which \<open>int\<close> strips.\<close>

definition field_val :: "string \<Rightarrow> nat" where
  "field_val g = read_nat (dropWhile (\<lambda>c. c = CHR '' '') g)"

definition get_field :: "(directive \<times> string) list \<Rightarrow> directive \<Rightarrow> nat \<Rightarrow> nat" where
  "get_field caps d dflt = (case map_of caps d of Some g \<Rightarrow> field_val g | None \<Rightarrow> dflt)"

text \<open>Defaults of \<open>_strptime\<close> for directives absent from the format.\<close>

definition dt_of_caps :: "(directive \<times> string) list \<Rightarrow> datetime" where
  "dt_of_caps caps =
     \<lparr>year = get_field caps DY 1900, month = get_field caps Dm 1, day = get_field caps Dd 1,
      hour = get_field caps DH 0, minute = get_field caps DM 0, second = get_field caps DS 0\<rparr>"

definition strptime_items :: "fmt_item list \<Rightarrow> string \<Rightarrow> datetime result" where
  "strptime_items items s =
     (case match_items items s of
        [] \<Rightarrow> Inl (ValueError ''time data does not match format'')
      | (caps, rest) # _ \<Rightarrow>
          if rest \<noteq> [] then Inl (ValueError ''unconverted data remains'')
          else if \<not> dt_valid (dt_of_caps caps) then Inl (ValueError ''day is out of range for month'')
          else Inr (dt_of_caps caps))"

text \<open>\<open>datetime.strptime(s, fmt)\<close>. A format whose directives repeat makes
  \<open>re\<close> raise while compiling; every caller of the program catches all
  exceptions alike, so that failure is the same error value.\<close>

definition strptime :: "string \<Rightarrow> string \<Rightarrow> datetime result" where
  "strptime s fmt =
     (case fmt_items fmt of
        None \<Rightarrow> Inl (ValueError ''bad directive in format'')
      | Some items \<Rightarrow>
          if distinct [d. FDir d \<leftarrow> items] then strptime_items items s
          else Inl (ValueError ''redefinition of group name''))"

section \<open>Printing\<close>

fun dir_width :: "directive \<Rightarrow> nat" where
  "dir_width DY = 4"
| "dir_width _ = 2"

fun dir_value :: "directive \<Rightarrow> datetime \<Rightarrow> nat" where
  "dir_value DY t = year t"
| "dir_value Dm t = month t"
| "dir_value Dd t = day t"
| "dir_value DH t = hour t"
| "dir_value DM t = minute t"
| "dir_value DS t = second t"

fun render_item :: "datetime \<Rightarrow> fmt_item \<Rightarrow> string" where
  "render_item t (FLit c) = [c]"
| "render_item t FSpace = '' ''"
| "render_item t (FDir d) = pad_nat (dir_width d) (dir_value d t)"

definition strftime_items :: "fmt_item list \<Rightarrow> datetime \<Rightarrow> string" where
  "strftime_items items t = concat (map (render_item t) items)"

text \<open>\<open>t.strftime(fmt)\<close>: a directive is replaced by its zero-padded field,
  every other character is copied, whitespace included. (An unknown directive
  is copied too; the program's formats have none.)\<close>

fun strftime :: "datetime \<Rightarrow> string \<Rightarrow> string" where
  "strftime t [] = []"
| "strftime t (c # cs) =
     (if c = CHR ''%'' then
        (case cs of
           [] \<Rightarrow> [c]
         | d # ds \<Rightarrow>
             (case directive_of d of
                Some dv \<Rightarrow> render_item t (FDir dv) @ strftime t ds
              | None \<Rightarrow> c # d # strftime t ds))
      else c # strftime t cs)"

section \<open>Auxiliary notions of the round-trip proof\<close>

fun starts_ws :: "fmt_item \<Rightarrow> bool" where
  "starts_ws FSpace = True"
| "starts_ws (FLit c) = is_ws c"
| "starts_ws (FDir d) = False"

text \<open>Formats in which every \<open>\s+\<close> is followed by an item that cannot
  start with whitespace; every translated format string is one.\<close>

fun space_ok :: "fmt_item list \<Rightarrow> bool" where
  "space_ok [] = True"
| "space_ok (FSpace # i # is) = (\<not> starts_ws i \<and> space_ok (i # is))"
| "space_ok (i # is) = space_ok is"

definition no_ws_start :: "string \<Rightarrow> bool" where
  "no_ws_start s \<longleftrightarrow> (case s of [] \<Rightarrow> True | c # _ \<Rightarrow> \<not> is_ws c)"

fun item_cap :: "fmt_item \<Rightarrow> datetime \<Rightarrow> string option" where
  "item_cap (FDir d) t = Some (render_item t (FDir d))"
| "item_cap _ t = None"

definition caps_of :: "fmt_item list \<Rightarrow> datetime \<Rightarrow> (directive \<times> string) list" where
  "caps_of items t = concat (map (\<lambda>i. capture i (item_cap i t)) items)"

text \<open>What parsing a rendering gives back: the fields the format mentions,
  and \<open>_strptime\<close>'s defaults for the others.\<close>

definition dt_restrict :: "fmt_item list \<Rightarrow> datetime \<Rightarrow> datetime" where
  "dt_restrict items t =
     \<lparr>year = (if FDir DY \<in> set items then year t else 1900),
      month = (if FDir Dm \<in> set items then month t else 1),
      day = (if FDir Dd \<in> set items then day t else 1),
      hour = (if FDir DH \<in> set items then hour t else 0),
      minute = (if FDir DM \<in> set items then minute t else 0),
      second = (if FDir DS \<in> set items then second t else 0)\<rparr>"

section \<open>Matching a rendering: the first match is the intended one\<close>

lemma pad2_eq:
  assumes "v < 100"
  shows "pad_nat 2 v = [digit_char (v div 10), digit_char (v mod 10)]"
proof (cases "v < 10")
  case True
  then have "show_nat v = [digit_char v]" by (simp add: show_nat.simps [of v])
  with True show ?thesis by (simp add: pad_nat_def numeral_2_eq_2 digit_char_def)
next
  case False
  with assms have "v div 10 < 10" by simp
  then have "show_nat (v div 10) = [digit_char (v div 10)]"
    by (simp add: show_nat.simps [of "v div 10"])
  with False show ?thesis by (simp add: pad_nat_def show_nat.simps [of v])
qed

lemma tens_units:
  obtains t u where "u < 10" "v div 10 = t" "v mod 10 = (u::nat)" "v = 10 * t + u"
  by (metis div_mult_mod_eq mod_less_divisor zero_less_numeral mult.commute)

lemma class_match_2: "class_match [c1, c2] (x # y # rest) \<longleftrightarrow> in_class c1 x \<and> in_class c2 y"
  by (simp add: class_match_def)

lemma in_class_digit_char [simp]:
  "k < 10 \<Longrightarrow> in_class (Digits lo hi) (digit_char k) \<longleftrightarrow> lo \<le> k \<and> k \<le> hi"
  by simp

lemma not_in_class_Blank [simp]: "k < 10 \<Longrightarrow> \<not> in_class Blank (digit_char k)"
  using is_digit_digit_char [of k] by (auto simp: is_digit_def)

lemma digit_not_ws: "is_digit c \<Longrightarrow> \<not> is_ws c"
  by (auto simp: is_digit_def is_ws_def)

lemma digit_le_9: "is_digit c \<Longrightarrow> digit_val c \<le> 9"
  using digit_val_lt by fastforce

lemma pad4_cases:
  assumes "y < 10000"
  obtains a b c d where "pad_nat 4 y = [a, b, c, d]"
    and "is_digit a" "is_digit b" "is_digit c" "is_digit d"
proof -
  have "length (pad_nat 4 y) = 4" using assms by (simp add: length_pad_nat)
  then obtain a b c d where p: "pad_nat 4 y = [a, b, c, d]"
    by (auto simp: numeral_eq_Suc length_Suc_conv)
  moreover from p have "is_digit a \<and> is_digit b \<and> is_digit c \<and> is_digit d"
    using pad_nat_digits [of 4 y] by simp
  ultimately show ?thesis using that by blast
qed

text \<open>The two-digit rendering of a field in range is matched, in full, by
  the first alternative of its directive that matches at all. The range of
  each field splits on its tens digit \<open>t\<close> and units digit \<open>u\<close>.\<close>

lemma match_two_digits:
  assumes "d \<noteq> DY" and "v < 100"
    and "d = Dm \<Longrightarrow> t = 0 \<and> 1 \<le> u \<or> t = 1 \<and> u \<le> 2"
    and "d = Dd \<Longrightarrow> t = 3 \<and> u \<le> 1 \<or> t = 1 \<or> t = 2 \<or> t = 0 \<and> 1 \<le> u"
    and "d = DH \<Longrightarrow> t \<le> 1 \<or> t = 2 \<and> u \<le> 3"
    and "d = DM \<Longrightarrow> t \<le> 5" and "d = DS \<Longrightarrow> t \<le> 5"
    and "u < 10" "v div 10 = t" "v mod 10 = u"
  shows "\<exists>xs. match_item (FDir d) (pad_nat 2 v @ rest) = (Some (pad_nat 2 v), rest) # xs"
  using assms by (cases d) (auto simp: pad2_eq class_match_2)

lemma match_dir_first:
  assumes "dt_valid t"
  shows "\<exists>xs. match_item (FDir d) (render_item t (FDir d) @ rest) =
               (Some (render_item t (FDir d)), rest) # xs"
proof (cases "d = DY")
  case True
  from assms have "year t < 10000" by (simp add: dt_valid_def)
  then obtain a b c e where "pad_nat 4 (year t) = [a, b, c, e]"
    and "is_digit a" "is_digit b" "is_digit c" "is_digit e"
    by (rule pad4_cases)
  with True show ?thesis by (simp add: class_match_def digit_le_9)
next
  case False
  let ?v = "dir_value d t"
  obtain tn u where tu: "u < 10" "?v div 10 = tn" "?v mod 10 = u" "?v = 10 * tn + u"
    by (rule tens_units)
  from assms have b: "1 \<le> month t" "month t \<le> 12" "1 \<le> day t" "day t \<le> 31"
    "hour t \<le> 23" "minute t \<le> 59" "second t \<le> 59"
    by (auto simp: dt_valid_def days_in_month_def split: if_splits)
  with False have "?v < 100" by (cases d) simp_all
  moreover have "d = Dm \<Longrightarrow> tn = 0 \<and> 1 \<le> u \<or> tn = 1 \<and> u \<le> 2"
    and "d = Dd \<Longrightarrow> tn = 3 \<and> u \<le> 1 \<or> tn = 1 \<or> tn = 2 \<or> tn = 0 \<and> 1 \<le> u"
    and "d = DH \<Longrightarrow> tn \<le> 1 \<or> tn = 2 \<and> u \<le> 3"
    and "d = DM \<Longrightarrow> tn \<le> 5" and "d = DS \<Longrightarrow> tn \<le> 5"
    using b tu(1,4) by simp_all arith+
  ultimately have "\<exists>xs. match_item (FDir d) (pad_nat 2 ?v @ rest) = (Some (pad_nat 2 ?v), rest) # xs"
    using False tu(1-3) by (intro match_two_digits)
  with False show ?thesis by (cases d) simp_all
qed

lemma match_space_single:
  assumes "no_ws_start rest"
  shows "match_item FSpace (CHR '' '' # rest) = [(None, rest)]"
proof -
  have "is_ws (CHR '' '')" by (simp add: is_ws_def)
  moreover from assms have "takeWhile is_ws rest = []"
    by (cases rest) (simp_all add: no_ws_start_def)
  ultimately show ?thesis by simp
qed

lemma match_item_render:
  assumes "dt_valid t" and "i = FSpace \<Longrightarrow> no_ws_start rest"
  shows "\<exists>xs. match_item i (render_item t i @ rest) = (item_cap i t, rest) # xs"
proof (cases i)
  case (FLit c)
  then show ?thesis by simp
next
  case FSpace
  then have "match_item FSpace (CHR '' '' # rest) = [(None, rest)]"
    using assms(2) by (intro match_space_single) simp
  with FSpace show ?thesis by simp
next
  case (FDir d)
  from match_dir_first [OF assms(1), of d rest] FDir show ?thesis
    by (simp del: match_item.simps render_item.simps)
qed

lemma render_dir_digits:
  "render_item t (FDir d) \<noteq> [] \<and> (\<forall>c\<in>set (render_item t (FDir d)). is_digit c)"
  using pad_nat_digits [of "dir_width d" "dir_value d t"] by (simp add: pad_nat_def)

lemma no_ws_start_render:
  assumes "\<not> starts_ws i"
  shows "no_ws_start (strftime_items (i # is) t @ r)"
proof (cases i)
  case (FLit c)
  with assms show ?thesis by (simp add: no_ws_start_def strftime_items_def)
next
  case FSpace
  with assms show ?thesis by simp
next
  case (FDir d)
  from render_dir_digits [of t d] obtain c cs where
    "render_item t (FDir d) = c # cs" and "is_digit c"
    by (cases "render_item t (FDir d)") auto
  with FDir show ?thesis
    by (simp add: no_ws_start_def strftime_items_def digit_not_ws del: render_item.simps)
qed

lemma space_ok_tl: "space_ok (i # is) \<Longrightarrow> space_ok is"
  by (cases i; cases "is") simp_all

lemma match_items_ConsI:
  assumes "match_item i s = (g, r) # xs" and "match_items is r = (gs, r') # ys"
  shows "\<exists>zs. match_items (i # is) s = (capture i g @ gs, r') # zs"
  using assms by simp

lemma match_items_render:
  assumes "dt_valid t" and "space_ok items" and "no_ws_start r"
  shows "\<exists>zs. match_items items (strftime_items items t @ r) = (caps_of items t, r) # zs"
  using assms(2)
proof (induction items)
  case Nil
  then show ?case by (simp add: strftime_items_def caps_of_def)
next
  case (Cons i "is")
  let ?rest = "strftime_items is t @ r"
  from Cons obtain zs where zs: "match_items is ?rest = (caps_of is t, r) # zs"
    using space_ok_tl by blast
  have "i = FSpace \<Longrightarrow> no_ws_start ?rest"
  proof (cases "is")
    case Nil
    then show ?thesis using assms(3) by (simp add: strftime_items_def)
  next
    case (Cons j js)
    assume "i = FSpace"
    with Cons.prems Cons have "\<not> starts_ws j" by simp
    with Cons show ?thesis by (simp add: no_ws_start_render)
  qed
  with assms(1) obtain xs where
    "match_item i (render_item t i @ ?rest) = (item_cap i t, ?rest) # xs"
    using match_item_render by blast
  then have "\<exists>ys. match_items (i # is) (render_item t i @ ?rest) =
               (capture i (item_cap i t) @ caps_of is t, r) # ys"
    using zs by (rule match_items_ConsI)
  then show ?case by (simp add: strftime_items_def caps_of_def)
qed

section \<open>Reading the fields back\<close>

lemma map_of_caps_of:
  "map_of (caps_of items t) d =
     (if FDir d \<in> set items then Some (render_item t (FDir d)) else None)"
proof (induction items)
  case Nil
  then show ?case by (simp add: caps_of_def)
next
  case (Cons i "is")
  then show ?case by (cases i) (auto simp: caps_of_def)
qed

lemma field_val_render [simp]: "field_val (render_item t (FDir d)) = dir_value d t"
proof -
  from render_dir_digits [of t d] obtain c cs where
    r: "render_item t (FDir d) = c # cs" and "is_digit c"
    by (cases "render_item t (FDir d)") auto
  then have "c \<noteq> CHR '' ''" by (auto simp: is_digit_def)
  with r have "dropWhile (\<lambda>c. c = CHR '' '') (render_item t (FDir d)) = render_item t (FDir d)"
    by simp
  then show ?thesis by (simp add: field_val_def del: render_item.simps) simp
qed

lemma dt_of_caps_of: "dt_of_caps (caps_of items t) = dt_restrict items t"
  by (simp add: dt_of_caps_def get_field_def map_of_caps_of dt_restrict_def
      del: render_item.simps)

lemma days_in_month_bounds: "28 \<le> days_in_month y m" "days_in_month y m \<le> 31"
  by (simp_all add: days_in_month_def)

lemma dt_valid_restrict:
  assumes "dt_valid t" and "FDir DY \<in> set items"
  shows "dt_valid (dt_restrict items t)"
  using assms days_in_month_bounds [of "year t" "month t"] days_in_month_bounds [of "year t" 1]
  by (auto simp: dt_valid_def dt_restrict_def days_in_month_def)

lemma strptime_items_render:
  assumes "dt_valid t" and "space_ok items" and "FDir DY \<in> set items"
  shows "strptime_items items (strftime_items items t) = Inr (dt_restrict items t)"
proof -
  have "no_ws_start []" by (simp add: no_ws_start_def)
  with assms(1,2) obtain zs where
    "match_items items (strftime_items items t @ []) = (caps_of items t, []) # zs"
    using match_items_render by blast
  with dt_valid_restrict [OF assms(1,3)] show ?thesis
    by (simp add: strptime_items_def dt_of_caps_of)
qed

section \<open>Translated formats\<close>

lemma fmt_items_head_not_ws:
  assumes "fmt_items (c # cs) = Some (i # is)" and "\<not> is_ws c"
  shows "\<not> starts_ws i"
  using assms by (auto split: if_splits list.splits option.splits)

lemma fmt_items_space_ok: "fmt_items f = Some items \<Longrightarrow> space_ok items"
proof (induction f arbitrary: items rule: fmt_items.induct)
  case 1
  then show ?case by simp
next
  case (2 c cs)
  show ?case
  proof (cases "c = CHR ''%''")
    case True
    with "2.prems" obtain d ds dv items' where "cs = d # ds" and "directive_of d = Some dv"
      and "fmt_items ds = Some items'" and "items = FDir dv # items'"
      by (auto split: list.splits option.splits)
    with "2.IH"(1) True show ?thesis by simp
  next
    case False
    show ?thesis
    proof (cases "is_ws c")
      case True
      with False "2.prems" obtain items' where
        i: "fmt_items (dropWhile is_ws cs) = Some items'" and its: "items = FSpace # items'"
        by auto
      from "2.IH"(2) [OF False True i] have ok: "space_ok items'" .
      show ?thesis
      proof (cases items')
        case Nil
        with its show ?thesis by simp
      next
        case (Cons j js)
        obtain c' cs' where dw: "dropWhile is_ws cs = c' # cs'" and nws: "\<not> is_ws c'"
          using i Cons by (cases "dropWhile is_ws cs") (auto dest: dropWhile_eq_Cons_conv [THEN iffD1])
        with i Cons have "\<not> starts_ws j" using fmt_items_head_not_ws by metis
        with ok its Cons show ?thesis by simp
      qed
    next
      case ws: False
      with False "2.prems" obtain items' where
        i: "fmt_items cs = Some items'" and its: "items = FLit c # items'"
        by auto
      from "2.IH"(3) [OF False ws i] its show ?thesis by simp
    qed
  qed
qed

lemma strftime_items_fmt:
  "fmt_items fmt = Some items \<Longrightarrow> \<forall>c\<in>set fmt. \<not> is_ws c \<Longrightarrow> strftime t fmt = strftime_items items t"
proof (induction fmt arbitrary: items rule: fmt_items.induct)
  case 1
  then show ?case by (simp add: strftime_items_def)
next
  case (2 c cs)
  then show ?case
    by (auto simp: strftime_items_def split: if_splits list.splits option.splits)
qed

lemma strptime_strftime_unfold:
  assumes "fmt_items fmt = Some items" and "\<forall>c\<in>set fmt. \<not> is_ws c"
    and "distinct [d. FDir d \<leftarrow> items]"
  shows "strptime (strftime t fmt) fmt = strptime_items items (strftime_items items t)"
  using assms by (simp add: strptime_def strftime_items_fmt)

lemma strptime_strftime_rt:
  assumes "dt_valid t" and "fmt_items fmt = Some items" and "\<forall>c\<in>set fmt. \<not> is_ws c"
    and "distinct [d. FDir d \<leftarrow> items]" and "FDir DY \<in> set items"
  shows "strptime (strftime t fmt) fmt = Inr (dt_restrict items t)"
proof -
  have "space_ok items" using assms(2) by (rule fmt_items_space_ok)
  with assms(1,5) have "strptime_items items (strftime_items items t) = Inr (dt_restrict items t)"
    by (simp add: strptime_items_render)
  with assms(2-4) show ?thesis by (simp add: strptime_strftime_unfold)
qed

text \<open>Round trip of the timestamp codec: parsing what \<open>strftime\<close> printed,
  with the same format, gives back every field the format mentions (and
  \<open>_strptime\<close>'s defaults for the others), for every valid date-time and every
  whitespace-free format with a year and no repeated directive.\<close>

theorem strptime_strftime:
  assumes "fmt_items fmt = Some items" and "\<forall>c\<in>set fmt. \<not> is_ws c"
    and "distinct [d. FDir d \<leftarrow> items]" and "FDir DY \<in> set items" and "dt_valid t"
  shows "strptime (strftime t fmt) fmt = Inr (dt_restrict items t)"
  using assms(5,1-4) by (rule strptime_strftime_rt)

theorem strptime_strftime_witness:
  "fmt_items ''%Y-%m-%d_%H-%M-%S'' =
     Some [FDir DY, FLit CHR ''-'', FDir Dm, FLit CHR ''-'', FDir Dd, FLit CHR ''_'',
           FDir DH, FLit CHR ''-'', FDir DM, FLit CHR ''-'', FDir DS]
   \<and> strptime (strftime \<lparr>year = 2024, month = 2, day = 29, hour = 7, minute = 5, second = 9\<rparr>
        ''%Y-%m-%d_%H-%M-%S'') ''%Y-%m-%d_%H-%M-%S''
     = Inr \<lparr>year = 2024, month = 2, day = 29, hour = 7, minute = 5, second = 9\<rparr>"
proof -
  let ?items = "[FDir DY, FLit CHR ''-'', FDir Dm, FLit CHR ''-'', FDir Dd, FLit CHR ''_'',
           FDir DH, FLit CHR ''-'', FDir DM, FLit CHR ''-'', FDir DS]"
  let ?t = "\<lparr>year = 2024, month = 2, day = 29, hour = 7, minute = 5, second = 9\<rparr>"
  have f: "fmt_items ''%Y-%m-%d_%H-%M-%S'' = Some ?items" by (simp add: directive_of_def is_ws_def)
  have "dt_valid ?t" by (simp add: dt_valid_def days_in_month_def is_leap_def)
  with f have "strptime (strftime ?t ''%Y-%m-%d_%H-%M-%S'') ''%Y-%m-%d_%H-%M-%S'' = Inr (dt_restrict ?items ?t)"
    by (intro strptime_strftime) (simp_all add: is_ws_def)
  with f show ?thesis by (simp add: dt_restrict_def)
qed

section \<open>Results of parsing\<close>

lemma strptime_valid: "strptime s fmt = Inr t \<Longrightarrow> dt_valid t"
  by (auto simp: strptime_def strptime_items_def split: option.splits if_splits list.splits prod.splits)

lemma pad2_cases:
  assumes "v < 100"
  obtains x y where "pad_nat 2 v = [x, y]" "is_digit x" "is_digit y"
  using assms pad2_eq [OF assms] that by simp

lemma valid_fields_shape:
  assumes "dt_valid t"
  obtains y1 y2 y3 y4 m1 m2 d1 d2 h1 h2 i1 i2 s1 s2 where
    "pad_nat 4 (year t) = [y1, y2, y3, y4]" "pad_nat 2 (month t) = [m1, m2]"
    "pad_nat 2 (day t) = [d1, d2]" "pad_nat 2 (hour t) = [h1, h2]"
    "pad_nat 2 (minute t) = [i1, i2]" "pad_nat 2 (second t) = [s1, s2]"
    "list_all is_digit [y1, y2, y3, y4, m1, m2, d1, d2, h1, h2, i1, i2, s1, s2]"
proof -
  from assms have b: "year t < 10000" "month t < 100" "day t < 100" "hour t < 100"
    "minute t < 100" "second t < 100"
    by (auto simp: dt_valid_def days_in_month_def split: if_splits)
  obtain y1 y2 y3 y4 where "pad_nat 4 (year t) = [y1, y2, y3, y4]"
    "is_digit y1" "is_digit y2" "is_digit y3" "is_digit y4"
    using b(1) by (rule pad4_cases)
  moreover obtain m1 m2 where "pad_nat 2 (month t) = [m1, m2]" "is_digit m1" "is_digit m2"
    using b(2) by (rule pad2_cases)
  moreover obtain d1 d2 where "pad_nat 2 (day t) = [d1, d2]" "is_digit d1" "is_digit d2"
    using b(3) by (rule pad2_cases)
  moreover obtain h1 h2 where "pad_nat 2 (hour t) = [h1, h2]" "is_digit h1" "is_digit h2"
    using b(4) by (rule pad2_cases)
  moreover obtain i1 i2 where "pad_nat 2 (minute t) = [i1, i2]" "is_digit i1" "is_digit i2"
    using b(5) by (rule pad2_cases)
  moreover obtain s1 s2 where "pad_nat 2 (second t) = [s1, s2]" "is_digit s1" "is_digit s2"
    using b(6) by (rule pad2_cases)
  ultimately show ?thesis using that by simp
qed

lemmas strptime_eval [model_eval] =
  strptime_def strptime_items_def dt_of_caps_def get_field_def field_val_def
  dt_valid_def days_in_month_def is_leap_def class_match_def is_ws_def directive_of_def
  strftime_items_def

end
