(* ===== verification/Naming.thy ===== *)
theory Naming
  imports Strptime
begin

text \<open>
  The naming policy of the program, both ways. Forward: the downloader
  derives a file-name stem and a date folder from a memory's timestamp
  (\<open>format_filename_date\<close> in \<open>src/src/utils.py\<close>, the folder computation at the
  top of \<open>Downloader.download_single\<close> in \<open>src/src/downloader.py\<close>).
  Backward: the ZIP processor recovers the stem from a bundle's file name with
  four regular expressions tried in order (\<open>ZipProcessor.process_all\<close>) and
  the timestamp from the stem (\<open>ZipProcessor.parse_date_from_filename\<close>, in
  \<open>src/src/zip_processor.py\<close>). The regular expressions are sequences of
  \<open>\d\<close> and literal characters, modelled by \<open>pchar\<close> lists; \<open>re.match\<close> is a
  prefix match and \<open>re.search\<close> the first position where one starts.
\<close>

section \<open>Timestamps of memories\<close>

text \<open>The format of the \<open>date\<close> column of the export, as the code parses it.\<close>

definition record_fmt :: string where
  "record_fmt = ''%Y-%m-%d %H:%M:%S UTC''"

definition format_filename_date :: "string \<Rightarrow> string \<Rightarrow> string" where
  "format_filename_date date_str format_type =
     (case strptime date_str record_fmt of
        Inl _ \<Rightarrow> ''unknown''
      | Inr date_obj \<Rightarrow>
          if format_type = ''1'' then strftime date_obj ''%Y%m%d_%H%M%S''
          else if format_type = ''2'' then strftime date_obj ''%Y-%m-%d_%H-%M-%S''
          else if format_type = ''3'' then strftime date_obj ''%Y-%m-%d''
          else if format_type = ''4'' then strftime date_obj ''%Y%m%d''
          else ''unknown'')"

text \<open>The date folder of \<open>download_single\<close> and the parsed date it keeps for
  the modification time (\<open>None\<close> when the timestamp does not parse).\<close>

definition date_folder :: "string \<Rightarrow> string \<Rightarrow> string \<times> datetime option" where
  "date_folder organization_mode date_str =
     (case strptime date_str record_fmt of
        Inr date_obj \<Rightarrow>
          (if organization_mode = ''by_date'' then strftime date_obj ''%Y/%m'' else [],
           Some date_obj)
      | Inl _ \<Rightarrow> (if organization_mode = ''by_date'' then ''unknown_date'' else [], None))"

definition target_dir :: "string \<Rightarrow> string \<Rightarrow> string" where
  "target_dir output_dir folder = (if folder \<noteq> [] then path_join output_dir folder else output_dir)"

section \<open>Regular expressions over digits\<close>

datatype pchar = PDigit | PChar char

fun pchar_ok :: "pchar \<Rightarrow> char \<Rightarrow> bool" where
  "pchar_ok PDigit c = is_digit c"
| "pchar_ok (PChar x) c = (c = x)"

text \<open>\<open>re.match(p, s)\<close> succeeds: \<open>p\<close> matches a prefix of \<open>s\<close>.\<close>

fun pat_prefix :: "pchar list \<Rightarrow> string \<Rightarrow> bool" where
  "pat_prefix [] s = True"
| "pat_prefix (p # ps) [] = False"
| "pat_prefix (p # ps) (c # cs) = (pchar_ok p c \<and> pat_prefix ps cs)"

text \<open>\<open>re.search(p, s)\<close>, returning the matched text (\<open>group(1)\<close> of the
  program's patterns, whose one group is the whole pattern).\<close>

fun re_search :: "pchar list \<Rightarrow> string \<Rightarrow> string option" where
  "re_search p [] = (if pat_prefix p [] then Some [] else None)"
| "re_search p (c # cs) =
     (if pat_prefix p (c # cs) then Some (take (length p) (c # cs)) else re_search p cs)"

definition digits :: "nat \<Rightarrow> pchar list" where
  "digits n = replicate n PDigit"

text \<open>The four patterns, in the program's order.\<close>

definition pat_compact :: "pchar list" where
  "pat_compact = digits 8 @ [PChar CHR ''_''] @ digits 6"

definition pat_readable :: "pchar list" where
  "pat_readable =
     digits 4 @ [PChar CHR ''-''] @ digits 2 @ [PChar CHR ''-''] @ digits 2 @ [PChar CHR ''_''] @
     digits 2 @ [PChar CHR ''-''] @ digits 2 @ [PChar CHR ''-''] @ digits 2"

definition pat_date :: "pchar list" where
  "pat_date = digits 4 @ [PChar CHR ''-''] @ digits 2 @ [PChar CHR ''-''] @ digits 2"

definition pat_compact_date :: "pchar list" where
  "pat_compact_date = digits 8"

section \<open>From a bundle name back to the stem and the timestamp\<close>

definition zip_date_formats :: "(string \<times> pchar list) list" where
  "zip_date_formats =
     [(''%Y%m%d_%H%M%S'', pat_compact), (''%Y-%m-%d_%H-%M-%S'', pat_readable),
      (''%Y-%m-%d'', pat_date), (''%Y%m%d'', pat_compact_date)]"

fun parse_date_loop :: "(string \<times> pchar list) list \<Rightarrow> string \<Rightarrow> datetime option" where
  "parse_date_loop [] s = None"
| "parse_date_loop ((fmt, pat) # fs) s =
     (if pat_prefix pat s then
        (case strptime s fmt of Inr d \<Rightarrow> Some d | Inl _ \<Rightarrow> parse_date_loop fs s)
      else parse_date_loop fs s)"

definition parse_date_from_filename :: "string \<Rightarrow> datetime option" where
  "parse_date_from_filename date_formatted = parse_date_loop zip_date_formats date_formatted"

text \<open>The stem search of \<open>process_all\<close>: \<open>re.search(a) or re.search(b) or \<dots>\<close>.\<close>

definition date_match :: "string \<Rightarrow> string option" where
  "date_match filename =
     (case re_search pat_compact filename of
        Some g \<Rightarrow> Some g
      | None \<Rightarrow>
          (case re_search pat_readable filename of
             Some g \<Rightarrow> Some g
           | None \<Rightarrow>
               (case re_search pat_date filename of
                  Some g \<Rightarrow> Some g
                | None \<Rightarrow> re_search pat_compact_date filename)))"

lemmas naming_eval [model_eval] =
  format_filename_date_def record_fmt_def date_folder_def target_dir_def digits_def
  pat_compact_def pat_readable_def pat_date_def pat_compact_date_def
  zip_date_formats_def parse_date_from_filename_def date_match_def

lemma non_digits [simp]:
  "\<not> is_digit CHR ''_''" "\<not> is_digit CHR ''-''" "\<not> is_digit CHR ''.''" "\<not> is_digit CHR ''z''"
  "\<not> is_digit CHR ''i''" "\<not> is_digit CHR ''p''"
  by (simp_all add: is_digit_def)

lemma stem_variants:
  assumes "strptime date_str record_fmt = Inr t"
  shows "format_filename_date date_str ''1'' =
           pad_nat 4 (year t) @ pad_nat 2 (month t) @ pad_nat 2 (day t) @ ''_'' @
           pad_nat 2 (hour t) @ pad_nat 2 (minute t) @ pad_nat 2 (second t)"
    and "format_filename_date date_str ''2'' =
           pad_nat 4 (year t) @ ''-'' @ pad_nat 2 (month t) @ ''-'' @ pad_nat 2 (day t) @ ''_'' @
           pad_nat 2 (hour t) @ ''-'' @ pad_nat 2 (minute t) @ ''-'' @ pad_nat 2 (second t)"
    and "format_filename_date date_str ''3'' =
           pad_nat 4 (year t) @ ''-'' @ pad_nat 2 (month t) @ ''-'' @ pad_nat 2 (day t)"
    and "format_filename_date date_str ''4'' =
           pad_nat 4 (year t) @ pad_nat 2 (month t) @ pad_nat 2 (day t)"
  using assms by (simp_all add: format_filename_date_def directive_of_def)
lemma date_match_v1:
  assumes "list_all is_digit [y1, y2, y3, y4, m1, m2, d1, d2, h1, h2, i1, i2, s1, s2]"
  shows "date_match ([y1, y2, y3, y4, m1, m2, d1, d2] @ ''_'' @ [h1, h2, i1, i2, s1, s2] @ ''.zip'')
         = Some ([y1, y2, y3, y4, m1, m2, d1, d2] @ ''_'' @ [h1, h2, i1, i2, s1, s2])"
  using assms by (simp add: date_match_def pat_compact_def digits_def numeral_eq_Suc)

lemma date_match_v2:
  assumes "list_all is_digit [y1, y2, y3, y4, m1, m2, d1, d2, h1, h2, i1, i2, s1, s2]"
  shows "date_match ([y1, y2, y3, y4] @ ''-'' @ [m1, m2] @ ''-'' @ [d1, d2] @ ''_'' @ [h1, h2] @ ''-'' @ [i1, i2] @ ''-'' @ [s1, s2] @ ''.zip'')
         = Some ([y1, y2, y3, y4] @ ''-'' @ [m1, m2] @ ''-'' @ [d1, d2] @ ''_'' @ [h1, h2] @ ''-'' @ [i1, i2] @ ''-'' @ [s1, s2])"
  using assms by (simp add: date_match_def pat_compact_def pat_readable_def digits_def numeral_eq_Suc)

lemma date_match_v3:
  assumes "list_all is_digit [y1, y2, y3, y4, m1, m2, d1, d2]"
  shows "date_match ([y1, y2, y3, y4] @ ''-'' @ [m1, m2] @ ''-'' @ [d1, d2] @ ''.zip'')
         = Some ([y1, y2, y3, y4] @ ''-'' @ [m1, m2] @ ''-'' @ [d1, d2])"
  using assms by (simp add: date_match_def pat_compact_def pat_readable_def pat_date_def digits_def numeral_eq_Suc)

lemma date_match_v4:
  assumes "list_all is_digit [y1, y2, y3, y4, m1, m2, d1, d2]"
  shows "date_match ([y1, y2, y3, y4, m1, m2, d1, d2] @ ''.zip'')
         = Some [y1, y2, y3, y4, m1, m2, d1, d2]"
  using assms by (simp add: date_match_def pat_compact_def pat_readable_def pat_date_def pat_compact_date_def digits_def numeral_eq_Suc)
lemma strptime_strftime_full:
  assumes "dt_valid t"
  shows "strptime (strftime t ''%Y%m%d_%H%M%S'') ''%Y%m%d_%H%M%S'' = Inr t"
    and "strptime (strftime t ''%Y-%m-%d_%H-%M-%S'') ''%Y-%m-%d_%H-%M-%S'' = Inr t"
    and "strptime (strftime t ''%Y-%m-%d'') ''%Y-%m-%d'' = Inr (t\<lparr>hour := 0, minute := 0, second := 0\<rparr>)"
    and "strptime (strftime t ''%Y%m%d'') ''%Y%m%d'' = Inr (t\<lparr>hour := 0, minute := 0, second := 0\<rparr>)"
proof -
  show "strptime (strftime t ''%Y%m%d_%H%M%S'') ''%Y%m%d_%H%M%S'' = Inr t"
    using strptime_strftime_rt [OF assms, of "''%Y%m%d_%H%M%S''"
        "[FDir DY, FDir Dm, FDir Dd, FLit CHR ''_'', FDir DH, FDir DM, FDir DS]"]
    by (simp add: directive_of_def is_ws_def dt_restrict_def)
  show "strptime (strftime t ''%Y-%m-%d_%H-%M-%S'') ''%Y-%m-%d_%H-%M-%S'' = Inr t"
    using strptime_strftime_rt [OF assms, of "''%Y-%m-%d_%H-%M-%S''"
        "[FDir DY, FLit CHR ''-'', FDir Dm, FLit CHR ''-'', FDir Dd, FLit CHR ''_'',
          FDir DH, FLit CHR ''-'', FDir DM, FLit CHR ''-'', FDir DS]"]
    by (simp add: directive_of_def is_ws_def dt_restrict_def)
  show "strptime (strftime t ''%Y-%m-%d'') ''%Y-%m-%d'' = Inr (t\<lparr>hour := 0, minute := 0, second := 0\<rparr>)"
    using strptime_strftime_rt [OF assms, of "''%Y-%m-%d''"
        "[FDir DY, FLit CHR ''-'', FDir Dm, FLit CHR ''-'', FDir Dd]"]
    by (simp add: directive_of_def is_ws_def dt_restrict_def)
  show "strptime (strftime t ''%Y%m%d'') ''%Y%m%d'' = Inr (t\<lparr>hour := 0, minute := 0, second := 0\<rparr>)"
    using strptime_strftime_rt [OF assms, of "''%Y%m%d''" "[FDir DY, FDir Dm, FDir Dd]"]
    by (simp add: directive_of_def is_ws_def dt_restrict_def)
qed

text \<open>C27. The ZIP processor recovers the downloader's stem: for a memory
  whose timestamp parses and any of the four filename variants, the date
  search of \<open>process_all\<close> over the bundle name \<open>stem.zip\<close> returns exactly
  the stem \<open>format_filename_date\<close> produced.\<close>

theorem date_match_stem:
  assumes "strptime date_str record_fmt = Inr t"
    and "format_type \<in> {''1'', ''2'', ''3'', ''4''}"
  shows "date_match (format_filename_date date_str format_type @ ''.zip'') =
         Some (format_filename_date date_str format_type)"
proof -
  from assms(1) have "dt_valid t" by (rule strptime_valid)
  then obtain y1 y2 y3 y4 m1 m2 d1 d2 h1 h2 i1 i2 s1 s2 where
    f: "pad_nat 4 (year t) = [y1, y2, y3, y4]" "pad_nat 2 (month t) = [m1, m2]"
    "pad_nat 2 (day t) = [d1, d2]" "pad_nat 2 (hour t) = [h1, h2]"
    "pad_nat 2 (minute t) = [i1, i2]" "pad_nat 2 (second t) = [s1, s2]"
    and dg: "list_all is_digit [y1, y2, y3, y4, m1, m2, d1, d2, h1, h2, i1, i2, s1, s2]"
    by (rule valid_fields_shape)
  from dg have dg8: "list_all is_digit [y1, y2, y3, y4, m1, m2, d1, d2]" by simp
  from assms(2) consider "format_type = ''1''" | "format_type = ''2''"
    | "format_type = ''3''" | "format_type = ''4''" by blast
  then show ?thesis
  proof cases
    case 1
    then show ?thesis using date_match_v1 [OF dg] stem_variants(1) [OF assms(1)] f by simp
  next
    case 2
    then show ?thesis using date_match_v2 [OF dg] stem_variants(2) [OF assms(1)] f by simp
  next
    case 3
    then show ?thesis using date_match_v3 [OF dg8] stem_variants(3) [OF assms(1)] f by simp
  next
    case 4
    then show ?thesis using date_match_v4 [OF dg8] stem_variants(4) [OF assms(1)] f by simp
  qed
qed

theorem date_match_stem_witness:
  "strptime ''2025-12-15 21:31:58 UTC'' record_fmt =
     Inr \<lparr>year = 2025, month = 12, day = 15, hour = 21, minute = 31, second = 58\<rparr>
   \<and> ''2'' \<in> {''1'', ''2'', ''3'', ''4''}
   \<and> date_match (format_filename_date ''2025-12-15 21:31:58 UTC'' ''2'' @ ''.zip'') =
       Some (format_filename_date ''2025-12-15 21:31:58 UTC'' ''2'')"
proof -
  have h: "strptime ''2025-12-15 21:31:58 UTC'' record_fmt =
     Inr \<lparr>year = 2025, month = 12, day = 15, hour = 21, minute = 31, second = 58\<rparr>"
    by (simp add: model_eval)
  have k: "''2'' \<in> {''1'', ''2'', ''3'', ''4''}" by simp
  show ?thesis using date_match_stem [OF h k] h k by simp
qed

text \<open>The modification time the ZIP processor sets is the memory's own
  timestamp: \<open>parse_date_from_filename\<close> of the stem gives back the parsed
  timestamp, to the second for variants 1 and 2 and to the day (at midnight)
  for the date-only variants 3 and 4.\<close>

theorem parse_date_from_stem:
  assumes "strptime date_str record_fmt = Inr t"
  shows "parse_date_from_filename (format_filename_date date_str ''1'') = Some t
       \<and> parse_date_from_filename (format_filename_date date_str ''2'') = Some t
       \<and> parse_date_from_filename (format_filename_date date_str ''3'') =
           Some (t\<lparr>hour := 0, minute := 0, second := 0\<rparr>)
       \<and> parse_date_from_filename (format_filename_date date_str ''4'') =
           Some (t\<lparr>hour := 0, minute := 0, second := 0\<rparr>)"
proof -
  from assms(1) have v: "dt_valid t" by (rule strptime_valid)
  then obtain y1 y2 y3 y4 m1 m2 d1 d2 h1 h2 i1 i2 s1 s2 where
    f: "pad_nat 4 (year t) = [y1, y2, y3, y4]" "pad_nat 2 (month t) = [m1, m2]"
    "pad_nat 2 (day t) = [d1, d2]" "pad_nat 2 (hour t) = [h1, h2]"
    "pad_nat 2 (minute t) = [i1, i2]" "pad_nat 2 (second t) = [s1, s2]"
    and dg: "list_all is_digit [y1, y2, y3, y4, m1, m2, d1, d2, h1, h2, i1, i2, s1, s2]"
    by (rule valid_fields_shape)
  have e: "format_filename_date date_str ''1'' = strftime t ''%Y%m%d_%H%M%S''"
    "format_filename_date date_str ''2'' = strftime t ''%Y-%m-%d_%H-%M-%S''"
    "format_filename_date date_str ''3'' = strftime t ''%Y-%m-%d''"
    "format_filename_date date_str ''4'' = strftime t ''%Y%m%d''"
    using assms by (simp_all add: format_filename_date_def)
  have r: "strftime t ''%Y%m%d_%H%M%S'' = [y1, y2, y3, y4, m1, m2, d1, d2] @ ''_'' @ [h1, h2, i1, i2, s1, s2]"
    "strftime t ''%Y-%m-%d_%H-%M-%S'' = [y1, y2, y3, y4] @ ''-'' @ [m1, m2] @ ''-'' @ [d1, d2] @ ''_''
        @ [h1, h2] @ ''-'' @ [i1, i2] @ ''-'' @ [s1, s2]"
    "strftime t ''%Y-%m-%d'' = [y1, y2, y3, y4] @ ''-'' @ [m1, m2] @ ''-'' @ [d1, d2]"
    "strftime t ''%Y%m%d'' = [y1, y2, y3, y4, m1, m2, d1, d2]"
    using f by (simp_all add: directive_of_def)
  note rt = strptime_strftime_full [OF v]
  show ?thesis
    using dg rt unfolding e r
    by (simp add: parse_date_from_filename_def zip_date_formats_def pat_compact_def
        pat_readable_def pat_date_def pat_compact_date_def digits_def numeral_eq_Suc)
qed

section \<open>Properties of the naming policy\<close>

theorem parse_date_from_stem_witness:
  "strptime ''2024-02-29 23:59:07 UTC'' record_fmt =
     Inr \<lparr>year = 2024, month = 2, day = 29, hour = 23, minute = 59, second = 7\<rparr>
   \<and> parse_date_from_filename (format_filename_date ''2024-02-29 23:59:07 UTC'' ''4'') =
       Some \<lparr>year = 2024, month = 2, day = 29, hour = 0, minute = 0, second = 0\<rparr>"
proof -
  have h: "strptime ''2024-02-29 23:59:07 UTC'' record_fmt =
     Inr \<lparr>year = 2024, month = 2, day = 29, hour = 23, minute = 59, second = 7\<rparr>"
    by (simp add: model_eval)
  show ?thesis using parse_date_from_stem [OF h] h by simp
qed

text \<open>The sentinel stem \<open>unknown\<close> is produced exactly when the
  timestamp does not parse or the variant is not one of the four; a real stem
  starts with a digit and never equals the sentinel.\<close>

theorem format_filename_date_unknown:
  "format_filename_date date_str format_type = ''unknown'' \<longleftrightarrow>
     (\<exists>e. strptime date_str record_fmt = Inl e) \<or> format_type \<notin> {''1'', ''2'', ''3'', ''4''}"
proof (cases "strptime date_str record_fmt")
  case (Inl e)
  then show ?thesis by (simp add: format_filename_date_def)
next
  case (Inr t)
  then have "dt_valid t" by (rule strptime_valid)
  then have "year t < 10000" by (simp add: dt_valid_def)
  then obtain y1 y2 y3 y4 where y: "pad_nat 4 (year t) = [y1, y2, y3, y4]" "is_digit y1"
    by (rule pad4_cases)
  then have y1: "y1 \<noteq> CHR ''u''" by (auto simp: is_digit_def)
  consider "format_type = ''1''" | "format_type = ''2''" | "format_type = ''3''"
    | "format_type = ''4''" | "format_type \<notin> {''1'', ''2'', ''3'', ''4''}" by blast
  then show ?thesis
  proof cases
    case 5
    with Inr show ?thesis by (auto simp: format_filename_date_def)
  qed (use Inr y y1 stem_variants [OF Inr] in simp_all)
qed

theorem format_filename_date_unknown_witness:
  "format_filename_date ''15/12/2025'' ''1'' = ''unknown''
   \<and> format_filename_date ''2025-12-15 21:31:58 UTC'' ''1'' \<noteq> ''unknown''"
proof -
  have "\<exists>e. strptime ''15/12/2025'' record_fmt = Inl e" by (simp add: model_eval)
  moreover have "\<not> (\<exists>e. strptime ''2025-12-15 21:31:58 UTC'' record_fmt = Inl e)"
    by (simp add: model_eval)
  ultimately show ?thesis
    using format_filename_date_unknown [of "''15/12/2025''" "''1''"]
      format_filename_date_unknown [of "''2025-12-15 21:31:58 UTC''" "''1''"] by simp
qed

text \<open>The concrete naming scenario of the specification: the timestamp
  \<open>2025-12-15 21:31:58 UTC\<close> gives the stem \<open>20251215_213158\<close> under variant 1,
  \<open>2025-12-15_21-31-58\<close> under variant 2, \<open>2025-12-15\<close> under variant 3 and
  \<open>20251215\<close> under variant 4, and the date folder \<open>2025/12\<close> when organising
  by date.\<close>

theorem format_filename_date_example:
  "format_filename_date ''2025-12-15 21:31:58 UTC'' ''1'' = ''20251215_213158''
   \<and> format_filename_date ''2025-12-15 21:31:58 UTC'' ''2'' = ''2025-12-15_21-31-58''
   \<and> format_filename_date ''2025-12-15 21:31:58 UTC'' ''3'' = ''2025-12-15''
   \<and> format_filename_date ''2025-12-15 21:31:58 UTC'' ''4'' = ''20251215''
   \<and> fst (date_folder ''by_date'' ''2025-12-15 21:31:58 UTC'') = ''2025/12''"
  by (simp add: model_eval)

text \<open>Variants 3 and 4 drop the time of day: two memories of the same
  day get the same stem, so the downloader's prefix check treats the second as
  already downloaded.\<close>

theorem date_only_stem_same_day:
  assumes "strptime s1 record_fmt = Inr t1" and "strptime s2 record_fmt = Inr t2"
    and "year t1 = year t2" "month t1 = month t2" "day t1 = day t2"
    and "format_type \<in> {''3'', ''4''}"
  shows "format_filename_date s1 format_type = format_filename_date s2 format_type"
proof -
  from assms(6) consider "format_type = ''3''" | "format_type = ''4''" by blast
  then show ?thesis
    by cases (simp_all add: stem_variants [OF assms(1)] stem_variants [OF assms(2)] assms(3-5))
qed

theorem date_only_stem_same_day_witness:
  "format_filename_date ''2025-12-15 08:00:00 UTC'' ''3'' =
   format_filename_date ''2025-12-15 21:31:58 UTC'' ''3''"
proof -
  have h1: "strptime ''2025-12-15 08:00:00 UTC'' record_fmt =
     Inr \<lparr>year = 2025, month = 12, day = 15, hour = 8, minute = 0, second = 0\<rparr>"
    by (simp add: model_eval)
  have h2: "strptime ''2025-12-15 21:31:58 UTC'' record_fmt =
     Inr \<lparr>year = 2025, month = 12, day = 15, hour = 21, minute = 31, second = 58\<rparr>"
    by (simp add: model_eval)
  show ?thesis by (rule date_only_stem_same_day [OF h1 h2]) simp_all
qed

end
