(* ===== verification/FileStore.thy ===== *)
theory FileStore
  imports Naming
begin

text \<open>
  The file system as both phases of the program see it: a store of regular
  files keyed by (directory, name), kept in directory-listing order, and the set
  of existing directories as full path strings. The operations are those the
  program calls: \<open>os.path.exists\<close>, \<open>os.listdir\<close>, \<open>os.path.getsize\<close>,
  \<open>Path.mkdir(parents=True, exist_ok=True)\<close>, \<open>open(p, 'wb').write\<close>,
  \<open>os.utime\<close>, \<open>os.remove\<close> and \<open>os.rename\<close>; each raises where Python
  raises (\<open>FileNotFoundError\<close>; \<open>FileExistsError\<close> and
  \<open>NotADirectoryError\<close> of \<open>mkdir\<close>, \<open>IsADirectoryError\<close> of \<open>rename\<close>). A file's modification time is the date-time
  given to \<open>os.utime\<close> (through \<open>datetime.timestamp()\<close>), or \<open>None\<close> for the
  time of its last write. \<open>os.listdir\<close> lists a directory's files in store
  order, then its subdirectories; the size of a directory is a constant of the
  file system. Paths are compared as strings, as the program builds them all
  with \<open>os.path.join\<close> from the same roots.
\<close>

record file_entry =
  content :: bytes
  mtime :: "datetime option"

record store =
  files :: "((string \<times> string) \<times> file_entry) list"
  dirs :: "string list"
  dir_size :: nat

type_synonym fpath = "string \<times> string"

definition file_at :: "store \<Rightarrow> fpath \<Rightarrow> file_entry option" where
  "file_at st p = map_of (files st) p"

definition full_path :: "fpath \<Rightarrow> string" where
  "full_path p = path_join (fst p) (snd p)"

definition is_dir :: "store \<Rightarrow> string \<Rightarrow> bool" where
  "is_dir st d \<longleftrightarrow> d \<in> set (dirs st)"

text \<open>\<open>os.path.exists(os.path.join(d, n))\<close>.\<close>

definition path_exists :: "store \<Rightarrow> fpath \<Rightarrow> bool" where
  "path_exists st p \<longleftrightarrow> file_at st p \<noteq> None \<or> is_dir st (full_path p)"

text \<open>The name under which directory \<open>e\<close> is listed in directory \<open>d\<close>, if it is
  a child of \<open>d\<close>.\<close>

definition child_name :: "string \<Rightarrow> string \<Rightarrow> string option" where
  "child_name d e =
     (let n = drop (length (path_join d [])) e
      in if prefix (path_join d []) e \<and> n \<noteq> [] \<and> CHR ''/'' \<notin> set n then Some n else None)"

definition listdir :: "store \<Rightarrow> string \<Rightarrow> string list" where
  "listdir st d =
     [snd p. (p, _) \<leftarrow> files st, fst p = d] @ List.map_filter (child_name d) (dirs st)"

text \<open>\<open>os.path.getsize\<close> of a listed entry.\<close>

definition getsize :: "store \<Rightarrow> fpath \<Rightarrow> nat result" where
  "getsize st p =
     (case file_at st p of
        Some f \<Rightarrow> Inr (length (content f))
      | None \<Rightarrow> if is_dir st (full_path p) then Inr (dir_size st)
                else Inl (FileNotFoundError (full_path p)))"

text \<open>The directories \<open>mkdir(parents=True)\<close> creates for a path: every proper
  prefix ending before a separator, and the path itself.\<close>

definition ancestors :: "string \<Rightarrow> string list" where
  "ancestors d = [take i d. i \<leftarrow> [1..<length d], d ! i = CHR ''/''] @ [d]"

text \<open>The directories a successful \<open>mkdir(parents=True)\<close> leaves: the missing
  ones among the ancestors are added.\<close>

definition makedirs :: "store \<Rightarrow> string \<Rightarrow> store" where
  "makedirs st d = st\<lparr>dirs := dirs st @ filter (\<lambda>a. a \<notin> set (dirs st)) (remdups (ancestors d))\<rparr>"

text \<open>A regular file whose full path is \<open>a\<close>, and a path as Python's \<open>repr\<close>
  quotes it in an \<open>OSError\<close> message.\<close>

definition file_path :: "store \<Rightarrow> string \<Rightarrow> bool" where
  "file_path st a \<longleftrightarrow> list_ex (\<lambda>(q, _). full_path q = a) (files st)"

definition quoted :: "string \<Rightarrow> string" where
  "quoted a = CHR 0x27 # a @ [CHR 0x27]"

text \<open>\<open>Path(d).mkdir(parents=True, exist_ok=True)\<close>: nothing to do when \<open>d\<close>
  is a directory; \<open>FileExistsError\<close> when \<open>d\<close> is a regular file,
  \<open>NotADirectoryError\<close> when an ancestor is one (the parents above a regular
  file all exist, so nothing is created before the error); otherwise the
  missing directories are created. (In a store where the ancestors of a
  directory are directories, as on a real file system, \<open>makedirs\<close> of an
  existing directory changes nothing.)\<close>

definition mkdirs :: "store \<Rightarrow> string \<Rightarrow> store result" where
  "mkdirs st d =
     (if is_dir st d then Inr (makedirs st d)
      else if file_path st d then Inl (OSError (''[Errno 17] File exists: '' @ quoted d))
      else if list_ex (file_path st) (ancestors d) then Inl (OSError (''[Errno 20] Not a directory: '' @ quoted d))
      else Inr (makedirs st d))"

text \<open>\<open>open(p, 'wb').write(c)\<close>: creates or truncates the file; the directory
  must exist.\<close>

definition write_file :: "store \<Rightarrow> fpath \<Rightarrow> bytes \<Rightarrow> store result" where
  "write_file st p c =
     (if is_dir st (fst p) \<and> \<not> is_dir st (full_path p)
      then Inr (st\<lparr>files := AList.update p \<lparr>content = c, mtime = None\<rparr> (files st)\<rparr>)
      else Inl (FileNotFoundError (full_path p)))"

definition utime :: "store \<Rightarrow> fpath \<Rightarrow> datetime \<Rightarrow> store result" where
  "utime st p t =
     (case file_at st p of
        Some f \<Rightarrow> Inr (st\<lparr>files := AList.update p (f\<lparr>mtime := Some t\<rparr>) (files st)\<rparr>)
      | None \<Rightarrow> Inl (FileNotFoundError (full_path p)))"

definition remove_file :: "store \<Rightarrow> fpath \<Rightarrow> store result" where
  "remove_file st p =
     (if file_at st p \<noteq> None then Inr (st\<lparr>files := AList.delete p (files st)\<rparr>)
      else Inl (FileNotFoundError (full_path p)))"

text \<open>\<open>os.rename(src, dst)\<close> on POSIX: replaces an existing file \<open>dst\<close>, and
  raises \<open>IsADirectoryError\<close> when \<open>dst\<close> is a directory.\<close>

definition rename_file :: "store \<Rightarrow> fpath \<Rightarrow> fpath \<Rightarrow> store result" where
  "rename_file st src dst =
     (case file_at st src of
        Some f \<Rightarrow>
          if is_dir st (full_path dst)
          then Inl (OSError (''[Errno 21] Is a directory: '' @ quoted (full_path src) @ '' -> '' @ quoted (full_path dst)))
          else if is_dir st (fst dst) then
            Inr (st\<lparr>files := AList.update dst f (AList.delete src (files st))\<rparr>)
          else Inl (FileNotFoundError (full_path dst))
      | None \<Rightarrow> Inl (FileNotFoundError (full_path src)))"

text \<open>The store's invariant: one entry per path.\<close>

definition store_ok :: "store \<Rightarrow> bool" where
  "store_ok st \<longleftrightarrow> distinct (map fst (files st))"

lemmas store_eval [model_eval] =
  file_at_def full_path_def is_dir_def path_exists_def child_name_def listdir_def getsize_def
  ancestors_def makedirs_def file_path_def quoted_def mkdirs_def write_file_def utime_def remove_file_def rename_file_def

section \<open>Lemmas on the store\<close>

lemma file_at_update [simp]:
  "file_at (st\<lparr>files := AList.update p f (files st)\<rparr>) q = (if q = p then Some f else file_at st q)"
  by (simp add: file_at_def update_conv)

lemma file_at_delete [simp]:
  "file_at (st\<lparr>files := AList.delete p (files st)\<rparr>) q = (if q = p then None else file_at st q)"
  by (simp add: file_at_def delete_conv)

lemma store_ok_update [simp]:
  "store_ok st \<Longrightarrow> store_ok (st\<lparr>files := AList.update p f (files st)\<rparr>)"
  by (simp add: store_ok_def distinct_update)

lemma store_ok_delete [simp]:
  "store_ok st \<Longrightarrow> store_ok (st\<lparr>files := AList.delete p (files st)\<rparr>)"
  by (simp add: store_ok_def distinct_delete)

lemma store_ok_makedirs [simp]: "store_ok (makedirs st d) = store_ok st"
  by (simp add: store_ok_def makedirs_def)

lemma file_at_makedirs [simp]: "file_at (makedirs st d) p = file_at st p"
  by (simp add: file_at_def makedirs_def)

lemma is_dir_makedirs: "is_dir (makedirs st d) e \<longleftrightarrow> is_dir st e \<or> e \<in> set (ancestors d)"
  by (auto simp: is_dir_def makedirs_def)

lemma makedirs_target [simp]: "is_dir (makedirs st d) d"
  by (simp add: is_dir_makedirs ancestors_def)

lemma mkdirs_Inr: "mkdirs st d = Inr st' \<Longrightarrow> st' = makedirs st d"
  by (simp add: mkdirs_def split: if_splits)

lemma mkdirs_no_files: "files st = [] \<Longrightarrow> mkdirs st d = Inr (makedirs st d)"
  by (simp add: mkdirs_def file_path_def list_ex_iff)

lemma write_file_ok:
  "write_file st p c = Inr st' \<Longrightarrow> store_ok st \<Longrightarrow> store_ok st'"
  by (auto simp: write_file_def split: if_splits)

lemma utime_ok:
  "utime st p t = Inr st' \<Longrightarrow> store_ok st \<Longrightarrow> store_ok st'"
  by (auto simp: utime_def split: option.splits)

lemma remove_file_ok:
  "remove_file st p = Inr st' \<Longrightarrow> store_ok st \<Longrightarrow> store_ok st'"
  by (auto simp: remove_file_def split: if_splits)

lemma rename_file_ok:
  "rename_file st s d = Inr st' \<Longrightarrow> store_ok st \<Longrightarrow> store_ok st'"
  by (auto simp: rename_file_def store_ok_def distinct_update distinct_delete
      split: option.splits if_splits)

lemma listdir_files:
  "file_at st (d, n) \<noteq> None \<Longrightarrow> n \<in> set (listdir st d)"
  by (auto simp: listdir_def file_at_def dest!: map_of_SomeD intro: rev_image_eqI)

lemma file_names_in_store: "file_at st (d, n) \<noteq> None \<Longrightarrow> n \<in> snd ` fst ` set (files st)"
proof -
  assume "file_at st (d, n) \<noteq> None"
  then obtain f where "map_of (files st) (d, n) = Some f" by (auto simp: file_at_def)
  then have "((d, n), f) \<in> set (files st)" by (rule map_of_SomeD)
  then show ?thesis by force
qed

lemma dir_names_in_store:
  "path_join d n \<in> set (dirs st) \<Longrightarrow>
   n \<in> (\<Union>e \<in> set (dirs st). {e, drop (length d) e, drop (Suc (length d)) e})"
proof -
  assume a: "path_join d n \<in> set (dirs st)"
  have "n \<in> {path_join d n, drop (length d) (path_join d n), drop (Suc (length d)) (path_join d n)}"
    by (rule path_join_inv) (rule refl)
  then show ?thesis using a by blast
qed

text \<open>A directory holds finitely many names, so a search for an unused name ends.\<close>

lemma finite_names_in_dir: "finite {n. path_exists st (d, n)}"
proof (rule finite_subset)
  show "{n. path_exists st (d, n)} \<subseteq>
      snd ` fst ` set (files st) \<union> (\<Union>e \<in> set (dirs st). {e, drop (length d) e, drop (Suc (length d)) e})"
  proof
    fix n assume "n \<in> {n. path_exists st (d, n)}"
    then have "file_at st (d, n) \<noteq> None \<or> path_join d n \<in> set (dirs st)"
      by (simp add: path_exists_def is_dir_def full_path_def)
    then show "n \<in> snd ` fst ` set (files st) \<union> (\<Union>e \<in> set (dirs st). {e, drop (length d) e, drop (Suc (length d)) e})"
    proof
      assume "file_at st (d, n) \<noteq> None"
      then show ?thesis by (intro UnI1) (rule file_names_in_store)
    next
      assume "path_join d n \<in> set (dirs st)"
      then show ?thesis by (intro UnI2) (rule dir_names_in_store)
    qed
  qed
qed simp

end
