(* ===== verification/Classifier.thy ===== *)
theory Classifier
  imports Prelude
begin

text \<open>
  The content classifier of \<open>Downloader.download_single\<close>
  (\<open>src/src/downloader.py\<close>, lines 63--83): the file extension of a downloaded
  payload, from the \<open>Content-Type\<close> header by substring tests in a fixed order,
  and otherwise from the payload's first bytes. Python's \<open>x in s\<close> on strings
  and on bytes is \<^const>\<open>sublist\<close>, \<open>content[:k]\<close> is \<open>take k\<close>.
\<close>

definition jpeg_soi_e0 :: bytes where
  "jpeg_soi_e0 = [0xFF, 0xD8, 0xFF, 0xE0]"

definition jpeg_soi_e1 :: bytes where
  "jpeg_soi_e1 = [0xFF, 0xD8, 0xFF, 0xE1]"

definition png_sig :: bytes where
  "png_sig = [0x89, 0x50, 0x4E, 0x47, 0x0D, 0x0A, 0x1A, 0x0A]"

text \<open>\<open>b'GIF8'\<close> and \<open>b'ftyp'\<close>.\<close>

definition gif_sig :: bytes where
  "gif_sig = [0x47, 0x49, 0x46, 0x38]"

definition ftyp_box :: bytes where
  "ftyp_box = [0x66, 0x74, 0x79, 0x70]"

definition sniff_extension :: "bytes \<Rightarrow> string" where
  "sniff_extension content =
     (if take 4 content = jpeg_soi_e0 \<or> take 4 content = jpeg_soi_e1 then ''jpg''
      else if take 8 content = png_sig then ''png''
      else if take 4 content = gif_sig then ''gif''
      else if sublist ftyp_box (take 20 content) then ''mp4''
      else ''dat'')"

definition resolve_extension :: "string \<Rightarrow> bytes \<Rightarrow> string" where
  "resolve_extension content_type content =
     (if sublist ''image/jpeg'' content_type then ''jpg''
      else if sublist ''image/png'' content_type then ''png''
      else if sublist ''image/gif'' content_type then ''gif''
      else if sublist ''video/mp4'' content_type \<or> sublist ''video/quicktime'' content_type then ''mp4''
      else if sublist ''application/zip'' content_type then ''zip''
      else sniff_extension content)"

text \<open>A header the table recognises.\<close>

definition known_content_type :: "string \<Rightarrow> bool" where
  "known_content_type ct \<longleftrightarrow>
     sublist ''image/jpeg'' ct \<or> sublist ''image/png'' ct \<or> sublist ''image/gif'' ct \<or>
     sublist ''video/mp4'' ct \<or> sublist ''video/quicktime'' ct \<or> sublist ''application/zip'' ct"

lemmas classifier_eval [model_eval] =
  jpeg_soi_e0_def jpeg_soi_e1_def png_sig_def gif_sig_def ftyp_box_def sniff_extension_def
  resolve_extension_def known_content_type_def

lemma resolve_unknown_header:
  "\<not> known_content_type ct \<Longrightarrow> resolve_extension ct c = sniff_extension c"
  by (simp add: resolve_extension_def known_content_type_def)

lemma take4_of_take8: "take 8 c = png_sig \<Longrightarrow> take 4 c = [0x89, 0x50, 0x4E, 0x47]"
proof -
  assume h: "take 8 c = png_sig"
  have "take 4 c = take 4 (take 8 c)" by simp
  also have "\<dots> = [0x89, 0x50, 0x4E, 0x47]" unfolding h by (simp add: png_sig_def)
  finally show ?thesis .
qed
lemma not_sublist_slash:
  assumes "CHR ''/'' \<in> set u" and "CHR ''/'' \<notin> set p" and "\<not> sublist u t"
    and "\<forall>a\<in>set (suffixes t). CHR ''/'' \<in> set a \<longrightarrow> \<not> prefix a u"
  shows "\<not> sublist u (t @ p)"
proof
  assume "sublist u (t @ p)"
  then consider "sublist u t" | "sublist u p" | a b where "u = a @ b" "suffix a t" "prefix b p"
    by (auto simp: sublist_append)
  then show False
  proof cases
    case 1
    then show ?thesis using assms(3) by blast
  next
    case 2
    then have "set u \<subseteq> set p" by (rule set_mono_sublist)
    then show ?thesis using assms(1,2) by blast
  next
    case 3
    then have "CHR ''/'' \<notin> set b" using assms(2) set_mono_prefix by blast
    then show ?thesis using 3 assms(1,4) by (auto simp: suffix_def)
  qed
qed

lemma mime_types_apart:
  "\<forall>t\<in>set [''image/jpeg'', ''image/png'', ''image/gif'', ''video/mp4'', ''video/quicktime'', ''application/zip''].
   \<forall>u\<in>set [''image/jpeg'', ''image/png'', ''image/gif'', ''video/mp4'', ''video/quicktime'', ''application/zip''].
     u \<noteq> t \<longrightarrow> CHR ''/'' \<in> set u \<and> \<not> sublist u t \<and> (\<forall>a\<in>set (suffixes t). CHR ''/'' \<in> set a \<longrightarrow> \<not> prefix a u)"
  by (simp add: sublist_code)

text \<open>Without a recognised \<open>Content-Type\<close> (in particular with none: the
  header then reads as the empty string), the extension follows the payload's
  signature: the JPEG start-of-image markers \<open>FF D8 FF E0\<close> and \<open>FF D8 FF E1\<close>
  give \<open>jpg\<close>, the PNG signature \<open>png\<close>, \<open>GIF8\<close> \<open>gif\<close>, and an \<open>ftyp\<close> box
  in the first 20 bytes of a payload with none of those prefixes \<open>mp4\<close>.\<close>

theorem sniff_signatures:
  assumes "\<not> known_content_type ct"
  shows "(take 4 c = jpeg_soi_e0 \<or> take 4 c = jpeg_soi_e1 \<longrightarrow> resolve_extension ct c = ''jpg'')
       \<and> (take 8 c = png_sig \<longrightarrow> resolve_extension ct c = ''png'')
       \<and> (take 4 c = gif_sig \<longrightarrow> resolve_extension ct c = ''gif'')
       \<and> (take 4 c \<noteq> jpeg_soi_e0 \<and> take 4 c \<noteq> jpeg_soi_e1 \<and> take 8 c \<noteq> png_sig \<and>
          take 4 c \<noteq> gif_sig \<and> sublist ftyp_box (take 20 c) \<longrightarrow> resolve_extension ct c = ''mp4'')"
proof -
  have r: "resolve_extension ct c = sniff_extension c"
    using assms by (rule resolve_unknown_header)
  have png: "take 8 c = png_sig \<Longrightarrow> sniff_extension c = ''png''"
    by (frule take4_of_take8) (simp add: sniff_extension_def jpeg_soi_e0_def jpeg_soi_e1_def png_sig_def)
  have gif: "take 4 c = gif_sig \<Longrightarrow> take 8 c \<noteq> png_sig"
    using take4_of_take8 by (fastforce simp: gif_sig_def)
  show ?thesis unfolding r
    using png gif by (auto simp: sniff_extension_def gif_sig_def jpeg_soi_e0_def jpeg_soi_e1_def)
qed
theorem sniff_signatures_witness:
  "\<not> known_content_type ''''
   \<and> resolve_extension '''' [0xFF, 0xD8, 0xFF, 0xE1, 0, 0x10] = ''jpg''
   \<and> resolve_extension '''' [0, 0, 0, 0x18, 0x66, 0x74, 0x79, 0x70, 0x6D, 0x70] = ''mp4''"
proof -
  have h: "\<not> known_content_type ''''" by (simp add: known_content_type_def)
  have a: "take 4 [0xFF, 0xD8, 0xFF, 0xE1, 0, 0x10::byte] = jpeg_soi_e1"
    by (simp add: jpeg_soi_e1_def)
  have b: "take 4 [0, 0, 0, 0x18, 0x66, 0x74, 0x79, 0x70, 0x6D, 0x70::byte] \<noteq> jpeg_soi_e0
      \<and> take 4 [0, 0, 0, 0x18, 0x66, 0x74, 0x79, 0x70, 0x6D, 0x70::byte] \<noteq> jpeg_soi_e1
      \<and> take 8 [0, 0, 0, 0x18, 0x66, 0x74, 0x79, 0x70, 0x6D, 0x70::byte] \<noteq> png_sig
      \<and> take 4 [0, 0, 0, 0x18, 0x66, 0x74, 0x79, 0x70, 0x6D, 0x70::byte] \<noteq> gif_sig"
    by (simp add: jpeg_soi_e0_def jpeg_soi_e1_def png_sig_def gif_sig_def)
  have c: "sublist ftyp_box (take 20 [0, 0, 0, 0x18, 0x66, 0x74, 0x79, 0x70, 0x6D, 0x70::byte])"
    unfolding sublist_def ftyp_box_def
    by (rule exI [of _ "[0, 0, 0, 0x18]"], rule exI [of _ "[0x6D, 0x70]"]) simp
  show ?thesis
    using sniff_signatures [OF h, of "[0xFF, 0xD8, 0xFF, 0xE1, 0, 0x10]"]
      sniff_signatures [OF h, of "[0, 0, 0, 0x18, 0x66, 0x74, 0x79, 0x70, 0x6D, 0x70]"] h a b c
    by blast
qed
text \<open>C31. The \<open>Content-Type\<close> table in its order: a header that is one of
  the six MIME types the code knows, followed by parameters without a slash
  (as in \<open>image/png; charset=binary\<close>), gives that type's extension, whatever
  the payload's first bytes say.\<close>

theorem resolve_extension_header:
  assumes "(t, x) \<in> set [(''image/jpeg'', ''jpg''), (''image/png'', ''png''), (''image/gif'', ''gif''),
      (''video/mp4'', ''mp4''), (''video/quicktime'', ''mp4''), (''application/zip'', ''zip'')]"
    and "CHR ''/'' \<notin> set p"
  shows "resolve_extension (t @ p) c = x"
proof -
  have t: "t \<in> set [''image/jpeg'', ''image/png'', ''image/gif'', ''video/mp4'', ''video/quicktime'', ''application/zip'']"
    using assms(1) by auto
  have k: "u \<noteq> t \<longrightarrow> \<not> sublist u (t @ p)"
    if "u \<in> set [''image/jpeg'', ''image/png'', ''image/gif'', ''video/mp4'', ''video/quicktime'', ''application/zip'']" for u
    using mime_types_apart t that not_sublist_slash [OF _ assms(2)] by blast
  have s: "sublist t (t @ p)" unfolding sublist_def by (intro exI [of _ "[]"] exI [of _ p]) simp
  show ?thesis
    using assms(1) s k [of "''image/jpeg''"] k [of "''image/png''"] k [of "''image/gif''"] k [of "''video/mp4''"]
      k [of "''video/quicktime''"]
    by (auto simp: resolve_extension_def)
qed

theorem resolve_extension_header_witness:
  "resolve_extension ''image/png; charset=binary'' [0xFF, 0xD8, 0xFF, 0xE0] = ''png''"
  using resolve_extension_header [of "''image/png''" "''png''" "''; charset=binary''"] by simp

end
