(* ===== verification/Downloader.thy ===== *)
theory Downloader
  imports FileStore Classifier
begin

text \<open>
  The download engine, \<open>Downloader\<close> in \<open>src/src/downloader.py\<close>.
  \<open>download_single\<close> is a function of the downloader's options, the
  configuration constants \<open>MAX_RETRIES\<close> and \<open>RETRY_DELAY\<close> (from
  \<open>src/config.py\<close>, which the repository does not contain), the network, the
  file store and the memory; it returns the outcome dictionary as the datatype
  \<open>outcome\<close>, the new store, the sleeps of the back-off in order, and the number
  of HTTP requests made. The network answers each request by URL and attempt
  index. \<open>download_all\<close> runs \<open>download_single\<close> over the memories and tallies
  the outcomes as they complete.
\<close>

record downloader =
  output_dir :: string
  organization_mode :: string
  filename_format :: string

text \<open>The constants of \<open>src/config.py\<close> the download engine reads (the request
  timeout is the network's concern).\<close>

record net_config =
  max_retries :: nat
  retry_delay :: nat

text \<open>\<open>Memory\<close> of \<open>src/src/models.py\<close>; the coordinates are kept as the text
  the parser read.\<close>

record memory =
  url :: string
  date :: string
  mem_type :: string
  latitude :: "string option"
  longitude :: "string option"

text \<open>One answer of \<open>session.get\<close>: an HTTP response (status, reason, the
  \<open>Content-Type\<close> header if sent, the body), or a \<open>RequestException\<close> raised by
  the transport (connection error, timeout).\<close>

datatype response = Response nat string "string option" bytes | TransportError string

type_synonym network = "string \<Rightarrow> nat \<Rightarrow> response"

text \<open>Lines 51--54: the request, \<open>raise_for_status\<close> (an \<open>HTTPError\<close>, a
  \<open>RequestException\<close>, for statuses 400 to 599 only), the body and the
  header with default \<open>''\<close>.\<close>

definition attempt_get :: "string \<Rightarrow> response \<Rightarrow> (bytes \<times> string) result" where
  "attempt_get u r =
     (case r of
        TransportError m \<Rightarrow> Inl (RequestException m)
      | Response st reason ct c \<Rightarrow>
          if 400 \<le> st \<and> st < 500
          then Inl (RequestException (show_nat st @ '' Client Error: '' @ reason @ '' for url: '' @ u))
          else if 500 \<le> st \<and> st < 600
          then Inl (RequestException (show_nat st @ '' Server Error: '' @ reason @ '' for url: '' @ u))
          else Inr (c, case ct of None \<Rightarrow> [] | Some t \<Rightarrow> t))"

text \<open>Lines 48--61, \<open>for attempt in range(MAX_RETRIES)\<close>: a success breaks out
  of the loop (\<open>Inr (Some ...)\<close>), a failure sleeps \<open>RETRY_DELAY * 2 ** attempt\<close>
  and continues unless it is the last attempt, where it is re-raised; a loop
  that runs out without a break leaves \<open>content_type\<close> unbound (\<open>Inr None\<close>).
  The result also gives the sleeps and the number of requests.\<close>

fun fetch_iter ::
  "net_config \<Rightarrow> string \<Rightarrow> (nat \<Rightarrow> response) \<Rightarrow> nat list \<Rightarrow>
   (bytes \<times> string) option result \<times> nat list \<times> nat" where
  "fetch_iter cfg u get [] = (Inr None, [], 0)"
| "fetch_iter cfg u get (a # as) =
     (case attempt_get u (get a) of
        Inr r \<Rightarrow> (Inr (Some r), [], 1)
      | Inl e \<Rightarrow>
          if a < max_retries cfg - 1
          then (case fetch_iter cfg u get as of
                  (res, sl, n) \<Rightarrow> (res, retry_delay cfg * 2 ^ a # sl, Suc n))
          else (Inl e, [], 1))"

definition fetch ::
  "net_config \<Rightarrow> network \<Rightarrow> string \<Rightarrow> (bytes \<times> string) option result \<times> nat list \<times> nat" where
  "fetch cfg net u = fetch_iter cfg u (net u) [0..<max_retries cfg]"

text \<open>Lines 86--93: the name \<open>stem_counter.ext\<close> the collision loop tries.\<close>

definition cand_name :: "string \<Rightarrow> string \<Rightarrow> nat \<Rightarrow> string" where
  "cand_name stem ext k = stem @ ''_'' @ show_nat k @ ''.'' @ ext"

text \<open>\<open>while os.path.exists(filepath)\<close>: the state of the loop is the current
  \<open>filename\<close> and \<open>counter\<close>. It ends because a directory holds finitely many
  names and the candidates are pairwise distinct: the measure counts the
  existing candidates from the counter on, plus one while the current name
  exists.\<close>

function collision_loop :: "store \<Rightarrow> string \<Rightarrow> string \<Rightarrow> string \<Rightarrow> string \<Rightarrow> nat \<Rightarrow> string" where
  "collision_loop st d stem ext filename counter =
     (if path_exists st (d, filename)
      then collision_loop st d stem ext (cand_name stem ext counter) (Suc counter)
      else filename)"
  by pat_completeness auto
termination
proof (relation "measure (\<lambda>(st, d, stem, ext, fname, c).
    (if path_exists st (d, fname) then 1 else 0) + card {k. c \<le> k \<and> path_exists st (d, cand_name stem ext k)})")
  show "wf (measure (\<lambda>(st, d, stem, ext, fname, c).
    (if path_exists st (d, fname) then 1 else 0) + card {k. c \<le> k \<and> path_exists st (d, cand_name stem ext k)}))"
    by simp
next
  fix st d stem ext fname c
  assume ex: "path_exists st (d, fname)"
  let ?P = "\<lambda>k. path_exists st (d, cand_name stem ext k)"
  have inj: "inj (cand_name stem ext)"
  proof (rule injI)
    fix m n assume "cand_name stem ext m = cand_name stem ext n"
    then have "(stem @ ''_'') @ show_nat m @ CHR ''.'' # ext = (stem @ ''_'') @ show_nat n @ CHR ''.'' # ext"
      by (simp add: cand_name_def)
    then show "m = n" by (rule show_nat_sep_inj) (simp add: is_digit_def)
  qed
  have fin: "finite {k. Suc c \<le> k \<and> ?P k}"
  proof (rule finite_subset)
    show "{k. Suc c \<le> k \<and> ?P k} \<subseteq> cand_name stem ext -` {n. path_exists st (d, n)}" by auto
    show "finite (cand_name stem ext -` {n. path_exists st (d, n)})"
      using finite_names_in_dir inj by (rule finite_vimageI)
  qed
  have split: "{k. c \<le> k \<and> ?P k} = (if ?P c then insert c {k. Suc c \<le> k \<and> ?P k} else {k. Suc c \<le> k \<and> ?P k})"
    by (auto simp: le_eq_less_or_eq Suc_le_eq)
  have "card {k. c \<le> k \<and> ?P k} = (if ?P c then 1 else 0) + card {k. Suc c \<le> k \<and> ?P k}"
    by (simp add: split fin)
  then show "((st, d, stem, ext, cand_name stem ext c, Suc c), st, d, stem, ext, fname, c)
      \<in> measure (\<lambda>(st, d, stem, ext, fname, c).
    (if path_exists st (d, fname) then 1 else 0) + card {k. c \<le> k \<and> path_exists st (d, cand_name stem ext k)})"
    using ex by simp
qed

declare collision_loop.simps [simp del]

text \<open>The result dictionary of \<open>download_single\<close>: \<open>success\<close> and
  \<open>skipped\<close> with file name and size, \<open>failed\<close> (a \<open>RequestException\<close>) and
  \<open>error\<close> (any other exception) with URL and message.\<close>

datatype outcome = Success string nat | Skipped string nat | Failed string string | Error string string

text \<open>Lines 40--46: the first entry of \<open>os.listdir(target_dir)\<close> whose name
  starts with the stem, if it is non-empty. \<open>os.listdir\<close> of a regular file
  raises \<open>NotADirectoryError\<close>.\<close>

definition skip_check :: "store \<Rightarrow> string \<Rightarrow> string \<Rightarrow> (string \<times> nat) option result" where
  "skip_check st tdir stem =
     (if is_dir st tdir then
        (case filter (prefix stem) (listdir st tdir) of
           [] \<Rightarrow> Inr None
         | f # _ \<Rightarrow> ebind (getsize st (tdir, f)) (\<lambda>sz. Inr (if 0 < sz then Some (f, sz) else None)))
      else if list_ex (\<lambda>(q, _). full_path q = tdir) (files st)
      then Inl (OSError (''Not a directory: '' @ tdir))
      else Inr None)"

text \<open>Lines 104--107: the two \<open>except\<close> clauses.\<close>

definition caught :: "string \<Rightarrow> pyerr \<Rightarrow> outcome" where
  "caught u e = (case e of RequestException m \<Rightarrow> Failed u m | _ \<Rightarrow> Error u (str_err e))"

definition unbound_content_type :: pyerr where
  "unbound_content_type =
     UnboundLocalError ''cannot access local variable 'content_type' where it is not associated with a value''"

text \<open>Lines 85--100: create the directory, find a free name, write the payload,
  set the modification time when the date parsed. The store returned with an
  error is the one the failing call left behind.\<close>

definition write_download ::
  "store \<Rightarrow> string \<Rightarrow> string \<Rightarrow> string \<Rightarrow> bytes \<Rightarrow> datetime option \<Rightarrow> string result \<times> store" where
  "write_download st tdir stem ext payload date_obj =
     (case mkdirs st tdir of
        Inl e \<Rightarrow> (Inl e, st)
      | Inr st1 \<Rightarrow>
          (let fname = collision_loop st1 tdir stem ext (stem @ ''.'' @ ext) 1
           in case write_file st1 (tdir, fname) payload of
                Inl e \<Rightarrow> (Inl e, st1)
              | Inr st2 \<Rightarrow>
                  (case date_obj of
                     None \<Rightarrow> (Inr fname, st2)
                   | Some t \<Rightarrow> (case utime st2 (tdir, fname) t of
                                 Inl e \<Rightarrow> (Inl e, st2)
                               | Inr st3 \<Rightarrow> (Inr fname, st3)))))"

text \<open>Lines 24--38: the directory and the stem of a memory's file.\<close>

definition mem_target :: "downloader \<Rightarrow> memory \<Rightarrow> string" where
  "mem_target dl m = target_dir (output_dir dl) (fst (date_folder (organization_mode dl) (date m)))"

definition mem_stem :: "downloader \<Rightarrow> memory \<Rightarrow> string" where
  "mem_stem dl m = format_filename_date (date m) (filename_format dl)"

text \<open>\<open>Downloader.download_single\<close>, lines 22--107: the outcome, the store
  after the call, the sleeps of the back-off, and the number of requests.\<close>

definition download_single ::
  "downloader \<Rightarrow> net_config \<Rightarrow> network \<Rightarrow> store \<Rightarrow> memory \<Rightarrow> outcome \<times> store \<times> nat list \<times> nat" where
  "download_single dl cfg net st m =
     (case skip_check st (mem_target dl m) (mem_stem dl m) of
        Inl e \<Rightarrow> (caught (url m) e, st, [], 0)
      | Inr (Some (f, sz)) \<Rightarrow> (Skipped f sz, st, [], 0)
      | Inr None \<Rightarrow>
          (case fetch cfg net (url m) of
             (Inl e, sl, n) \<Rightarrow> (caught (url m) e, st, sl, n)
           | (Inr None, sl, n) \<Rightarrow> (caught (url m) unbound_content_type, st, sl, n)
           | (Inr (Some (payload, ct)), sl, n) \<Rightarrow>
               (case write_download st (mem_target dl m) (mem_stem dl m) (resolve_extension ct payload)
                       payload (snd (date_folder (organization_mode dl) (date m))) of
                  (Inl e, st') \<Rightarrow> (caught (url m) e, st', sl, n)
                | (Inr fname, st') \<Rightarrow> (Success fname (length payload), st', sl, n))))"

text \<open>The counters of \<open>download_all\<close> (lines 112--117) and their update on
  each completed future (lines 137--151).\<close>

record stats =
  success_count :: nat
  skipped_count :: nat
  failed_count :: nat
  total_size :: nat
  failed_items :: "(string \<times> string \<times> string) list"

definition stats0 :: stats where
  "stats0 = \<lparr>success_count = 0, skipped_count = 0, failed_count = 0, total_size = 0, failed_items = []\<rparr>"

fun tally_step :: "stats \<Rightarrow> memory \<times> outcome \<Rightarrow> stats" where
  "tally_step s (m, Success _ sz) = s\<lparr>success_count := Suc (success_count s), total_size := total_size s + sz\<rparr>"
| "tally_step s (m, Skipped _ _) = s\<lparr>skipped_count := Suc (skipped_count s)\<rparr>"
| "tally_step s (m, Failed _ e) =
     s\<lparr>failed_count := Suc (failed_count s), failed_items := failed_items s @ [(url m, date m, e)]\<rparr>"
| "tally_step s (m, Error _ e) =
     s\<lparr>failed_count := Suc (failed_count s), failed_items := failed_items s @ [(url m, date m, e)]\<rparr>"

definition tally :: "(memory \<times> outcome) list \<Rightarrow> stats" where
  "tally rs = foldl tally_step stats0 rs"

text \<open>The memories processed one after the other (one worker, or workers
  whose calls do not overlap), in completion order: each call sees the store
  the previous ones left. Returns the results in completion order, the final
  store and the number of requests.\<close>

fun run_downloads ::
  "downloader \<Rightarrow> net_config \<Rightarrow> network \<Rightarrow> store \<Rightarrow> memory list \<Rightarrow>
   (memory \<times> outcome) list \<times> store \<times> nat" where
  "run_downloads dl cfg net st [] = ([], st, 0)"
| "run_downloads dl cfg net st (m # ms) =
     (case download_single dl cfg net st m of
        (out, st', _, n) \<Rightarrow>
          (case run_downloads dl cfg net st' ms of
             (rs, st'', n') \<Rightarrow> ((m, out) # rs, st'', n + n')))"

text \<open>\<open>Downloader.download_all\<close>, lines 109--153, with the memories in
  completion order. The \<open>mkdir\<close> of line 110 is outside every \<open>try\<close>: its
  error ends the call.\<close>

definition download_all ::
  "downloader \<Rightarrow> net_config \<Rightarrow> network \<Rightarrow> store \<Rightarrow> memory list \<Rightarrow> (stats \<times> store \<times> nat) result" where
  "download_all dl cfg net st ms =
     (case mkdirs st (output_dir dl) of
        Inl e \<Rightarrow> Inl e
      | Inr st0 \<Rightarrow> (case run_downloads dl cfg net st0 ms of (rs, st', n) \<Rightarrow> Inr (tally rs, st', n)))"

text \<open>The summary \<open>download_all\<close> prints, specified over the list of
  results as a whole rather than as a running update: the number of each kind
  of outcome, the bytes of the successes, and the failures in order.\<close>

fun is_success :: "outcome \<Rightarrow> bool" where
  "is_success (Success _ _) = True"
| "is_success _ = False"

fun is_skipped :: "outcome \<Rightarrow> bool" where
  "is_skipped (Skipped _ _) = True"
| "is_skipped _ = False"

fun is_failure :: "outcome \<Rightarrow> bool" where
  "is_failure (Failed _ _) = True"
| "is_failure (Error _ _) = True"
| "is_failure _ = False"

fun outcome_size :: "outcome \<Rightarrow> nat" where
  "outcome_size (Success _ sz) = sz"
| "outcome_size _ = 0"

fun failure_error :: "outcome \<Rightarrow> string" where
  "failure_error (Failed _ e) = e"
| "failure_error (Error _ e) = e"
| "failure_error _ = []"

definition summary_spec :: "(memory \<times> outcome) list \<Rightarrow> stats" where
  "summary_spec rs =
     \<lparr>success_count = length (filter (is_success \<circ> snd) rs),
      skipped_count = length (filter (is_skipped \<circ> snd) rs),
      failed_count = length (filter (is_failure \<circ> snd) rs),
      total_size = sum_list (map (outcome_size \<circ> snd) rs),
      failed_items = map (\<lambda>(m, out). (url m, date m, failure_error out)) (filter (is_failure \<circ> snd) rs)\<rparr>"

lemmas download_eval [model_eval] =
  attempt_get_def fetch_def cand_name_def skip_check_def caught_def unbound_content_type_def
  write_download_def mem_target_def mem_stem_def download_single_def stats0_def tally_def download_all_def


text \<open>The configuration, memory and stores of the worked examples below.\<close>

abbreviation ex_dl :: downloader where
  "ex_dl \<equiv> \<lparr>output_dir = ''out'', organization_mode = ''by_date'', filename_format = ''3''\<rparr>"

abbreviation ex_cfg :: net_config where
  "ex_cfg \<equiv> \<lparr>max_retries = 3, retry_delay = 2\<rparr>"

abbreviation ex_m1 :: memory where
  "ex_m1 \<equiv> \<lparr>url = ''u1'', date = ''2025-12-15 21:31:58 UTC'', mem_type = ''Image'', latitude = None, longitude = None\<rparr>"

abbreviation ex_st0 :: store where
  "ex_st0 \<equiv> \<lparr>files = [], dirs = [], dir_size = 4096\<rparr>"

abbreviation ex_net :: network where
  "ex_net \<equiv> \<lambda>u a. Response 200 ''OK'' (Some ''image/png'') [1, 2]"

abbreviation ex_st1 :: store where
  "ex_st1 \<equiv> \<lparr>files = [], dirs = [''out''], dir_size = 4096\<rparr>"

abbreviation ex_st2 :: store where
  "ex_st2 \<equiv> \<lparr>files = [((''out/2025/12'', ''2025-12-15.png''),
      \<lparr>content = [1, 2], mtime = Some \<lparr>year = 2025, month = 12, day = 15, hour = 21, minute = 31, second = 58\<rparr>\<rparr>)],
    dirs = [''out'', ''out/2025'', ''out/2025/12''], dir_size = 4096\<rparr>"

section \<open>Lemmas on the download engine\<close>

subsection \<open>The retry loop\<close>

lemma fetch_iter_shape:
  "fetch_iter cfg u get [a..<max_retries cfg] = (res, sl, n) \<Longrightarrow>
   n \<le> max_retries cfg - a \<and> (a < max_retries cfg \<longleftrightarrow> 0 < n)
   \<and> sl = map (\<lambda>j. retry_delay cfg * 2 ^ j) (take (n - 1) [a..<max_retries cfg])"
proof (induction "max_retries cfg - a" arbitrary: a res sl n)
  case 0
  then show ?case by simp
next
  case (Suc x)
  then have a: "a < max_retries cfg" by simp
  show ?case
  proof (cases "attempt_get u (get a)")
    case (Inl e)
    show ?thesis
    proof (cases "a < max_retries cfg - 1")
      case True
      obtain res' sl' n' where r: "fetch_iter cfg u get [Suc a..<max_retries cfg] = (res', sl', n')"
        by (cases "fetch_iter cfg u get [Suc a..<max_retries cfg]") auto
      have x: "x = max_retries cfg - Suc a" using Suc.hyps(2) by simp
      have ih: "n' \<le> max_retries cfg - Suc a \<and> 0 < n'
          \<and> sl' = map (\<lambda>j. retry_delay cfg * 2 ^ j) (take (n' - 1) [Suc a..<max_retries cfg])"
        using Suc.hyps(1) [OF x r] True by (simp add: less_diff_conv)
      moreover have "res = res' \<and> sl = retry_delay cfg * 2 ^ a # sl' \<and> n = Suc n'"
        using Suc.prems Inl True r a by (simp add: upt_conv_Cons)
      ultimately show ?thesis using a by (cases n') (auto simp: upt_conv_Cons)
    next
      case False
      then have "res = Inl e \<and> sl = [] \<and> n = 1" using Suc.prems Inl a by (simp add: upt_conv_Cons)
      then show ?thesis using a by simp
    qed
  next
    case (Inr r)
    then have "res = Inr (Some r) \<and> sl = [] \<and> n = 1" using Suc.prems a by (simp add: upt_conv_Cons)
    then show ?thesis using a by simp
  qed
qed

lemma fetch_iter_success:
  assumes "\<forall>j. a \<le> j \<and> j < k \<longrightarrow> (\<exists>e. attempt_get u (get j) = Inl e)"
    and "attempt_get u (get k) = Inr r" and "a \<le> k" and "k < max_retries cfg"
  shows "fetch_iter cfg u get [a..<max_retries cfg] =
         (Inr (Some r), map (\<lambda>j. retry_delay cfg * 2 ^ j) [a..<k], Suc (k - a))"
  using assms
proof (induction "k - a" arbitrary: a)
  case 0
  then have "a = k" by simp
  then show ?case using "0.prems" by (simp add: upt_conv_Cons)
next
  case (Suc x)
  then have ak: "a < k" by simp
  obtain e where e: "attempt_get u (get a) = Inl e" using Suc.prems(1) ak by blast
  have rec: "fetch_iter cfg u get [Suc a..<max_retries cfg] =
      (Inr (Some r), map (\<lambda>j. retry_delay cfg * 2 ^ j) [Suc a..<k], Suc (k - Suc a))"
    using Suc.hyps(1) [of "Suc a"] Suc.hyps(2) Suc.prems ak by simp
  have "a < max_retries cfg - 1" using ak Suc.prems(4) by simp
  then show ?case using ak Suc.prems(4) e rec
    by (simp add: upt_conv_Cons Suc_diff_Suc)
qed

lemma fetch_iter_exhausted:
  assumes "\<forall>j. a \<le> j \<and> j < max_retries cfg \<longrightarrow> attempt_get u (get j) = Inl (errs j)"
    and "a < max_retries cfg"
  shows "fetch_iter cfg u get [a..<max_retries cfg] =
         (Inl (errs (max_retries cfg - 1)), map (\<lambda>j. retry_delay cfg * 2 ^ j) [a..<max_retries cfg - 1],
          max_retries cfg - a)"
  using assms
proof (induction "max_retries cfg - 1 - a" arbitrary: a)
  case 0
  then have "a = max_retries cfg - 1" by simp
  then show ?case using "0.prems" by (simp add: upt_conv_Cons)
next
  case (Suc x)
  then have ak: "a < max_retries cfg - 1" by simp
  have rec: "fetch_iter cfg u get [Suc a..<max_retries cfg] =
      (Inl (errs (max_retries cfg - 1)), map (\<lambda>j. retry_delay cfg * 2 ^ j) [Suc a..<max_retries cfg - 1],
       max_retries cfg - Suc a)"
    using Suc.hyps(1) [of "Suc a"] Suc.hyps(2) Suc.prems ak by simp
  then show ?case using ak Suc.prems
    by (simp add: upt_conv_Cons Suc_diff_Suc)
qed

subsection \<open>The collision loop and the write\<close>

lemma collision_loop_first:
  "(collision_loop st d stem ext fn c = fn \<and> \<not> path_exists st (d, fn))
   \<or> (\<exists>k \<ge> c. collision_loop st d stem ext fn c = cand_name stem ext k \<and> path_exists st (d, fn)
        \<and> (\<forall>j. c \<le> j \<and> j < k \<longrightarrow> path_exists st (d, cand_name stem ext j))
        \<and> \<not> path_exists st (d, cand_name stem ext k))"
proof (induction st d stem ext fn c rule: collision_loop.induct)
  case (1 st d stem ext fn c)
  show ?case
  proof (cases "path_exists st (d, fn)")
    case False
    then show ?thesis by (simp add: collision_loop.simps)
  next
    case True
    then have eq: "collision_loop st d stem ext fn c = collision_loop st d stem ext (cand_name stem ext c) (Suc c)"
      by (simp add: collision_loop.simps)
    from "1.IH" [OF True] show ?thesis
    proof
      assume "collision_loop st d stem ext (cand_name stem ext c) (Suc c) = cand_name stem ext c
          \<and> \<not> path_exists st (d, cand_name stem ext c)"
      then show ?thesis using True eq by auto
    next
      assume "\<exists>k \<ge> Suc c. collision_loop st d stem ext (cand_name stem ext c) (Suc c) = cand_name stem ext k
          \<and> path_exists st (d, cand_name stem ext c)
          \<and> (\<forall>j. Suc c \<le> j \<and> j < k \<longrightarrow> path_exists st (d, cand_name stem ext j))
          \<and> \<not> path_exists st (d, cand_name stem ext k)"
      then obtain k where k: "Suc c \<le> k" "collision_loop st d stem ext (cand_name stem ext c) (Suc c) = cand_name stem ext k"
        "path_exists st (d, cand_name stem ext c)"
        "\<forall>j. Suc c \<le> j \<and> j < k \<longrightarrow> path_exists st (d, cand_name stem ext j)"
        "\<not> path_exists st (d, cand_name stem ext k)" by blast
      have "\<forall>j. c \<le> j \<and> j < k \<longrightarrow> path_exists st (d, cand_name stem ext j)"
        using k(3,4) by (metis Suc_leI le_neq_implies_less)
      then show ?thesis using k True eq by (intro disjI2 exI [of _ k]) auto
    qed
  qed
qed

lemma collision_loop_free: "\<not> path_exists st (d, collision_loop st d stem ext fn c)"
  using collision_loop_first [of st d stem ext fn c] by (elim disjE exE conjE) simp_all

lemma collision_loop_prefix:
  "prefix stem fn \<Longrightarrow> prefix stem (collision_loop st d stem ext fn c)"
  using collision_loop_first [of st d stem ext fn c]
  by (elim disjE exE conjE) (simp_all add: cand_name_def)

lemma write_download_eq:
  assumes "mkdirs st d = Inr st1"
  shows "write_download st d stem ext p dobj =
     (let f = collision_loop st1 d stem ext (stem @ ''.'' @ ext) 1
      in (Inr f, st1\<lparr>files := AList.update (d, f) \<lparr>content = p, mtime = dobj\<rparr> (files st)\<rparr>))"
proof -
  have st1: "st1 = makedirs st d" using assms by (rule mkdirs_Inr)
  define f where "f = collision_loop st1 d stem ext (stem @ ''.'' @ ext) 1"
  have free: "\<not> path_exists st1 (d, f)" unfolding f_def by (rule collision_loop_free)
  have dir: "is_dir st1 d" unfolding st1 by (rule makedirs_target)
  have fs: "files st1 = files st" by (simp add: st1 makedirs_def)
  have w: "write_file st1 (d, f) p = Inr (st1\<lparr>files := AList.update (d, f) \<lparr>content = p, mtime = None\<rparr> (files st)\<rparr>)"
    using free dir fs unfolding write_file_def path_exists_def by simp
  have wd: "write_download st d stem ext p dobj =
     (case write_file st1 (d, f) p of
           Inl e \<Rightarrow> (Inl e, st1)
         | Inr st2 \<Rightarrow>
             (case dobj of
                None \<Rightarrow> (Inr f, st2)
              | Some t \<Rightarrow> (case utime st2 (d, f) t of
                            Inl e \<Rightarrow> (Inl e, st2)
                          | Inr st3 \<Rightarrow> (Inr f, st3))))"
    unfolding write_download_def assms f_def Let_def by simp
  show ?thesis
  proof (cases dobj)
    case None
    then show ?thesis unfolding wd w Let_def f_def [symmetric] by simp
  next
    case (Some t)
    then show ?thesis unfolding wd w Let_def f_def [symmetric]
      by (simp add: utime_def file_at_def update_conv')
  qed
qed

lemma write_download_mkdir_error: "mkdirs st d = Inl e \<Longrightarrow> write_download st d stem ext p dobj = (Inl e, st)"
  by (simp add: write_download_def)

lemma write_download_Inr:
  "write_download st d stem ext p dobj = (Inr f, st') \<Longrightarrow> mkdirs st d = Inr (makedirs st d)"
  by (cases "mkdirs st d") (auto simp: write_download_mkdir_error dest: mkdirs_Inr)

lemma write_download_success:
  "write_download st d stem ext p dobj = (Inr f, st') \<Longrightarrow>
   f = collision_loop (makedirs st d) d stem ext (stem @ ''.'' @ ext) 1
   \<and> st' = (makedirs st d)\<lparr>files := AList.update (d, f) \<lparr>content = p, mtime = dobj\<rparr> (files st)\<rparr>"
  using write_download_eq [OF write_download_Inr, of st d stem ext p dobj f st' stem ext p dobj]
  by (auto simp: Let_def)

lemma write_download_error: "write_download st d stem ext p dobj = (Inl e, st') \<Longrightarrow> st' = st"
  by (cases "mkdirs st d") (auto simp: write_download_mkdir_error write_download_eq Let_def)

subsection \<open>Outcomes of one call\<close>

lemma caught_not_done [simp]:
  "caught u e \<noteq> Success f sz" "caught u e \<noteq> Skipped f sz"
  by (cases e; simp add: caught_def)+

lemma download_single_success_inv:
  assumes "download_single dl cfg net st m = (Success f sz, st', sl, n)"
  obtains p ct where "skip_check st (mem_target dl m) (mem_stem dl m) = Inr None"
    "fetch cfg net (url m) = (Inr (Some (p, ct)), sl, n)" "sz = length p"
    "write_download st (mem_target dl m) (mem_stem dl m) (resolve_extension ct p) p
       (snd (date_folder (organization_mode dl) (date m))) = (Inr f, st')"
  using assms unfolding download_single_def
  by (auto split: sum.splits option.splits prod.splits)

lemma skip_check_hit:
  assumes "is_dir st d" and "file_at st (d, f) = Some e" and "content e \<noteq> []" and "prefix stem f"
    and "\<forall>n e. file_at st (d, n) = Some e \<longrightarrow> prefix stem n \<longrightarrow> content e \<noteq> []"
  shows "\<exists>h sz. skip_check st d stem = Inr (Some (h, sz)) \<and> 0 < sz"
proof -
  let ?L = "[snd p. (p, _) \<leftarrow> files st, fst p = d]"
  have "((d, f), e) \<in> set (files st)" using assms(2) by (simp add: file_at_def map_of_SomeD)
  then have "f \<in> set (filter (prefix stem) ?L)" using assms(4) by (force intro: rev_bexI)
  then obtain h rest where hr: "filter (prefix stem) ?L = h # rest" by (cases "filter (prefix stem) ?L") auto
  then have "h \<in> set (filter (prefix stem) ?L)" by simp
  then obtain e' where h: "((d, h), e') \<in> set (files st)" "prefix stem h" by auto
  then obtain e'' where fa: "file_at st (d, h) = Some e''"
    by (metis file_at_def weak_map_of_SomeI)
  then have ne: "content e'' \<noteq> []" using assms(5) h(2) by blast
  have "filter (prefix stem) (listdir st d) = h # (rest @ filter (prefix stem) (List.map_filter (child_name d) (dirs st)))"
    using hr by (simp add: listdir_def)
  then have "skip_check st d stem = Inr (Some (h, length (content e'')))"
    using assms(1) fa ne by (simp add: skip_check_def getsize_def)
  then show ?thesis using ne by auto
qed

lemma download_single_success_store:
  assumes "download_single dl cfg net st m = (Success f sz, st', sl, n)"
  obtains p ct where "sz = length p"
    "f = collision_loop (makedirs st (mem_target dl m)) (mem_target dl m) (mem_stem dl m)
           (resolve_extension ct p) (mem_stem dl m @ ''.'' @ resolve_extension ct p) 1"
    "st' = (makedirs st (mem_target dl m))\<lparr>files := AList.update (mem_target dl m, f)
             \<lparr>content = p, mtime = snd (date_folder (organization_mode dl) (date m))\<rparr> (files st)\<rparr>"
    "fetch cfg net (url m) = (Inr (Some (p, ct)), sl, n)"
proof -
  obtain p ct where "fetch cfg net (url m) = (Inr (Some (p, ct)), sl, n)" "sz = length p"
    "write_download st (mem_target dl m) (mem_stem dl m) (resolve_extension ct p) p
       (snd (date_folder (organization_mode dl) (date m))) = (Inr f, st')"
    using assms by (rule download_single_success_inv)
  moreover from this(3) have "f = collision_loop (makedirs st (mem_target dl m)) (mem_target dl m) (mem_stem dl m)
           (resolve_extension ct p) (mem_stem dl m @ ''.'' @ resolve_extension ct p) 1"
    "st' = (makedirs st (mem_target dl m))\<lparr>files := AList.update (mem_target dl m, f)
             \<lparr>content = p, mtime = snd (date_folder (organization_mode dl) (date m))\<rparr> (files st)\<rparr>"
    using write_download_success by blast+
  ultimately show ?thesis using that by blast
qed

lemma success_then_skip:
  assumes "download_single dl cfg net st m = (Success f sz, st', sl, n)" and "0 < sz"
    and "\<forall>n e. file_at st (mem_target dl m, n) = Some e \<longrightarrow> prefix (mem_stem dl m) n \<longrightarrow> content e \<noteq> []"
    and "mem_target dl m' = mem_target dl m" and "mem_stem dl m' = mem_stem dl m"
  shows "\<exists>h sz'. download_single dl cfg net' st' m' = (Skipped h sz', st', [], 0) \<and> 0 < sz'"
proof -
  let ?d = "mem_target dl m" and ?s = "mem_stem dl m"
  obtain p ct where p: "sz = length p"
    "f = collision_loop (makedirs st ?d) ?d ?s (resolve_extension ct p) (?s @ ''.'' @ resolve_extension ct p) 1"
    "st' = (makedirs st ?d)\<lparr>files := AList.update (?d, f)
             \<lparr>content = p, mtime = snd (date_folder (organization_mode dl) (date m))\<rparr> (files st)\<rparr>"
    using assms(1) by (rule download_single_success_store)
  have fa: "file_at st' q = (if q = (?d, f)
      then Some \<lparr>content = p, mtime = snd (date_folder (organization_mode dl) (date m))\<rparr> else file_at st q)" for q
    using p(3) by (simp add: file_at_def update_conv' makedirs_def)
  have pre: "prefix ?s f" unfolding p(2) by (rule collision_loop_prefix) simp
  have dir: "is_dir st' ?d" using p(3) makedirs_target [of st ?d] by (simp add: is_dir_def makedirs_def)
  have pne: "p \<noteq> []" using assms(2) p(1) by auto
  have all: "\<forall>n e. file_at st' (?d, n) = Some e \<longrightarrow> prefix ?s n \<longrightarrow> content e \<noteq> []"
  proof (intro allI impI)
    fix n e assume "file_at st' (?d, n) = Some e" "prefix ?s n"
    then show "content e \<noteq> []" using assms(3) pne unfolding fa by (cases "n = f") auto
  qed
  have new: "file_at st' (?d, f) = Some \<lparr>content = p, mtime = snd (date_folder (organization_mode dl) (date m))\<rparr>"
    unfolding fa by simp
  obtain h sz' where "skip_check st' ?d ?s = Inr (Some (h, sz'))" "0 < sz'"
    using skip_check_hit [OF dir new _ pre all] pne by auto
  then show ?thesis using assms(4,5) by (simp add: download_single_def)
qed

subsection \<open>Further lemmas and worked examples\<close>

lemmas download_run_eval = Let_def upt_conv_Cons collision_loop.simps

lemma strftime_year_month: "strftime t ''%Y/%m'' = pad_nat 4 (year t) @ ''/'' @ pad_nat 2 (month t)"
  by (simp add: model_eval)

lemma same_day_target_stem:
  assumes "strptime (date m) record_fmt = Inr t" and "strptime (date m') record_fmt = Inr t'"
    and "year t = year t'" "month t = month t'" "day t = day t'"
    and "filename_format dl \<in> {''3'', ''4''}"
  shows "mem_target dl m' = mem_target dl m \<and> mem_stem dl m' = mem_stem dl m"
proof -
  from assms(6) consider "filename_format dl = ''3''" | "filename_format dl = ''4''" by blast
  then have "mem_stem dl m' = mem_stem dl m"
    by cases (simp_all add: mem_stem_def stem_variants [OF assms(1)] stem_variants [OF assms(2)] assms(3-5))
  moreover have "mem_target dl m' = mem_target dl m"
    unfolding mem_target_def date_folder_def using assms(1-4) by (simp add: strftime_year_month del: strftime.simps)
  ultimately show ?thesis by simp
qed

lemma makedirs_idem [simp]: "makedirs (makedirs st d) d = makedirs st d"
  by (simp add: makedirs_def)

lemma cand_name_ne_base: "cand_name stem ext k \<noteq> stem @ ''.'' @ ext"
  by (simp add: cand_name_def)

lemma collision_loop_free_start:
  "\<not> path_exists st (d, fn) \<Longrightarrow> collision_loop st d stem ext fn c = fn"
  by (subst collision_loop.simps) simp

lemma collision_loop_step:
  "path_exists st (d, fn) \<Longrightarrow> collision_loop st d stem ext fn c = collision_loop st d stem ext (cand_name stem ext c) (Suc c)"
  by (subst collision_loop.simps) simp

lemma path_exists_makedirs: "path_exists st p \<Longrightarrow> path_exists (makedirs st d) p"
  by (auto simp: path_exists_def is_dir_makedirs)

lemma download_single_ok:
  assumes "store_ok st" and "download_single dl cfg net st m = (out, st', sl, n)"
  shows "store_ok st'"
proof (cases "\<exists>f sz. out = Success f sz")
  case True
  then obtain f sz where "out = Success f sz" by blast
  then obtain p ct where "st' = (makedirs st (mem_target dl m))\<lparr>files := AList.update (mem_target dl m, f)
             \<lparr>content = p, mtime = snd (date_folder (organization_mode dl) (date m))\<rparr> (files st)\<rparr>"
    using assms(2) download_single_success_store by metis
  then show ?thesis using assms(1) by (simp add: store_ok_def makedirs_def distinct_update)
next
  case False
  then have "st' = st" using assms(2)
    by (auto simp: download_single_def dest: write_download_error split: sum.splits option.splits prod.splits)
  then show ?thesis using assms(1) by simp
qed

lemma run_downloads_ok:
  "store_ok st \<Longrightarrow> run_downloads dl cfg net st ms = (rs, st', n) \<Longrightarrow> store_ok st'"
proof (induction ms arbitrary: st rs st' n)
  case Nil
  then show ?case by simp
next
  case (Cons m ms)
  obtain out st1 sl n1 where d: "download_single dl cfg net st m = (out, st1, sl, n1)"
    by (cases "download_single dl cfg net st m") auto
  obtain rs' st2 n2 where r: "run_downloads dl cfg net st1 ms = (rs', st2, n2)"
    by (cases "run_downloads dl cfg net st1 ms") auto
  have "store_ok st1" using Cons.prems(1) d by (rule download_single_ok)
  then have "store_ok st2" using r by (rule Cons.IH)
  moreover have "st' = st2" using Cons.prems(2) d r by simp
  ultimately show ?case by simp
qed

lemma tally_foldl:
  "foldl tally_step s rs =
     \<lparr>success_count = success_count s + success_count (summary_spec rs),
      skipped_count = skipped_count s + skipped_count (summary_spec rs),
      failed_count = failed_count s + failed_count (summary_spec rs),
      total_size = total_size s + total_size (summary_spec rs),
      failed_items = failed_items s @ failed_items (summary_spec rs)\<rparr>"
proof (induction rs arbitrary: s)
  case Nil
  then show ?case by (simp add: summary_spec_def)
next
  case (Cons r rs)
  obtain m out where r: "r = (m, out)" by fastforce
  show ?case using Cons.IH [of "tally_step s (m, out)"] r
    by (cases out) (simp_all add: summary_spec_def)
qed

lemma run_downloads_memories:
  "run_downloads dl cfg net st ms = (rs, st', n) \<Longrightarrow> map fst rs = ms"
proof (induction ms arbitrary: st rs st' n)
  case Nil
  then show ?case by simp
next
  case (Cons m ms)
  then show ?case by (auto split: prod.splits)
qed

lemma outcome_kinds_partition:
  "length (filter (is_success \<circ> snd) rs) + length (filter (is_skipped \<circ> snd) rs)
   + length (filter (is_failure \<circ> snd) rs) = length rs"
proof (induction rs)
  case Nil
  then show ?case by simp
next
  case (Cons r rs)
  then show ?case by (cases "snd r") auto
qed

lemma ex_skip_miss: "skip_check ex_st0 (mem_target ex_dl ex_m1) (mem_stem ex_dl ex_m1) = Inr None"
  by (simp add: skip_check_def is_dir_def)

lemma download_single_example:
  "download_single ex_dl ex_cfg ex_net ex_st1 ex_m1 = (Success ''2025-12-15.png'' 2, ex_st2, [], 1)"
  by (simp add: model_eval download_run_eval)

lemma download_all_example:
  "download_all ex_dl ex_cfg ex_net ex_st0 [ex_m1] = Inr (tally [(ex_m1, Success ''2025-12-15.png'' 2)], ex_st2, 1)"
proof -
  have "mkdirs ex_st0 ''out'' = Inr ex_st1" by (simp add: mkdirs_no_files makedirs_def ancestors_def)
  then show ?thesis by (simp add: download_all_def download_single_example)
qed

section \<open>Properties of the download engine\<close>

text \<open>C1. Re-running the engine over its own output: once a memory has been
  downloaded with a non-empty payload into a directory where no earlier file
  with its stem is empty, a second call of \<open>download_single\<close> for it skips it
  without any request and leaves the store as it is, whatever the network
  answers.\<close>

theorem rerun_skips:
  assumes "download_single dl cfg net st m = (Success f sz, st', sl, n)" and "0 < sz"
    and "\<forall>n e. file_at st (mem_target dl m, n) = Some e \<longrightarrow> prefix (mem_stem dl m) n \<longrightarrow> content e \<noteq> []"
  shows "\<exists>h sz'. download_single dl cfg net' st' m = (Skipped h sz', st', [], 0)"
  using success_then_skip [OF assms refl refl] by blast

theorem rerun_skips_witness:
  "\<exists>h sz'. download_single ex_dl ex_cfg (\<lambda>u a. TransportError ''offline'') ex_st2 ex_m1 = (Skipped h sz', ex_st2, [], 0)"
  by (rule rerun_skips [OF download_single_example]) (simp_all add: file_at_def)

text \<open>C3. Two memories of the same day under the date-only variants 3 and 4
  share a stem; once the first has been downloaded, the second is reported as
  skipped without a request, and its media is never downloaded (the
  specification asks for a second file \<open>stem_1.ext\<close>).\<close>

theorem same_day_second_memory_skipped:
  assumes "download_single dl cfg net st m = (Success f sz, st', sl, n)" and "0 < sz"
    and "\<forall>n e. file_at st (mem_target dl m, n) = Some e \<longrightarrow> prefix (mem_stem dl m) n \<longrightarrow> content e \<noteq> []"
    and "strptime (date m) record_fmt = Inr t" and "strptime (date m') record_fmt = Inr t'"
    and "year t = year t'" "month t = month t'" "day t = day t'"
    and "filename_format dl \<in> {''3'', ''4''}"
  shows "\<exists>h sz'. download_single dl cfg net' st' m' = (Skipped h sz', st', [], 0)"
proof -
  have "mem_target dl m' = mem_target dl m \<and> mem_stem dl m' = mem_stem dl m"
    using assms(4-9) by (rule same_day_target_stem)
  then show ?thesis using success_then_skip [OF assms(1-3)] by blast
qed

theorem same_day_second_memory_skipped_witness:
  "\<exists>h sz'. download_single ex_dl ex_cfg (\<lambda>u a. Response 200 ''OK'' (Some ''image/jpeg'') [7]) ex_st2
     \<lparr>url = ''u2'', date = ''2025-12-15 08:00:00 UTC'', mem_type = ''Image'', latitude = None, longitude = None\<rparr>
   = (Skipped h sz', ex_st2, [], 0)"
proof -
  have h1: "strptime ''2025-12-15 21:31:58 UTC'' record_fmt =
     Inr \<lparr>year = 2025, month = 12, day = 15, hour = 21, minute = 31, second = 58\<rparr>"
    by (simp add: model_eval)
  have h2: "strptime ''2025-12-15 08:00:00 UTC'' record_fmt =
     Inr \<lparr>year = 2025, month = 12, day = 15, hour = 8, minute = 0, second = 0\<rparr>"
    by (simp add: model_eval)
  show ?thesis
    by (rule same_day_second_memory_skipped [OF download_single_example, where
          t = "\<lparr>year = 2025, month = 12, day = 15, hour = 21, minute = 31, second = 58\<rparr>" and
          t' = "\<lparr>year = 2025, month = 12, day = 15, hour = 8, minute = 0, second = 0\<rparr>"])
      (simp_all add: file_at_def h1 h2)
qed

text \<open>C4. Retry with exponential back-off: when the first \<open>k\<close> attempts fail
  and attempt \<open>k < MAX_RETRIES\<close> succeeds, the loop makes exactly \<open>k + 1\<close>
  requests, sleeps \<open>RETRY_DELAY * 2 ^ j\<close> after each failed attempt \<open>j\<close>, and
  returns the body and content type of the successful response.\<close>

theorem fetch_retry_success:
  assumes "k < max_retries cfg" and "\<forall>j<k. \<exists>e. attempt_get u (net u j) = Inl e"
    and "attempt_get u (net u k) = Inr r"
  shows "fetch cfg net u = (Inr (Some r), map (\<lambda>j. retry_delay cfg * 2 ^ j) [0..<k], Suc k)"
  using fetch_iter_success [of 0 k u "net u" r cfg] assms by (simp add: fetch_def)

theorem fetch_retry_success_witness:
  "fetch ex_cfg (\<lambda>u a. if a < 2 then TransportError ''timeout'' else Response 200 ''OK'' (Some ''image/png'') [1, 2]) ''u1''
   = (Inr (Some ([1, 2], ''image/png'')), [2, 4], 3)"
proof -
  have "fetch ex_cfg (\<lambda>u a. if a < 2 then TransportError ''timeout'' else Response 200 ''OK'' (Some ''image/png'') [1, 2]) ''u1''
      = (Inr (Some ([1, 2], ''image/png'')), map (\<lambda>j. retry_delay ex_cfg * 2 ^ j) [0..<2], Suc 2)"
    by (rule fetch_retry_success) (auto simp: attempt_get_def)
  then show ?thesis by (simp add: upt_conv_Cons)
qed

text \<open>C5. When every one of the \<open>MAX_RETRIES > 0\<close> attempts raises a
  \<open>RequestException\<close>, \<open>download_single\<close> makes \<open>MAX_RETRIES\<close> requests,
  sleeps between them, reports \<open>failed\<close> with the last attempt's message and
  leaves the store untouched.\<close>

theorem download_exhausted_failed:
  assumes "skip_check st (mem_target dl m) (mem_stem dl m) = Inr None" and "0 < max_retries cfg"
    and "\<forall>j < max_retries cfg. attempt_get (url m) (net (url m) j) = Inl (RequestException (msgs j))"
  shows "download_single dl cfg net st m =
           (Failed (url m) (msgs (max_retries cfg - 1)), st,
            map (\<lambda>j. retry_delay cfg * 2 ^ j) [0..<max_retries cfg - 1], max_retries cfg)"
proof -
  have "fetch cfg net (url m) =
         (Inl (RequestException (msgs (max_retries cfg - 1))), map (\<lambda>j. retry_delay cfg * 2 ^ j) [0..<max_retries cfg - 1],
          max_retries cfg)"
    using fetch_iter_exhausted [of 0 cfg "url m" "net (url m)" "\<lambda>j. RequestException (msgs j)"] assms(2,3)
    by (simp add: fetch_def)
  then show ?thesis using assms(1) by (simp add: download_single_def caught_def)
qed

theorem download_exhausted_failed_witness:
  "download_single ex_dl ex_cfg (\<lambda>u a. TransportError ''offline'') ex_st0 ex_m1
   = (Failed ''u1'' ''offline'', ex_st0, [2, 4], 3)"
proof -
  have "download_single ex_dl ex_cfg (\<lambda>u a. TransportError ''offline'') ex_st0 ex_m1
     = (Failed (url ex_m1) ((\<lambda>j. ''offline'') (max_retries ex_cfg - 1)), ex_st0,
        map (\<lambda>j. retry_delay ex_cfg * 2 ^ j) [0..<max_retries ex_cfg - 1], max_retries ex_cfg)"
    by (rule download_exhausted_failed [OF ex_skip_miss]) (simp_all add: attempt_get_def)
  then show ?thesis by (simp add: upt_conv_Cons)
qed

text \<open>C6. The collision loop returns a name that does not exist in the target
  directory, and it is the first free one of \<open>stem.ext\<close>, \<open>stem_1.ext\<close>,
  \<open>stem_2.ext\<close>, and so on.\<close>

theorem collision_first_free:
  "\<not> path_exists st (d, collision_loop st d stem ext (stem @ ''.'' @ ext) 1)
   \<and> (collision_loop st d stem ext (stem @ ''.'' @ ext) 1 = stem @ ''.'' @ ext
      \<or> (\<exists>k \<ge> 1. collision_loop st d stem ext (stem @ ''.'' @ ext) 1 = cand_name stem ext k
           \<and> path_exists st (d, stem @ ''.'' @ ext)
           \<and> (\<forall>j. 1 \<le> j \<and> j < k \<longrightarrow> path_exists st (d, cand_name stem ext j))))"
  using collision_loop_free [of st d stem ext "stem @ ''.'' @ ext" 1]
    collision_loop_first [of st d stem ext "stem @ ''.'' @ ext" 1] by blast

theorem collision_first_free_witness:
  "collision_loop \<lparr>files = [((''out'', ''s.jpg''), \<lparr>content = [1], mtime = None\<rparr>), ((''out'', ''s_1.jpg''), \<lparr>content = [2], mtime = None\<rparr>)],
      dirs = [''out''], dir_size = 4096\<rparr> ''out'' ''s'' ''jpg'' (''s'' @ ''.'' @ ''jpg'') 1 = ''s_2.jpg''
   \<and> \<not> path_exists \<lparr>files = [((''out'', ''s.jpg''), \<lparr>content = [1], mtime = None\<rparr>), ((''out'', ''s_1.jpg''), \<lparr>content = [2], mtime = None\<rparr>)],
      dirs = [''out''], dir_size = 4096\<rparr> (''out'', ''s_2.jpg'')"
proof -
  have v: "collision_loop \<lparr>files = [((''out'', ''s.jpg''), \<lparr>content = [1], mtime = None\<rparr>), ((''out'', ''s_1.jpg''), \<lparr>content = [2], mtime = None\<rparr>)],
      dirs = [''out''], dir_size = 4096\<rparr> ''out'' ''s'' ''jpg'' (''s'' @ ''.'' @ ''jpg'') 1 = ''s_2.jpg''"
    by (simp add: model_eval download_run_eval)
  show ?thesis using collision_first_free [of "\<lparr>files = [((''out'', ''s.jpg''), \<lparr>content = [1], mtime = None\<rparr>), ((''out'', ''s_1.jpg''), \<lparr>content = [2], mtime = None\<rparr>)],
      dirs = [''out''], dir_size = 4096\<rparr>" "''out''" "''s''" "''jpg''"] v by simp
qed

text \<open>C7. Writing two payloads with the same stem into a directory where
  \<open>stem.ext\<close> and \<open>stem_1.ext\<close> are free yields \<open>stem.ext\<close> and then
  \<open>stem_1.ext\<close>, each holding its own payload: the second write does not
  overwrite the first.\<close>

theorem two_payloads_same_stem:
  assumes "\<not> path_exists (makedirs st d) (d, stem @ ''.'' @ ext)"
    and "\<not> path_exists (makedirs st d) (d, cand_name stem ext 1)"
    and "write_download st d stem ext p1 o1 = (Inr f1, st1)"
    and "write_download st1 d stem ext p2 o2 = (Inr f2, st2)"
  shows "f1 = stem @ ''.'' @ ext \<and> f2 = cand_name stem ext 1
         \<and> file_at st2 (d, f1) = Some \<lparr>content = p1, mtime = o1\<rparr>
         \<and> file_at st2 (d, f2) = Some \<lparr>content = p2, mtime = o2\<rparr>"
proof -
  have f1: "f1 = stem @ ''.'' @ ext"
    using write_download_success [OF assms(3)] collision_loop_free_start [OF assms(1)] by simp
  have st1: "st1 = (makedirs st d)\<lparr>files := AList.update (d, f1) \<lparr>content = p1, mtime = o1\<rparr> (files st)\<rparr>"
    using write_download_success [OF assms(3)] by simp
  have m1: "makedirs st1 d = st1" using st1 by (simp add: makedirs_def)
  have fa1: "file_at st1 q = (if q = (d, f1) then Some \<lparr>content = p1, mtime = o1\<rparr> else file_at st q)" for q
    using st1 by (simp add: file_at_def update_conv' makedirs_def)
  have ex: "path_exists st1 (d, stem @ ''.'' @ ext)" using fa1 f1 by (simp add: path_exists_def)
  have dirs1: "is_dir st1 x = is_dir (makedirs st d) x" for x using st1 by (simp add: is_dir_def)
  have free: "\<not> path_exists st1 (d, cand_name stem ext 1)"
  proof -
    have "file_at st1 (d, cand_name stem ext 1) = file_at st (d, cand_name stem ext 1)"
      using fa1 f1 cand_name_ne_base [of stem ext 1] by simp
    then show ?thesis using assms(2) dirs1 by (simp add: path_exists_def)
  qed
  have f2: "f2 = cand_name stem ext 1"
    using write_download_success [OF assms(4)] m1 collision_loop_step [OF ex] collision_loop_free_start [OF free]
    by simp
  have st2: "st2 = st1\<lparr>files := AList.update (d, f2) \<lparr>content = p2, mtime = o2\<rparr> (files st1)\<rparr>"
    using write_download_success [OF assms(4)] m1 by (simp add: makedirs_def)
  show ?thesis using f1 f2 st2 fa1 cand_name_ne_base [of stem ext 1]
    by (simp add: file_at_def update_conv')
qed

theorem two_payloads_same_stem_witness:
  "''s.jpg'' = ''s'' @ ''.'' @ ''jpg'' \<and> ''s_1.jpg'' = cand_name ''s'' ''jpg'' 1
   \<and> file_at \<lparr>files = [((''out'', ''s.jpg''), \<lparr>content = [1], mtime = None\<rparr>), ((''out'', ''s_1.jpg''), \<lparr>content = [2], mtime = None\<rparr>)],
              dirs = [''out''], dir_size = 4096\<rparr> (''out'', ''s.jpg'') = Some \<lparr>content = [1], mtime = None\<rparr>
   \<and> file_at \<lparr>files = [((''out'', ''s.jpg''), \<lparr>content = [1], mtime = None\<rparr>), ((''out'', ''s_1.jpg''), \<lparr>content = [2], mtime = None\<rparr>)],
              dirs = [''out''], dir_size = 4096\<rparr> (''out'', ''s_1.jpg'') = Some \<lparr>content = [2], mtime = None\<rparr>"
proof (rule two_payloads_same_stem)
  show "\<not> path_exists (makedirs ex_st0 ''out'') (''out'', ''s'' @ ''.'' @ ''jpg'')"
    by (simp add: model_eval)
  show "\<not> path_exists (makedirs ex_st0 ''out'') (''out'', cand_name ''s'' ''jpg'' 1)"
    by (simp add: model_eval)
  show "write_download ex_st0 ''out'' ''s'' ''jpg'' [1] None =
      (Inr ''s.jpg'', \<lparr>files = [((''out'', ''s.jpg''), \<lparr>content = [1], mtime = None\<rparr>)], dirs = [''out''], dir_size = 4096\<rparr>)"
    by (simp add: model_eval download_run_eval)
  show "write_download \<lparr>files = [((''out'', ''s.jpg''), \<lparr>content = [1], mtime = None\<rparr>)], dirs = [''out''], dir_size = 4096\<rparr>
      ''out'' ''s'' ''jpg'' [2] None =
      (Inr ''s_1.jpg'', \<lparr>files = [((''out'', ''s.jpg''), \<lparr>content = [1], mtime = None\<rparr>), ((''out'', ''s_1.jpg''), \<lparr>content = [2], mtime = None\<rparr>)],
              dirs = [''out''], dir_size = 4096\<rparr>)"
    by (simp add: model_eval download_run_eval)
qed

text \<open>C28. A successful download writes a file that did not exist before, holding
  exactly the payload's bytes, changes no other file, and removes no directory.\<close>

theorem download_success_frame:
  assumes "download_single dl cfg net st m = (Success f sz, st', sl, n)"
  shows "\<not> path_exists st (mem_target dl m, f)
         \<and> (\<exists>e. file_at st' (mem_target dl m, f) = Some e \<and> length (content e) = sz)
         \<and> (\<forall>q. q \<noteq> (mem_target dl m, f) \<longrightarrow> file_at st' q = file_at st q)
         \<and> set (dirs st) \<subseteq> set (dirs st')"
proof -
  let ?d = "mem_target dl m" and ?s = "mem_stem dl m"
  obtain p ct where p: "sz = length p"
    "f = collision_loop (makedirs st ?d) ?d ?s (resolve_extension ct p) (?s @ ''.'' @ resolve_extension ct p) 1"
    "st' = (makedirs st ?d)\<lparr>files := AList.update (?d, f)
             \<lparr>content = p, mtime = snd (date_folder (organization_mode dl) (date m))\<rparr> (files st)\<rparr>"
    using assms by (rule download_single_success_store)
  have "\<not> path_exists (makedirs st ?d) (?d, f)" unfolding p(2) by (rule collision_loop_free)
  then have "\<not> path_exists st (?d, f)" using path_exists_makedirs by blast
  moreover have "file_at st' q = (if q = (?d, f)
      then Some \<lparr>content = p, mtime = snd (date_folder (organization_mode dl) (date m))\<rparr> else file_at st q)" for q
    using p(3) by (simp add: file_at_def update_conv' makedirs_def)
  moreover have "set (dirs st) \<subseteq> set (dirs st')" using p(3) by (auto simp: makedirs_def)
  ultimately show ?thesis using p(1) by auto
qed

theorem download_success_frame_witness:
  "\<not> path_exists ex_st1 (mem_target ex_dl ex_m1, ''2025-12-15.png'')
   \<and> (\<exists>e. file_at ex_st2 (mem_target ex_dl ex_m1, ''2025-12-15.png'') = Some e \<and> length (content e) = 2)
   \<and> file_at ex_st2 (mem_target ex_dl ex_m1, ''x.png'') = file_at ex_st1 (mem_target ex_dl ex_m1, ''x.png'')
   \<and> set (dirs ex_st1) \<subseteq> set (dirs ex_st2)"
  using download_success_frame [OF download_single_example] by simp

text \<open>Bounds of one call: \<open>download_single\<close> makes at most \<open>MAX_RETRIES\<close>
  requests, and its sleeps are \<open>RETRY_DELAY * 2 ^ j\<close> for the first
  \<open>n - 1\<close> attempts \<open>j\<close> when it makes \<open>n\<close> requests.\<close>

theorem download_requests_bound:
  assumes "download_single dl cfg net st m = (out, st', sl, n)"
  shows "n \<le> max_retries cfg \<and> sl = map (\<lambda>j. retry_delay cfg * 2 ^ j) (take (n - 1) [0..<max_retries cfg])"
proof (cases "fetch cfg net (url m)")
  case (fields res sl' n')
  then have "n' \<le> max_retries cfg \<and> sl' = map (\<lambda>j. retry_delay cfg * 2 ^ j) (take (n' - 1) [0..<max_retries cfg])"
    using fetch_iter_shape [of cfg "url m" "net (url m)" 0 res sl' n'] by (simp add: fetch_def)
  moreover have "(sl = [] \<and> n = 0) \<or> (sl = sl' \<and> n = n')"
    using assms fields by (auto simp: download_single_def split: sum.splits option.splits prod.splits)
  ultimately show ?thesis by auto
qed

theorem download_requests_bound_witness:
  "1 \<le> max_retries ex_cfg \<and> ([] :: nat list) = map (\<lambda>j. retry_delay ex_cfg * 2 ^ j) (take (1 - 1) [0..<max_retries ex_cfg])"
  by (rule download_requests_bound [OF download_single_example])

text \<open>C30. The running update of the counters in \<open>download_all\<close> computes
  the summary of the results as a whole: the counts of successes, skips and
  failures, the bytes of the successes, and the failures in completion order.\<close>

theorem tally_summary: "tally rs = summary_spec rs"
  by (simp add: tally_def tally_foldl stats0_def)

text \<open>C29. The counters do not depend on the order in which the futures
  complete: two completion orders of the same results give the same counts
  and total size, and the same failures up to order.\<close>

theorem tally_order_independent:
  assumes "mset rs = mset rs'"
  shows "success_count (tally rs) = success_count (tally rs') \<and> skipped_count (tally rs) = skipped_count (tally rs')
       \<and> failed_count (tally rs) = failed_count (tally rs') \<and> total_size (tally rs) = total_size (tally rs')
       \<and> mset (failed_items (tally rs)) = mset (failed_items (tally rs'))"
proof -
  have len: "length (filter P rs) = length (filter P rs')" for P
    by (metis assms mset_filter size_mset)
  have sum: "sum_list (map f rs) = sum_list (map f rs')" for f :: "memory \<times> outcome \<Rightarrow> nat"
    by (metis assms mset_map sum_mset_sum_list)
  have items: "mset (map g (filter P rs)) = mset (map g (filter P rs'))" for g :: "memory \<times> outcome \<Rightarrow> string \<times> string \<times> string" and P
    by (simp add: assms)
  show ?thesis unfolding tally_def tally_foldl stats0_def summary_spec_def by (simp add: len sum items del: mset_map mset_filter)
qed

theorem tally_order_independent_witness:
  "success_count (tally [(ex_m1, Success ''a'' 2), (ex_m1, Failed ''u1'' ''offline'')])
     = success_count (tally [(ex_m1, Failed ''u1'' ''offline''), (ex_m1, Success ''a'' 2)])
   \<and> total_size (tally [(ex_m1, Success ''a'' 2), (ex_m1, Failed ''u1'' ''offline'')])
     = total_size (tally [(ex_m1, Failed ''u1'' ''offline''), (ex_m1, Success ''a'' 2)])"
proof -
  have "mset [(ex_m1, Success ''a'' 2), (ex_m1, Failed ''u1'' ''offline'')]
      = mset [(ex_m1, Failed ''u1'' ''offline''), (ex_m1, Success ''a'' 2)]" by simp
  then show ?thesis using tally_order_independent by blast
qed

text \<open>C32. With \<open>MAX_RETRIES = 0\<close> the retry loop never runs: the use of
  \<open>content_type\<close> raises \<open>UnboundLocalError\<close> and the memory is reported as an
  error, without a request.\<close>

theorem zero_retries_error:
  assumes "skip_check st (mem_target dl m) (mem_stem dl m) = Inr None" and "max_retries cfg = 0"
  shows "download_single dl cfg net st m =
           (Error (url m) ''cannot access local variable 'content_type' where it is not associated with a value'',
            st, [], 0)"
  using assms by (simp add: download_single_def fetch_def caught_def unbound_content_type_def)

theorem zero_retries_error_witness:
  "download_single ex_dl \<lparr>max_retries = 0, retry_delay = 2\<rparr> (\<lambda>u a. TransportError ''offline'') ex_st0 ex_m1
   = (Error ''u1'' ''cannot access local variable 'content_type' where it is not associated with a value'', ex_st0, [], 0)"
proof -
  have "skip_check ex_st0 (mem_target ex_dl ex_m1) (mem_stem ex_dl ex_m1) = Inr None" by (rule ex_skip_miss)
  then show ?thesis by (rule zero_retries_error [of _ ex_dl ex_m1, simplified]) simp
qed

text \<open>C33. \<open>raise_for_status\<close> raises exactly for the statuses 400 to 599:
  the first response of a download is taken as its payload, with no retry
  and no sleep, if and only if its status is not a client or server error;
  an informational or redirect status (1xx, 3xx) is accepted as a payload.\<close>

theorem non_error_status_accepted:
  assumes "0 < max_retries cfg" and "net u 0 = Response s reason ct c"
  shows "fetch cfg net u = (Inr (Some (c, case ct of None \<Rightarrow> [] | Some t \<Rightarrow> t)), [], 1)
     \<longleftrightarrow> \<not> (400 \<le> s \<and> s < 600)"
proof -
  have up: "[0..<max_retries cfg] = 0 # [1..<max_retries cfg]" using assms(1) by (simp add: upt_conv_Cons)
  show ?thesis
  proof (cases "400 \<le> s \<and> s < 600")
    case True
    then obtain e where "attempt_get u (net u 0) = Inl e" using assms(2) by (cases "s < 500") (auto simp: attempt_get_def)
    then show ?thesis using True by (auto simp: fetch_def up split: prod.splits)
  next
    case False
    then show ?thesis using assms(2) by (auto simp: fetch_def up attempt_get_def)
  qed
qed

theorem non_error_status_accepted_witness:
  "fetch ex_cfg (\<lambda>u a. Response 304 ''Not Modified'' None []) ''u1'' = (Inr (Some ([], [])), [], 1)"
  using non_error_status_accepted [of ex_cfg "\<lambda>u a. Response 304 ''Not Modified'' None []" "''u1''"] by simp

end
