(* ===== verification/Parser.thy ===== *)
theory Parser
  imports HtmlRows Downloader
begin

text \<open>
  \<open>HTMLParser.parse\<close> (\<open>src/src/parser.py\<close>, lines 11--50): the rows that
  \<open>re.findall\<close> finds, de-duplicated by URL with the first row kept, the
  coordinates read by the pattern of line 36 and \<open>float()\<close>, and the date and
  type stripped of white space. The HTML file is the text it holds, or
  \<open>None\<close> when it does not exist (\<open>sys.exit(1)\<close>, line 16); decoding is not
  modelled. A float is kept as the literal it was read from.
\<close>

text \<open>\<open>re.findall(pattern, content)\<close>, line 22: a match is tried at each
  position from left to right, and the search resumes after each match.\<close>

function re_findall_rows :: "string \<Rightarrow> row list" where
  "re_findall_rows [] = []"
| "re_findall_rows (c # cs) =
     (case row_match (c # cs) of
        Some (x, r) \<Rightarrow> x # re_findall_rows r
      | None \<Rightarrow> re_findall_rows cs)"
  by pat_completeness auto
termination
  by (relation "measure length") (auto dest: row_match_shorter)

text \<open>\<open>[-\d.]\<close>.\<close>

definition is_fchar :: "char \<Rightarrow> bool" where
  "is_fchar c \<longleftrightarrow> c = CHR ''-'' \<or> is_digit c \<or> c = CHR ''.''"

definition coord_label :: string where
  "coord_label = ''Latitude, Longitude:''"

text \<open>The pattern of line 36 at the start of a string:
  \<open>Latitude, Longitude:\s*([-\d.]+),\s*([-\d.]+)\<close>.\<close>

definition coords_at :: "string \<Rightarrow> (string \<times> string) option" where
  "coords_at s = do {
     r \<leftarrow> lit coord_label s;
     let r1 = dropWhile py_space r;
     let a = takeWhile is_fchar r1;
     if a = [] then None else do {
       r2 \<leftarrow> lit '','' (drop (length a) r1);
       let r3 = dropWhile py_space r2;
       let b = takeWhile is_fchar r3;
       if b = [] then None else Some (a, b) } }"

text \<open>\<open>re.search\<close>: the first position where the pattern matches.\<close>

fun coords_search :: "string \<Rightarrow> (string \<times> string) option" where
  "coords_search [] = coords_at []"
| "coords_search (c # cs) = (case coords_at (c # cs) of Some r \<Rightarrow> Some r | None \<Rightarrow> coords_search cs)"

text \<open>\<open>float(s)\<close> on a string of \<open>[-\d.]\<close>: an optional minus sign, then
  digits with at most one point and at least one digit; anything else raises
  \<open>ValueError\<close>.\<close>

definition valid_float :: "string \<Rightarrow> bool" where
  "valid_float s \<longleftrightarrow>
     (let t = (if prefix ''-'' s then tl s else s)
      in list_all (\<lambda>c. is_digit c \<or> c = CHR ''.'') t \<and> length (filter (\<lambda>c. c = CHR ''.'') t) \<le> 1
         \<and> list_ex is_digit t)"

definition py_float :: "string \<Rightarrow> string result" where
  "py_float s =
     (if valid_float s then Inr s
      else Inl (ValueError (''could not convert string to float: '' @ [quote_char] @ s @ [quote_char])))"

text \<open>Lines 34--39.\<close>

definition coords :: "string \<Rightarrow> (string option \<times> string option) result" where
  "coords loc =
     (if sublist coord_label loc then
        (case coords_search loc of
           None \<Rightarrow> Inr (None, None)
         | Some (a, b) \<Rightarrow> ebind (py_float a) (\<lambda>x. ebind (py_float b) (\<lambda>y. Inr (Some x, Some y))))
      else Inr (None, None))"

text \<open>The loop of lines 27--47; \<open>seen\<close> is \<open>seen_urls\<close>.\<close>

fun parse_rows :: "string list \<Rightarrow> row list \<Rightarrow> memory list result" where
  "parse_rows seen [] = Inr []"
| "parse_rows seen ((d, t, l, u) # rs) =
     (if u \<in> set seen then parse_rows seen rs
      else ebind (coords l) (\<lambda>(lat, lon).
             ebind (parse_rows (u # seen) rs) (\<lambda>ms.
               Inr (\<lparr>url = u, date = py_strip d, mem_type = py_strip t, latitude = lat, longitude = lon\<rparr> # ms))))"

text \<open>\<open>HTMLParser.parse\<close>, lines 11--50.\<close>

definition parse_html :: "string option \<Rightarrow> memory list result" where
  "parse_html html =
     (case html of
        None \<Rightarrow> Inl (SystemExit 1)
      | Some doc \<Rightarrow> parse_rows [] (re_findall_rows doc))"

text \<open>The row the export writes for one memory, as the specification's
  example shows it; used to state what the pattern of line 21 recovers.\<close>

definition render_row :: "string \<Rightarrow> string \<Rightarrow> string \<Rightarrow> string \<Rightarrow> string" where
  "render_row d t l u =
     ''<tr><td>'' @ d @ ''</td><td>'' @ t @ ''</td><td>'' @ l @ ''</td><td>'' @ ''<a '' @ onclick_prefix @ u @ [quote_char]
     @ '')>Download</a></td></tr>''"

section \<open>Lemmas\<close>

lemma remdups_snoc: "remdups (ys @ [u]) = remdups (filter (\<lambda>x. x \<noteq> u) ys) @ [u]"
  by (induction ys) auto

lemma first_occ_Cons:
  "rev (remdups (rev (u # xs))) = u # rev (remdups (rev (filter (\<lambda>x. x \<noteq> u) xs)))"
  by (simp add: remdups_snoc rev_filter)

lemma parse_rows_urls:
  "parse_rows seen rows = Inr ms \<Longrightarrow>
   map url ms = rev (remdups (rev (filter (\<lambda>u. u \<notin> set seen) (map (snd \<circ> snd \<circ> snd) rows))))"
proof (induction seen rows arbitrary: ms rule: parse_rows.induct)
  case (1 seen)
  then show ?case by simp
next
  case (2 seen d t l u rs)
  show ?case
  proof (cases "u \<in> set seen")
    case True
    then show ?thesis using 2 by simp
  next
    case False
    then obtain lat lon ms' where c: "coords l = Inr (lat, lon)" and r: "parse_rows (u # seen) rs = Inr ms'"
      and ms: "ms = \<lparr>url = u, date = py_strip d, mem_type = py_strip t, latitude = lat, longitude = lon\<rparr> # ms'"
      using "2.prems" by (auto simp: ebind_def split: sum.splits)
    have "map url ms' = rev (remdups (rev (filter (\<lambda>x. x \<notin> set (u # seen)) (map (snd \<circ> snd \<circ> snd) rs))))"
      using "2.IH"(2) [OF False r] .
    moreover have "filter (\<lambda>x. x \<notin> set seen) (map (snd \<circ> snd \<circ> snd) ((d, t, l, u) # rs))
        = u # filter (\<lambda>x. x \<notin> set seen) (map (snd \<circ> snd \<circ> snd) rs)"
      using False by simp
    ultimately show ?thesis using ms
      by (simp only: first_occ_Cons) (simp add: filter_filter conj_commute)
  qed
qed

lemma coords_Inl: "coords l = Inl e \<Longrightarrow> \<exists>msg. e = ValueError msg"
  by (auto simp: coords_def py_float_def ebind_def split: if_splits option.splits sum.splits)

text \<open>The first row with a new URL whose coordinate \<open>float\<close> rejects aborts
  the loop with that error, whatever follows it.\<close>

lemma parse_rows_error:
  assumes "\<forall>r\<in>set pre. \<exists>c. coords (fst (snd (snd r))) = Inr c"
    and "u \<notin> set seen" and "u \<notin> set (map (snd \<circ> snd \<circ> snd) pre)" and "coords l = Inl e"
  shows "parse_rows seen (pre @ (d, t, l, u) # post) = Inl e"
  using assms
proof (induction pre arbitrary: seen)
  case Nil
  then show ?case by simp
next
  case (Cons r pre)
  obtain d' t' l' u' where r: "r = (d', t', l', u')" by (cases r) auto
  obtain c where c: "coords l' = Inr c" using Cons.prems(1) r by auto
  show ?case
  proof (cases "u' \<in> set seen")
    case True
    have "parse_rows seen (pre @ (d, t, l, u) # post) = Inl e"
      using Cons.prems r by (intro Cons.IH) auto
    then show ?thesis using r True by simp
  next
    case False
    have "parse_rows (u' # seen) (pre @ (d, t, l, u) # post) = Inl e"
      using Cons.prems r by (intro Cons.IH) auto
    then show ?thesis using r c False by (cases c) simp
  qed
qed

lemma lit_app [simp]: "lit l (l @ s) = Some s"
  by (simp add: lit_def)

lemma takeWhile_upto: "c \<notin> set d \<Longrightarrow> takeWhile (\<lambda>x. x \<noteq> c) (d @ c # r) = d"
  by (induction d) auto

lemma grp_nlt_app:
  "d \<noteq> [] \<Longrightarrow> CHR ''<'' \<notin> set d \<Longrightarrow> grp_nlt (d @ CHR ''<'' # r) = Some (d, CHR ''<'' # r)"
  by (simp add: grp_nlt_def takeWhile_upto)

lemma url_tail_app:
  "u \<noteq> [] \<Longrightarrow> quote_char \<notin> set u \<Longrightarrow> url_tail (onclick_prefix @ u @ quote_char # r) = Some (u, r)"
  by (simp add: url_tail_def takeWhile_upto lit_def)

lemma url_tail_other: "c \<noteq> CHR ''o'' \<Longrightarrow> url_tail (c # s) = None"
  by (simp add: url_tail_def lit_def onclick_prefix_def)

lemma lazy_url_here: "url_tail s = Some r \<Longrightarrow> s \<noteq> [] \<Longrightarrow> lazy_url s = Some r"
  by (cases s) auto

lemma lazy_url_render:
  assumes "u \<noteq> []" "quote_char \<notin> set u"
  shows "lazy_url (''<a '' @ onclick_prefix @ u @ quote_char # r) = Some (u, r)"
proof -
  have "lazy_url (onclick_prefix @ u @ quote_char # r) = Some (u, r)"
    by (rule lazy_url_here [OF url_tail_app [OF assms]]) (simp add: onclick_prefix_def)
  then show ?thesis by (simp add: url_tail_other)
qed

lemma findall_tail: "re_findall_rows '')>Download</a></td></tr>'' = []"
  by code_simp

lemma row_match_render:
  assumes "d \<noteq> []" "t \<noteq> []" "l \<noteq> []" "u \<noteq> []"
    and "CHR ''<'' \<notin> set d" "CHR ''<'' \<notin> set t" "CHR ''<'' \<notin> set l" "quote_char \<notin> set u"
  shows "row_match (render_row d t l u) = Some ((d, t, l, u), '')>Download</a></td></tr>'')"
proof -
  have g: "grp_nlt (x @ ''</td><td>'' @ r) = Some (x, ''</td><td>'' @ r)"
    if "x \<noteq> []" "CHR ''<'' \<notin> set x" for x r
    using grp_nlt_app [OF that, of "''/td><td>'' @ r"] by simp
  have z: "lazy_url (''<a '' @ onclick_prefix @ u @ [quote_char] @ '')>Download</a></td></tr>'')
      = Some (u, '')>Download</a></td></tr>'')"
    using lazy_url_render [OF assms(4,8), of "'')>Download</a></td></tr>''"] by simp
  show ?thesis
    unfolding render_row_def row_match_def
    by (simp only: lit_app Option.bind.simps g [OF assms(1,5)] g [OF assms(2,6)] g [OF assms(3,7)] z prod.case)
qed

lemma fchar_not_space: "is_fchar c \<Longrightarrow> \<not> py_space c"
  by (auto simp: is_fchar_def is_digit_def py_space_def)

lemma comma_not_fchar: "\<not> is_fchar (CHR '','')"
  by (simp add: is_fchar_def is_digit_def)

lemma valid_float_fchar: "valid_float a \<Longrightarrow> a \<noteq> [] \<and> (\<forall>c \<in> set a. is_fchar c)"
  by (cases a) (auto simp: valid_float_def is_fchar_def list_all_iff list_ex_iff split: if_splits)

lemma dropWhile_space_fchar:
  "a \<noteq> [] \<Longrightarrow> \<forall>c \<in> set a. is_fchar c \<Longrightarrow> dropWhile py_space ('' '' @ a @ r) = a @ r"
  by (cases a) (auto simp: py_space_def dest: fchar_not_space)

lemma takeWhile_fchar_comma:
  "\<forall>c \<in> set a. is_fchar c \<Longrightarrow> takeWhile is_fchar (a @ CHR '','' # r) = a"
  by (simp add: takeWhile_append2 comma_not_fchar)

lemma dropWhile_fchar:
  "a \<noteq> [] \<Longrightarrow> \<forall>c \<in> set a. is_fchar c \<Longrightarrow> dropWhile py_space (a @ r) = a @ r"
  by (cases a) (auto dest: fchar_not_space)

lemma space_py_space: "py_space CHR '' ''"
  by (simp add: py_space_def)

lemma coords_at_valid:
  assumes "valid_float a" "valid_float b"
  shows "coords_at (coord_label @ '' '' @ a @ '','' @ '' '' @ b) = Some (a, b)"
proof -
  have fa: "a \<noteq> []" "\<forall>c \<in> set a. is_fchar c" and fb: "b \<noteq> []" "\<forall>c \<in> set b. is_fchar c"
    using valid_float_fchar [OF assms(1)] valid_float_fchar [OF assms(2)] by auto
  have t1: "takeWhile is_fchar (a @ CHR '','' # CHR '' '' # b) = a"
    by (rule takeWhile_fchar_comma [OF fa(2)])
  have d2: "dropWhile py_space b = b"
    using dropWhile_fchar [OF fb, of "[]"] by simp
  have t2: "takeWhile is_fchar b = b"
    using fb(2) by (simp add: takeWhile_eq_all_conv)
  show ?thesis
    unfolding coords_at_def
    using fa(1) fb(1) by (simp add: Let_def lit_def space_py_space dropWhile_fchar [OF fa] d2 t1 t2)
qed

lemma ex_doc_parse:
  "parse_html (Some (render_row ''2025-12-15 21:31:58 UTC'' ''Image'' ''x'' ''u1'')) = Inr [ex_m1]"
  by code_simp

lemma ex_doc2_parse:
  "parse_html (Some (render_row ''2025-12-15 21:31:58 UTC'' ''Image'' ''x'' ''u1''
      @ render_row ''2025-12-16 08:00:00 UTC'' ''Video'' ''y'' ''u1''))
   = Inr [ex_m1]"
  by code_simp

section \<open>Properties of the parser\<close>

text \<open>C34. De-duplication (lines 24--32): the memories that \<open>parse\<close> returns
  have the URLs of the rows, each once, in the order of their first
  occurrence; a later row with a URL already seen is dropped.\<close>

theorem parse_dedup_first:
  "parse_html (Some doc) = Inr ms \<Longrightarrow> map url ms = rev (remdups (rev (map (snd \<circ> snd \<circ> snd) (re_findall_rows doc))))"
  using parse_rows_urls [of "[]" "re_findall_rows doc" ms] by (simp add: parse_html_def)

theorem parse_dedup_first_witness:
  "map url [ex_m1] = rev (remdups (rev (map (snd \<circ> snd \<circ> snd)
     (re_findall_rows (render_row ''2025-12-15 21:31:58 UTC'' ''Image'' ''x'' ''u1''
        @ render_row ''2025-12-16 08:00:00 UTC'' ''Video'' ''y'' ''u1'')))))"
  by (rule parse_dedup_first [OF ex_doc2_parse])

text \<open>The pattern of line 21 recovers the four fields of an exported row
  whose cells hold no \<open><\<close> and whose URL holds no quote, and nothing
  else.\<close>

theorem findall_render:
  assumes "d \<noteq> []" "t \<noteq> []" "l \<noteq> []" "u \<noteq> []"
    and "CHR ''<'' \<notin> set d" "CHR ''<'' \<notin> set t" "CHR ''<'' \<notin> set l" "quote_char \<notin> set u"
  shows "re_findall_rows (render_row d t l u) = [(d, t, l, u)]"
proof -
  obtain c cs where "render_row d t l u = c # cs" by (simp add: render_row_def)
  then show ?thesis using row_match_render [OF assms] findall_tail by simp
qed

theorem findall_render_witness:
  "re_findall_rows (render_row ''2025-12-15 21:31:58 UTC'' ''Image'' ''x'' ''u1'')
   = [(''2025-12-15 21:31:58 UTC'', ''Image'', ''x'', ''u1'')]"
  by (rule findall_render) (simp_all add: quote_char_def)

text \<open>Coordinates written as two float literals after the label are
  read as those two literals (lines 35--39).\<close>

theorem coords_valid:
  assumes "valid_float a" "valid_float b"
  shows "coords (coord_label @ '' '' @ a @ '','' @ '' '' @ b) = Inr (Some a, Some b)"
proof -
  obtain c cs where e: "coord_label @ '' '' @ a @ '','' @ '' '' @ b = c # cs" by (simp add: coord_label_def)
  have "coords_search (coord_label @ '' '' @ a @ '','' @ '' '' @ b) = Some (a, b)"
    unfolding e using coords_at_valid [OF assms] e by simp
  moreover have "sublist coord_label (coord_label @ '' '' @ a @ '','' @ '' '' @ b)" by simp
  ultimately show ?thesis using assms by (simp add: coords_def py_float_def ebind_def)
qed

theorem coords_valid_witness:
  "coords (coord_label @ '' '' @ ''1.5'' @ '','' @ '' '' @ ''-2'') = Inr (Some ''1.5'', Some ''-2'')"
  by (rule coords_valid) (simp_all add: valid_float_def is_digit_def)

end
