(* ===== verification/ZipClassify.thy ===== *)
theory ZipClassify
  imports Prelude
begin

text \<open>
  The classification of a bundle's entries in
  \<open>ZipProcessor._process_single_zip_impl\<close> (\<open>src/src/zip_processor.py\<close>,
  lines 161--195): two passes over \<open>namelist()\<close> that pick the media entry and
  the overlay entry, each pass overwriting its choice with every later entry
  that fits, and the normalisation of the media's extension
  (\<open>os.path.splitext\<close>, \<open>jpeg\<close> to \<open>jpg\<close>, \<open>mov\<close> to \<open>mp4\<close>). \<open>str.endswith\<close> on a
  tuple is a disjunction of \<^const>\<open>suffix\<close> tests; a name is never empty, so
  Python's \<open>not media_file\<close> is the option being \<open>None\<close>.
\<close>

definition media_suffixes :: "string list" where
  "media_suffixes = [''.jpg'', ''.jpeg'', ''.mp4'', ''.mov'']"

definition is_media_name :: "string \<Rightarrow> bool" where
  "is_media_name f \<longleftrightarrow> list_ex (\<lambda>e. suffix e (lower f)) media_suffixes"

definition is_png_name :: "string \<Rightarrow> bool" where
  "is_png_name f \<longleftrightarrow> suffix ''.png'' (lower f)"

definition is_overlay_name :: "string \<Rightarrow> bool" where
  "is_overlay_name f \<longleftrightarrow> is_png_name f \<and> sublist ''overlay'' (lower f)"

text \<open>Lines 164--170, one iteration of the first pass; the state is
  \<open>(media_file, overlay_file)\<close>.\<close>

definition pass1_step :: "string option \<times> string option \<Rightarrow> string \<Rightarrow> string option \<times> string option" where
  "pass1_step s f =
     (if is_overlay_name f then (fst s, Some f)
      else if is_media_name f then (Some f, snd s)
      else s)"

text \<open>Lines 173--178, one iteration of the second pass.\<close>

definition pass2_step :: "string option \<times> string option \<Rightarrow> string \<Rightarrow> string option \<times> string option" where
  "pass2_step s f =
     (if is_png_name f then (fst s, Some f)
      else if is_media_name f then (Some f, snd s)
      else s)"

text \<open>Lines 161--178: the second pass runs when either role is unfilled.\<close>

definition classify :: "string list \<Rightarrow> string option \<times> string option" where
  "classify names =
     (let r1 = foldl pass1_step (None, None) names
      in if fst r1 = None \<or> snd r1 = None then foldl pass2_step r1 names else r1)"

text \<open>\<open>os.path.splitext(p)[1]\<close> of \<open>posixpath\<close>: the last dot-suffix of the
  base name, where leading dots of the base name do not count.\<close>

definition splitext_ext :: "string \<Rightarrow> string" where
  "splitext_ext p =
     (let base = rev (takeWhile (\<lambda>c. c \<noteq> CHR ''/'') (rev p));
          stripped = dropWhile (\<lambda>c. c = CHR ''.'') base
      in if CHR ''.'' \<in> set stripped
         then CHR ''.'' # rev (takeWhile (\<lambda>c. c \<noteq> CHR ''.'') (rev stripped))
         else [])"

text \<open>Lines 187--192.\<close>

definition media_ext :: "string \<Rightarrow> string" where
  "media_ext f =
     (let e = filter (\<lambda>c. c \<noteq> CHR ''.'') (lower (splitext_ext f))
      in if e = ''jpeg'' then ''jpg'' else if e = ''mov'' then ''mp4'' else e)"

text \<open>Lines 194--195.\<close>

definition is_video_ext :: "string \<Rightarrow> bool" where
  "is_video_ext e \<longleftrightarrow> e \<in> set [''mp4'']"

definition is_image_ext :: "string \<Rightarrow> bool" where
  "is_image_ext e \<longleftrightarrow> e \<in> set [''jpg'', ''png'']"

text \<open>The classification the specification describes (section 4.3), over the
  whole list: the last media entry; the last \<open>overlay\<close>-named PNG, or failing
  that the last PNG.\<close>

definition last_opt :: "'a list \<Rightarrow> 'a option" where
  "last_opt xs = (if xs = [] then None else Some (last xs))"

definition classify_spec :: "string list \<Rightarrow> string option \<times> string option" where
  "classify_spec names =
     (last_opt (filter is_media_name names),
      if filter is_overlay_name names \<noteq> [] then last_opt (filter is_overlay_name names)
      else last_opt (filter is_png_name names))"

lemmas classify_eval [model_eval] =
  media_suffixes_def is_media_name_def is_png_name_def is_overlay_name_def pass1_step_def
  pass2_step_def classify_def splitext_ext_def media_ext_def is_video_ext_def is_image_ext_def
  last_opt_def classify_spec_def

section \<open>Lemmas\<close>

lemma classify_example: "fst (classify [''a.jpg'', ''x.png'', ''b.mov'']) = Some ''b.mov''"
  by code_simp

lemma last_opt_snoc [simp]: "last_opt (xs @ [x]) = Some x"
  by (simp add: last_opt_def)

lemma last_opt_Nil [simp]: "last_opt [] = None"
  by (simp add: last_opt_def)

lemma png_not_media: "is_png_name f \<Longrightarrow> \<not> is_media_name f"
proof
  assume p: "is_png_name f" and m: "is_media_name f"
  from m obtain e where e: "e \<in> set media_suffixes" "suffix e (lower f)"
    by (auto simp: is_media_name_def list_ex_iff)
  have "suffix ''.png'' e \<or> suffix e ''.png''"
    using p e(2) unfolding is_png_name_def by (rule suffix_same_cases)
  then show False using e(1) by (auto simp: media_suffixes_def suffix_def)
qed

lemma overlay_not_media: "is_overlay_name f \<Longrightarrow> \<not> is_media_name f"
  by (simp add: is_overlay_name_def png_not_media)

lemma pass1_step_cases:
  "is_overlay_name f \<Longrightarrow> pass1_step s f = (fst s, Some f)"
  "\<not> is_overlay_name f \<Longrightarrow> is_media_name f \<Longrightarrow> pass1_step s f = (Some f, snd s)"
  "\<not> is_overlay_name f \<Longrightarrow> \<not> is_media_name f \<Longrightarrow> pass1_step s f = s"
  by (simp_all add: pass1_step_def)

lemma pass2_step_cases:
  "is_png_name f \<Longrightarrow> pass2_step s f = (fst s, Some f)"
  "\<not> is_png_name f \<Longrightarrow> is_media_name f \<Longrightarrow> pass2_step s f = (Some f, snd s)"
  "\<not> is_png_name f \<Longrightarrow> \<not> is_media_name f \<Longrightarrow> pass2_step s f = s"
  by (simp_all add: pass2_step_def)

lemma foldl_pass1:
  "foldl pass1_step s names =
     (case last_opt (filter is_media_name names) of None \<Rightarrow> fst s | Some x \<Rightarrow> Some x,
      case last_opt (filter is_overlay_name names) of None \<Rightarrow> snd s | Some y \<Rightarrow> Some y)"
proof (induction names arbitrary: s rule: rev_induct)
  case Nil
  then show ?case by simp
next
  case (snoc f names)
  have "foldl pass1_step s (names @ [f]) =
      pass1_step (case last_opt (filter is_media_name names) of None \<Rightarrow> fst s | Some x \<Rightarrow> Some x,
      case last_opt (filter is_overlay_name names) of None \<Rightarrow> snd s | Some y \<Rightarrow> Some y) f"
    by (simp only: foldl_append foldl_Cons foldl_Nil snoc.IH)
  then show ?case
    using overlay_not_media [of f]
    by (cases "is_overlay_name f"; cases "is_media_name f") (simp_all add: pass1_step_cases)
qed

lemma foldl_pass2:
  "foldl pass2_step s names =
     (case last_opt (filter is_media_name names) of None \<Rightarrow> fst s | Some x \<Rightarrow> Some x,
      case last_opt (filter is_png_name names) of None \<Rightarrow> snd s | Some y \<Rightarrow> Some y)"
proof (induction names arbitrary: s rule: rev_induct)
  case Nil
  then show ?case by simp
next
  case (snoc f names)
  have "foldl pass2_step s (names @ [f]) =
      pass2_step (case last_opt (filter is_media_name names) of None \<Rightarrow> fst s | Some x \<Rightarrow> Some x,
      case last_opt (filter is_png_name names) of None \<Rightarrow> snd s | Some y \<Rightarrow> Some y) f"
    by (simp only: foldl_append foldl_Cons foldl_Nil snoc.IH)
  then show ?case
    using png_not_media [of f]
    by (cases "is_png_name f"; cases "is_media_name f") (simp_all add: pass2_step_cases)
qed

lemma overlay_names_png: "filter is_overlay_name names \<noteq> [] \<Longrightarrow> filter is_png_name names \<noteq> []"
  by (auto simp: filter_empty_conv is_overlay_name_def)

text \<open>C11. The two passes of lines 161--178 choose the media entry the
  specification describes, the last media-suffixed name, and whenever a media
  entry is found they also choose its overlay: the last \<open>overlay\<close>-named
  PNG, or failing that the last PNG.\<close>

theorem classify_refines_spec:
  "fst (classify names) = fst (classify_spec names)
   \<and> (fst (classify names) \<noteq> None \<longrightarrow> classify names = classify_spec names)"
  using overlay_names_png [of names]
  by (auto simp: classify_def classify_spec_def foldl_pass1 foldl_pass2 last_opt_def Let_def split: option.splits)

theorem classify_refines_spec_witness:
  "classify [''a.jpg'', ''x.png'', ''b.mov''] = classify_spec [''a.jpg'', ''x.png'', ''b.mov'']"
  using classify_refines_spec [of "[''a.jpg'', ''x.png'', ''b.mov'']"] classify_example
  by (metis option.distinct(1))

end
