(* ===== verification/ZipProcessor.thy ===== *)
theory ZipProcessor
  imports Downloader ZipClassify
begin

text \<open>
  The ZIP pipeline, \<open>ZipProcessor\<close> in \<open>src/src/zip_processor.py\<close>: the four
  retention modes of \<open>_process_single_zip_impl\<close>, the idempotence check,
  \<open>process_single_zip\<close> with its retry loop, and \<open>process_all\<close>. The archive
  format and the two compositors are parameters (record \<open>zip_env\<close>):
  \<open>unzip\<close> is \<open>zipfile.ZipFile\<close> on a file's bytes (\<open>None\<close> for
  \<open>BadZipFile\<close>), \<open>img_comp\<close> is the PIL computation of \<open>compose_image\<close>
  (media, overlay, flatten to RGB; \<open>None\<close> for any exception), \<open>vid_comp\<close> the
  \<open>ffmpeg\<close> run of \<open>compose_video\<close> on the bytes of its two input files.
  Every file operation goes through the store of theory \<open>FileStore\<close>; an
  exception is a value \<open>Inl\<close> carried together with the store as it was when
  the exception was raised.
\<close>

record zip_env =
  unzip :: "bytes \<Rightarrow> (string \<times> bytes) list option"
  img_comp :: "bytes \<Rightarrow> bytes \<Rightarrow> bool \<Rightarrow> bytes option"
  vid_comp :: "bytes \<Rightarrow> bytes \<Rightarrow> bytes option"

text \<open>\<open>ZipProcessor.__init__\<close>, lines 15--18.\<close>

record zip_processor =
  zp_output_dir :: string
  zp_mode :: string
  zp_filename_format :: string

type_synonym 'a zstep = "'a result \<times> store"

definition zbind :: "'a zstep \<Rightarrow> ('a \<Rightarrow> store \<Rightarrow> 'b zstep) \<Rightarrow> 'b zstep" where
  "zbind r f = (case r of (Inl e, st) \<Rightarrow> (Inl e, st) | (Inr a, st) \<Rightarrow> f a st)"

text \<open>\<open>try: ... except: pass\<close>.\<close>

definition swallow :: "unit zstep \<Rightarrow> unit zstep" where
  "swallow r = (case r of (Inl _, st) \<Rightarrow> (Inr (), st) | x \<Rightarrow> x)"

text \<open>\<open>ZipFile.read(name)\<close>: the data of the last entry of that name (the
  archive's name table keeps the last one).\<close>

definition zip_read :: "(string \<times> bytes) list \<Rightarrow> string \<Rightarrow> bytes" where
  "zip_read entries n = (case map_of (rev entries) n of Some b \<Rightarrow> b | None \<Rightarrow> [])"

text \<open>\<open>set_file_date\<close>, lines 37--41: \<open>os.utime\<close> when the date parsed and the
  path exists (on a directory it has no effect on the model).\<close>

definition set_file_date :: "store \<Rightarrow> fpath \<Rightarrow> datetime option \<Rightarrow> store" where
  "set_file_date st p dobj =
     (case dobj of
        None \<Rightarrow> st
      | Some t \<Rightarrow> if path_exists st p then (case utime st p t of Inl _ \<Rightarrow> st | Inr st' \<Rightarrow> st') else st)"

text \<open>\<open>with open(p, 'wb') as f: f.write(data)\<close>, then \<open>set_file_date\<close>.\<close>

definition write_dated :: "store \<Rightarrow> fpath \<Rightarrow> bytes \<Rightarrow> datetime option \<Rightarrow> unit zstep" where
  "write_dated st p data dobj =
     (case write_file st p data of Inl e \<Rightarrow> (Inl e, st) | Inr st1 \<Rightarrow> (Inr (), set_file_date st1 p dobj))"

definition write_plain :: "store \<Rightarrow> fpath \<Rightarrow> bytes \<Rightarrow> unit zstep" where
  "write_plain st p data = (case write_file st p data of Inl e \<Rightarrow> (Inl e, st) | Inr st1 \<Rightarrow> (Inr (), st1))"

definition remove_step :: "store \<Rightarrow> fpath \<Rightarrow> unit zstep" where
  "remove_step st p = (case remove_file st p of Inl e \<Rightarrow> (Inl e, st) | Inr st1 \<Rightarrow> (Inr (), st1))"

definition rename_step :: "store \<Rightarrow> fpath \<Rightarrow> fpath \<Rightarrow> unit zstep" where
  "rename_step st p q = (case rename_file st p q of Inl e \<Rightarrow> (Inl e, st) | Inr st1 \<Rightarrow> (Inr (), st1))"

text \<open>\<open>compose_image\<close>, lines 92--118: the composite is saved at the output
  path; any exception, including one of the save, gives \<open>False\<close>.\<close>

definition compose_image :: "zip_env \<Rightarrow> store \<Rightarrow> bytes \<Rightarrow> bytes \<Rightarrow> fpath \<Rightarrow> bool \<times> store" where
  "compose_image env st media ov out =
     (case img_comp env media ov (suffix ''.jpg'' (lower (full_path out))) of
        None \<Rightarrow> (False, st)
      | Some img \<Rightarrow> (case write_file st out img of Inl _ \<Rightarrow> (False, st) | Inr st' \<Rightarrow> (True, st')))"

text \<open>\<open>compose_video\<close>, lines 120--135: \<open>ffmpeg -y\<close> reads the two input
  files and writes the output; a missing input or a non-zero exit gives
  \<open>False\<close>.\<close>

definition compose_video :: "zip_env \<Rightarrow> store \<Rightarrow> fpath \<Rightarrow> fpath \<Rightarrow> fpath \<Rightarrow> bool \<times> store" where
  "compose_video env st vp op out =
     (case (file_at st vp, file_at st op) of
        (Some v, Some ovd) \<Rightarrow>
          (case vid_comp env (content v) (content ovd) of
             None \<Rightarrow> (False, st)
           | Some r \<Rightarrow> (case write_file st out r of Inl _ \<Rightarrow> (False, st) | Inr st' \<Rightarrow> (True, st')))
      | _ \<Rightarrow> (False, st))"

text \<open>The names of the outputs, \<open>f"{date_formatted}_original.{media_ext}"\<close>
  and so on.\<close>

definition out_name :: "string \<Rightarrow> string \<Rightarrow> string \<Rightarrow> string" where
  "out_name stem tag ext = stem @ tag @ ''.'' @ ext"

text \<open>Mode \<open>all\<close>, lines 197--228.\<close>

definition mode_all ::
  "zip_env \<Rightarrow> string \<Rightarrow> string \<Rightarrow> string \<Rightarrow> bytes \<Rightarrow> bytes option \<Rightarrow> datetime option \<Rightarrow> store \<Rightarrow> unit zstep" where
  "mode_all env d stem ext media ov dobj st =
     (let op = (d, out_name stem ''_original'' ext) in
      zbind (write_dated st op media dobj) (\<lambda>_ st1.
        case ov of
          Some ovd \<Rightarrow>
            if ovd \<noteq> [] then
              (let vp = (d, stem @ ''_overlay.png''); cp = (d, out_name stem ''_composed'' ext) in
               zbind (write_dated st1 vp ovd dobj) (\<lambda>_ st2.
                 if is_image_ext ext then (Inr (), set_file_date (snd (compose_image env st2 media ovd cp)) cp dobj)
                 else if is_video_ext ext then (Inr (), set_file_date (snd (compose_video env st2 op vp cp)) cp dobj)
                 else (Inr (), st2)))
            else (Inr (), st1)
        | None \<Rightarrow> (Inr (), st1)))"

text \<open>Mode \<open>composed\<close>, lines 230--272. A composed video goes through two
  temporary files; when \<open>ffmpeg\<close> fails the raw video is renamed into place.\<close>

definition composed_video ::
  "zip_env \<Rightarrow> string \<Rightarrow> string \<Rightarrow> string \<Rightarrow> bytes \<Rightarrow> bytes \<Rightarrow> datetime option \<Rightarrow> store \<Rightarrow> unit zstep" where
  "composed_video env d stem ext media ovd dobj st =
     (let tv = (d, out_name stem ''_temp'' ext); tov = (d, stem @ ''_temp_overlay.png'');
          cp = (d, out_name stem [] ext)
      in zbind (write_plain st tv media) (\<lambda>_ st1.
         zbind (write_plain st1 tov ovd) (\<lambda>_ st2.
           case compose_video env st2 tv tov cp of
             (True, st3) \<Rightarrow>
               zbind (remove_step st3 tv) (\<lambda>_ st4.
               zbind (remove_step st4 tov) (\<lambda>_ st5. (Inr (), set_file_date st5 cp dobj)))
           | (False, st3) \<Rightarrow>
               zbind (rename_step st3 tv cp) (\<lambda>_ st4.
                 let st5 = set_file_date st4 cp dobj in
                 if path_exists st5 tov then remove_step st5 tov else (Inr (), st5)))))"

definition mode_composed ::
  "zip_env \<Rightarrow> string \<Rightarrow> string \<Rightarrow> string \<Rightarrow> bytes \<Rightarrow> bytes option \<Rightarrow> datetime option \<Rightarrow> store \<Rightarrow> unit zstep" where
  "mode_composed env d stem ext media ov dobj st =
     (let cp = (d, out_name stem [] ext) in
      case ov of
        Some ovd \<Rightarrow>
          if ovd \<noteq> [] then
            (if is_image_ext ext then (Inr (), set_file_date (snd (compose_image env st media ovd cp)) cp dobj)
             else if is_video_ext ext then composed_video env d stem ext media ovd dobj st
             else write_dated st cp media dobj)
          else write_dated st cp media dobj
      | None \<Rightarrow> write_dated st cp media dobj)"

text \<open>Mode \<open>original\<close>, lines 274--279.\<close>

definition mode_original ::
  "string \<Rightarrow> string \<Rightarrow> string \<Rightarrow> bytes \<Rightarrow> datetime option \<Rightarrow> store \<Rightarrow> unit zstep" where
  "mode_original d stem ext media dobj st = write_dated st (d, out_name stem [] ext) media dobj"

text \<open>Mode \<open>both\<close>, lines 281--316.\<close>

definition both_video ::
  "zip_env \<Rightarrow> string \<Rightarrow> string \<Rightarrow> string \<Rightarrow> bytes \<Rightarrow> datetime option \<Rightarrow> store \<Rightarrow> unit zstep" where
  "both_video env d stem ext ovd dobj st =
     (let op = (d, out_name stem ''_original'' ext); tov = (d, stem @ ''_temp_overlay.png'');
          cp = (d, out_name stem ''_composed'' ext)
      in zbind (write_plain st tov ovd) (\<lambda>_ st1.
           case compose_video env st1 op tov cp of
             (True, st2) \<Rightarrow> zbind (remove_step st2 tov) (\<lambda>_ st3. (Inr (), set_file_date st3 cp dobj))
           | (False, st2) \<Rightarrow> if path_exists st2 tov then remove_step st2 tov else (Inr (), st2)))"

definition mode_both ::
  "zip_env \<Rightarrow> string \<Rightarrow> string \<Rightarrow> string \<Rightarrow> bytes \<Rightarrow> bytes option \<Rightarrow> datetime option \<Rightarrow> store \<Rightarrow> unit zstep" where
  "mode_both env d stem ext media ov dobj st =
     zbind (write_dated st (d, out_name stem ''_original'' ext) media dobj) (\<lambda>_ st1.
       case ov of
         Some ovd \<Rightarrow>
           if ovd \<noteq> [] then
             (if is_image_ext ext then
                (let cp = (d, out_name stem ''_composed'' ext) in
                 (Inr (), set_file_date (snd (compose_image env st1 media ovd cp)) cp dobj))
              else if is_video_ext ext then swallow (both_video env d stem ext ovd dobj st1)
              else (Inr (), st1))
           else (Inr (), st1)
       | None \<Rightarrow> (Inr (), st1))"

text \<open>The choice of the retention mode, lines 197--316; an unknown mode
  writes nothing.\<close>

definition run_mode ::
  "zip_env \<Rightarrow> zip_processor \<Rightarrow> string \<Rightarrow> string \<Rightarrow> string \<Rightarrow> bytes \<Rightarrow> bytes option \<Rightarrow> datetime option \<Rightarrow>
   store \<Rightarrow> unit zstep" where
  "run_mode env zp d stem ext media ov dobj st =
     (if zp_mode zp = ''all'' then mode_all env d stem ext media ov dobj st
      else if zp_mode zp = ''composed'' then mode_composed env d stem ext media ov dobj st
      else if zp_mode zp = ''original'' then mode_original d stem ext media dobj st
      else if zp_mode zp = ''both'' then mode_both env d stem ext media ov dobj st
      else (Inr (), st))"

text \<open>\<open>_process_single_zip_impl\<close>, lines 154--321: every exception is caught
  and gives \<open>False\<close>; a bundle without media gives \<open>False\<close> before any
  write; any mode, even an unknown one, ends in \<open>True\<close>.\<close>

definition process_single_zip_impl ::
  "zip_env \<Rightarrow> zip_processor \<Rightarrow> fpath \<Rightarrow> string \<Rightarrow> string \<Rightarrow> store \<Rightarrow> bool \<times> store" where
  "process_single_zip_impl env zp zpath d stem st =
     (let dobj = parse_date_from_filename stem in
      case file_at st zpath of
        None \<Rightarrow> (False, st)
      | Some zf \<Rightarrow>
          (case unzip env (content zf) of
             None \<Rightarrow> (False, st)
           | Some entries \<Rightarrow>
               (case classify (map fst entries) of
                  (None, _) \<Rightarrow> (False, st)
                | (Some mf, ovf) \<Rightarrow>
                    (case run_mode env zp d stem (media_ext mf) (zip_read entries mf)
                            (map_option (zip_read entries) ovf) dobj st of
                       (Inl _, st') \<Rightarrow> (False, st')
                     | (Inr _, st') \<Rightarrow> (True, st')))))"

text \<open>The body of \<open>check_already_processed\<close>, lines 46--58: a non-empty
  entry of the directory whose name starts with the stem and does not end in
  \<open>.zip\<close>.\<close>

fun any_nonempty :: "store \<Rightarrow> string \<Rightarrow> string list \<Rightarrow> bool result" where
  "any_nonempty st d [] = Inr False"
| "any_nonempty st d (f # fs) = ebind (getsize st (d, f)) (\<lambda>sz. if 0 < sz then Inr True else any_nonempty st d fs)"

definition check_already_processed_body :: "store \<Rightarrow> string \<Rightarrow> string \<Rightarrow> bool result" where
  "check_already_processed_body st tdir date_formatted =
     (if is_dir st tdir then
        any_nonempty st tdir
          (filter (\<lambda>f. prefix date_formatted f \<and> \<not> suffix ''.zip'' f) (listdir st tdir))
      else if list_ex (\<lambda>(q, _). full_path q = tdir) (files st)
      then Inl (OSError (''Not a directory: '' @ tdir))
      else Inr False)"

text \<open>\<open>check_already_processed\<close>, lines 43--58, as Python calls it: a
  \<open>@staticmethod\<close> declared with the three parameters \<open>self, target_dir,
  date_formatted\<close>, applied to its positional arguments.\<close>

definition check_already_processed :: "store \<Rightarrow> string list \<Rightarrow> bool result" where
  "check_already_processed st args =
     (case args of
        [_, tdir, dfmt] \<Rightarrow> check_already_processed_body st tdir dfmt
      | [_, _] \<Rightarrow>
          Inl (TypeError ''ZipProcessor.check_already_processed() missing 1 required positional argument: date_formatted'')
      | _ \<Rightarrow> Inl (TypeError ''ZipProcessor.check_already_processed() takes 3 positional arguments''))"

text \<open>What \<open>process_single_zip\<close> returns: \<open>'skipped'\<close>, the value of
  \<open>_process_single_zip_impl\<close>, \<open>False\<close>, or \<open>None\<close> when the loop does not run.\<close>

datatype zresult = ZSkipped | ZReturn bool | ZNone

fun truthy :: "zresult \<Rightarrow> bool" where
  "truthy ZSkipped = True"
| "truthy (ZReturn b) = b"
| "truthy ZNone = False"

text \<open>Lines 141--152, \<open>for attempt in range(MAX_RETRIES)\<close> around a call that
  returns a value or raises; the result also lists the sleeps.\<close>

fun zip_retry ::
  "net_config \<Rightarrow> (store \<Rightarrow> bool zstep) \<Rightarrow> nat list \<Rightarrow> store \<Rightarrow> zresult \<times> store \<times> nat list" where
  "zip_retry cfg body [] st = (ZNone, st, [])"
| "zip_retry cfg body (a # as) st =
     (case body st of
        (Inr b, st') \<Rightarrow> (ZReturn b, st', [])
      | (Inl e, st') \<Rightarrow>
          if a < max_retries cfg - 1
          then (case zip_retry cfg body as st' of (r, st'', sl) \<Rightarrow> (r, st'', retry_delay cfg * 2 ^ a # sl))
          else (ZReturn False, st', []))"

text \<open>\<open>process_single_zip\<close>, lines 137--152. The implementation catches
  every exception itself, so as the loop's body it always returns.\<close>

definition process_single_zip ::
  "zip_env \<Rightarrow> net_config \<Rightarrow> zip_processor \<Rightarrow> fpath \<Rightarrow> string \<Rightarrow> string \<Rightarrow> store \<Rightarrow>
   (zresult \<times> nat list) zstep" where
  "process_single_zip env cfg zp zpath d stem st =
     (case check_already_processed st [d, stem] of
        Inl e \<Rightarrow> (Inl e, st)
      | Inr True \<Rightarrow> (Inr (ZSkipped, []), st)
      | Inr False \<Rightarrow>
          (case zip_retry cfg (\<lambda>s. case process_single_zip_impl env zp zpath d stem s of (b, s') \<Rightarrow> (Inr b, s'))
                  [0..<max_retries cfg] st of
             (r, st', sl) \<Rightarrow> (Inr (r, sl), st')))"

text \<open>Lines 326--331: the \<open>.zip\<close> files under the output directory, as
  (directory, name). \<open>os.walk\<close> lists a directory's files in \<open>os.listdir\<close>
  order, which is store order here; the order across directories is the
  store's, which matters only to bundles of the same directory.\<close>

definition under_dir :: "string \<Rightarrow> string \<Rightarrow> bool" where
  "under_dir root d \<longleftrightarrow> d = root \<or> prefix (path_join root []) d"

definition walk_zips :: "store \<Rightarrow> string \<Rightarrow> fpath list" where
  "walk_zips st root = [p. (p, _) \<leftarrow> files st, under_dir root (fst p) \<and> suffix ''.zip'' (snd p)]"

text \<open>The counters of \<open>process_all\<close>, lines 339--342.\<close>

record zstats =
  processed_count :: nat
  zfailed_count :: nat
  images_count :: nat
  videos_count :: nat

definition zstats0 :: zstats where
  "zstats0 = \<lparr>processed_count = 0, zfailed_count = 0, images_count = 0, videos_count = 0\<rparr>"

definition zfail :: "zstats \<Rightarrow> zstats" where
  "zfail s = s\<lparr>zfailed_count := Suc (zfailed_count s)\<rparr>"

definition has_video_entry :: "string list \<Rightarrow> bool" where
  "has_video_entry names \<longleftrightarrow> list_ex (\<lambda>f. suffix ''.mp4'' (lower f) \<or> suffix ''.mov'' (lower f)) names"

text \<open>Lines 348--390, one bundle: the stem from the name, the image/video
  count from the archive's names, \<open>process_single_zip\<close>, and the removal of
  the bundle when the result is true. Every exception ends in the \<open>failed\<close>
  counter, also one raised by \<open>os.remove\<close> after \<open>processed_count\<close> was
  incremented.\<close>

definition process_bundle ::
  "zip_env \<Rightarrow> net_config \<Rightarrow> zip_processor \<Rightarrow> zstats \<times> store \<Rightarrow> fpath \<Rightarrow> zstats \<times> store" where
  "process_bundle env cfg zp acc p =
     (case acc of (s, st) \<Rightarrow>
       case date_match (snd p) of
         None \<Rightarrow> (zfail s, st)
       | Some stem \<Rightarrow>
           (case file_at st p of
              None \<Rightarrow> (zfail s, st)
            | Some zf \<Rightarrow>
                (case unzip env (content zf) of
                   None \<Rightarrow> (zfail s, st)
                 | Some entries \<Rightarrow>
                     let s1 = (if has_video_entry (map fst entries)
                               then s\<lparr>videos_count := Suc (videos_count s)\<rparr>
                               else s\<lparr>images_count := Suc (images_count s)\<rparr>)
                     in case process_single_zip env cfg zp p (fst p) stem st of
                          (Inl _, st') \<Rightarrow> (zfail s1, st')
                        | (Inr (r, _), st') \<Rightarrow>
                            if truthy r then
                              (let s2 = s1\<lparr>processed_count := Suc (processed_count s1)\<rparr> in
                               case remove_file st' p of
                                 Inl _ \<Rightarrow> (zfail s2, st')
                               | Inr st'' \<Rightarrow> (s2, st''))
                            else (zfail s1, st'))))"

text \<open>\<open>process_all\<close>, lines 323--390.\<close>

definition process_all :: "zip_env \<Rightarrow> net_config \<Rightarrow> zip_processor \<Rightarrow> store \<Rightarrow> zstats \<times> store" where
  "process_all env cfg zp st =
     (let zs = walk_zips st (zp_output_dir zp) in
      if zs = [] then (zstats0, st) else foldl (process_bundle env cfg zp) (zstats0, st) zs)"

text \<open>The region a bundle's processing may touch: the files of its directory
  whose names start with its stem. \<open>frame_ok\<close> says that every file
  outside the region is as it was.\<close>

definition in_region :: "string \<Rightarrow> string \<Rightarrow> fpath \<Rightarrow> bool" where
  "in_region d stem q \<longleftrightarrow> fst q = d \<and> prefix stem (snd q)"

definition frame_ok :: "string \<Rightarrow> string \<Rightarrow> store \<Rightarrow> store \<Rightarrow> bool" where
  "frame_ok d stem st st' \<longleftrightarrow> (\<forall>q. \<not> in_region d stem q \<longrightarrow> file_at st' q = file_at st q)"

lemmas zip_eval [model_eval] =
  zbind_def swallow_def zip_read_def set_file_date_def write_dated_def write_plain_def remove_step_def
  rename_step_def compose_image_def compose_video_def out_name_def mode_all_def composed_video_def
  mode_composed_def mode_original_def both_video_def mode_both_def run_mode_def process_single_zip_impl_def
  check_already_processed_body_def check_already_processed_def process_single_zip_def under_dir_def
  walk_zips_def zstats0_def zfail_def has_video_entry_def process_bundle_def process_all_def

text \<open>A concrete bundle for the examples: an archive with a JPEG and an overlay,
  compositors that fail.\<close>

abbreviation ex_zenv :: zip_env where
  "ex_zenv \<equiv> \<lparr>unzip = (\<lambda>b. if b = [9] then Some [(''m.jpg'', [1, 2]), (''overlay.png'', [3])] else None),
     img_comp = (\<lambda>_ _ _. None), vid_comp = (\<lambda>_ _. None)\<rparr>"

abbreviation ex_zp :: zip_processor where
  "ex_zp \<equiv> \<lparr>zp_output_dir = ''out'', zp_mode = ''composed'', zp_filename_format = ''1''\<rparr>"

abbreviation ex_zst :: store where
  "ex_zst \<equiv> \<lparr>files = [((''out'', ''20251215_213158.zip''), \<lparr>content = [9], mtime = None\<rparr>)],
     dirs = [''out''], dir_size = 4096\<rparr>"

text \<open>A video bundle beside an unrelated file whose name is that of a
  temporary file.\<close>

abbreviation ex_venv :: zip_env where
  "ex_venv \<equiv> ex_zenv\<lparr>unzip := \<lambda>_. Some [(''m.mp4'', [1, 2]), (''overlay.png'', [3])]\<rparr>"

abbreviation ex_zst2 :: store where
  "ex_zst2 \<equiv> ex_zst\<lparr>files := files ex_zst @ [((''out'', ''temp_overlay.png''), \<lparr>content = [7], mtime = None\<rparr>)]\<rparr>"

section \<open>Lemmas\<close>

subsection \<open>The frame of one bundle\<close>

lemma frame_ok_refl [simp]: "frame_ok d stem st st"
  by (simp add: frame_ok_def)

lemma frame_ok_trans: "frame_ok d stem st1 st2 \<Longrightarrow> frame_ok d stem st2 st3 \<Longrightarrow> frame_ok d stem st1 st3"
  by (simp add: frame_ok_def)

lemma frame_ok_files_update:
  "in_region d stem p \<Longrightarrow> frame_ok d stem st (st\<lparr>files := AList.update p f (files st)\<rparr>)"
  by (auto simp: frame_ok_def)

lemma frame_ok_files_delete:
  "in_region d stem p \<Longrightarrow> frame_ok d stem st (st\<lparr>files := AList.delete p (files st)\<rparr>)"
  by (auto simp: frame_ok_def)

lemma frame_write_file:
  "write_file st p c = Inr st' \<Longrightarrow> in_region d stem p \<Longrightarrow> frame_ok d stem st st'"
  by (auto simp: write_file_def frame_ok_files_update split: if_splits)

lemma frame_utime:
  "utime st p t = Inr st' \<Longrightarrow> in_region d stem p \<Longrightarrow> frame_ok d stem st st'"
  by (auto simp: utime_def frame_ok_files_update split: option.splits)

lemma frame_remove_file:
  "remove_file st p = Inr st' \<Longrightarrow> in_region d stem p \<Longrightarrow> frame_ok d stem st st'"
  by (auto simp: remove_file_def frame_ok_files_delete split: if_splits)

lemma frame_rename_file:
  "rename_file st p q = Inr st' \<Longrightarrow> in_region d stem p \<Longrightarrow> in_region d stem q \<Longrightarrow> frame_ok d stem st st'"
  by (auto simp: rename_file_def frame_ok_def file_at_def update_conv' delete_conv' split: option.splits if_splits)

lemma frame_set_file_date: "in_region d stem p \<Longrightarrow> frame_ok d stem st (set_file_date st p dobj)"
  by (auto simp: set_file_date_def split: option.splits sum.splits dest: frame_utime)

lemma frame_write_dated: "in_region d stem p \<Longrightarrow> frame_ok d stem st (snd (write_dated st p c dobj))"
  by (auto simp: write_dated_def split: sum.splits
      intro: frame_ok_trans [OF frame_write_file frame_set_file_date])

lemma frame_write_plain: "in_region d stem p \<Longrightarrow> frame_ok d stem st (snd (write_plain st p c))"
  by (auto simp: write_plain_def split: sum.splits dest: frame_write_file)

lemma frame_remove_step: "in_region d stem p \<Longrightarrow> frame_ok d stem st (snd (remove_step st p))"
  by (auto simp: remove_step_def split: sum.splits dest: frame_remove_file)

lemma frame_rename_step:
  "in_region d stem p \<Longrightarrow> in_region d stem q \<Longrightarrow> frame_ok d stem st (snd (rename_step st p q))"
  by (auto simp: rename_step_def split: sum.splits dest: frame_rename_file)

lemma frame_compose_image: "in_region d stem p \<Longrightarrow> frame_ok d stem st (snd (compose_image env st m ov p))"
  by (auto simp: compose_image_def split: option.splits sum.splits dest: frame_write_file)

lemma frame_compose_video: "in_region d stem p \<Longrightarrow> frame_ok d stem st (snd (compose_video env st a b p))"
  by (auto simp: compose_video_def split: option.splits sum.splits dest: frame_write_file)

lemma frame_zbind:
  assumes "frame_ok d stem st (snd r)"
    and "\<And>a s. fst r = Inr a \<Longrightarrow> frame_ok d stem s (snd (f a s))"
  shows "frame_ok d stem st (snd (zbind r f))"
  using assms by (cases r) (auto simp: zbind_def split: sum.splits intro: frame_ok_trans)

lemma in_region_out_name [simp]: "in_region d stem (d, out_name stem tag ext)"
  by (simp add: in_region_def out_name_def)

lemma in_region_stem_app [simp]: "in_region d stem (d, stem @ tag)"
  by (simp add: in_region_def)

lemma frame_compose_image_dated:
  "in_region d stem p \<Longrightarrow> frame_ok d stem st (set_file_date (snd (compose_image env st m ov p)) p dobj)"
  by (rule frame_ok_trans [OF frame_compose_image frame_set_file_date])

lemma frame_compose_video_dated:
  "in_region d stem p \<Longrightarrow> frame_ok d stem st (set_file_date (snd (compose_video env st a b p)) p dobj)"
  by (rule frame_ok_trans [OF frame_compose_video frame_set_file_date])

lemma frame_mode_original: "frame_ok d stem st (snd (mode_original d stem ext media dobj st))"
  by (simp add: mode_original_def frame_write_dated)

lemma frame_mode_all: "frame_ok d stem st (snd (mode_all env d stem ext media ov dobj st))"
  unfolding mode_all_def Let_def
  by (rule frame_zbind)
     (auto intro!: frame_write_dated frame_zbind
       simp: frame_compose_image_dated frame_compose_video_dated split: option.splits)

lemma frame_compose_video_eq:
  "compose_video env st a b p = (r, st') \<Longrightarrow> in_region d stem p \<Longrightarrow> frame_ok d stem st st'"
  using frame_compose_video [of d stem p st env a b] by simp

lemma frame_composed_video: "frame_ok d stem st (snd (composed_video env d stem ext media ovd dobj st))"
  unfolding composed_video_def Let_def
  apply (intro frame_zbind frame_write_plain in_region_out_name in_region_stem_app)
  subgoal for a1 s1 a2 s2
  proof -
    let ?tv = "(d, out_name stem ''_temp'' ext)" and ?tov = "(d, stem @ ''_temp_overlay.png'')"
      and ?cp = "(d, out_name stem [] ext)"
    obtain b s3 where c: "compose_video env s2 ?tv ?tov ?cp = (b, s3)" by fastforce
    have f3: "frame_ok d stem s2 s3" using c by (rule frame_compose_video_eq) simp
    have t1: "frame_ok d stem s3 (snd (zbind (remove_step s3 ?tv)
        (\<lambda>_ st4. zbind (remove_step st4 ?tov) (\<lambda>_ st5. (Inr (), set_file_date st5 ?cp dobj)))))"
      by (intro frame_zbind frame_remove_step in_region_out_name in_region_stem_app)
         (simp_all add: frame_set_file_date)
    have t2: "frame_ok d stem s3 (snd (zbind (rename_step s3 ?tv ?cp)
        (\<lambda>_ st4. if path_exists (set_file_date st4 ?cp dobj) ?tov
                  then remove_step (set_file_date st4 ?cp dobj) ?tov else (Inr (), set_file_date st4 ?cp dobj))))"
      by (intro frame_zbind frame_rename_step in_region_out_name)
         (auto intro: frame_ok_trans [OF frame_set_file_date frame_remove_step] frame_set_file_date)
    show ?thesis using c f3 t1 t2 by (cases b) (auto intro: frame_ok_trans)
  qed
  done

lemma frame_mode_composed: "frame_ok d stem st (snd (mode_composed env d stem ext media ov dobj st))"
  by (auto simp: mode_composed_def Let_def frame_write_dated frame_compose_image_dated frame_composed_video
      split: option.splits)

lemma frame_both_video: "frame_ok d stem st (snd (both_video env d stem ext ovd dobj st))"
  unfolding both_video_def Let_def
  apply (intro frame_zbind frame_write_plain in_region_stem_app)
  subgoal for a1 s1
  proof -
    let ?op = "(d, out_name stem ''_original'' ext)" and ?tov = "(d, stem @ ''_temp_overlay.png'')"
      and ?cp = "(d, out_name stem ''_composed'' ext)"
    obtain b s2 where c: "compose_video env s1 ?op ?tov ?cp = (b, s2)" by fastforce
    have f2: "frame_ok d stem s1 s2" using c by (rule frame_compose_video_eq) simp
    have t1: "frame_ok d stem s2 (snd (zbind (remove_step s2 ?tov) (\<lambda>_ st3. (Inr (), set_file_date st3 ?cp dobj))))"
      by (intro frame_zbind frame_remove_step in_region_stem_app) (simp_all add: frame_set_file_date)
    have t2: "frame_ok d stem s2 (snd (if path_exists s2 ?tov then remove_step s2 ?tov else (Inr (), s2)))"
      by (simp add: frame_remove_step)
    show ?thesis using c f2 t1 t2 by (cases b) (auto intro: frame_ok_trans)
  qed
  done

lemma swallow_store [simp]: "snd (swallow r) = snd r"
  by (auto simp: swallow_def split: prod.splits sum.splits)

lemma frame_mode_both: "frame_ok d stem st (snd (mode_both env d stem ext media ov dobj st))"
  unfolding mode_both_def Let_def
  by (intro frame_zbind frame_write_dated in_region_out_name)
     (auto simp: frame_compose_image_dated frame_both_video split: option.splits)

lemma frame_run_mode: "frame_ok d stem st (snd (run_mode env zp d stem ext media ov dobj st))"
  by (simp add: run_mode_def frame_mode_all frame_mode_composed frame_mode_original frame_mode_both)

lemma frame_impl:
  "frame_ok d stem st (snd (process_single_zip_impl env zp zpath d stem st))"
proof -
  have "frame_ok d stem st (snd (case run_mode env zp d stem ext media ov dobj st of
           (Inl _, st') \<Rightarrow> (False, st') | (Inr _, st') \<Rightarrow> (True, st')))" for ext media ov dobj
    using frame_run_mode [of d stem st env zp ext media ov dobj]
    by (auto split: prod.splits sum.splits)
  then show ?thesis
    unfolding process_single_zip_impl_def Let_def by (auto split: option.splits prod.splits)
qed

subsection \<open>Outputs of the modes and the bundle loop\<close>

lemma impl_media:
  assumes "file_at st zpath = Some zf" and "unzip env (content zf) = Some entries"
    and "classify (map fst entries) = (Some mf, ovf)"
  shows "process_single_zip_impl env zp zpath d stem st =
     (case run_mode env zp d stem (media_ext mf) (zip_read entries mf) (map_option (zip_read entries) ovf)
             (parse_date_from_filename stem) st of
        (Inl _, st') \<Rightarrow> (False, st') | (Inr _, st') \<Rightarrow> (True, st'))"
  using assms by (simp add: process_single_zip_impl_def)

lemma set_file_date_content:
  "map_option content (file_at (set_file_date st p dobj) q) = map_option content (file_at st q)"
  by (auto simp: set_file_date_def utime_def split: option.splits sum.splits)

lemma set_file_date_dirs [simp]: "dirs (set_file_date st p dobj) = dirs st"
  by (auto simp: set_file_date_def utime_def split: option.splits sum.splits)

lemma write_dated_ok:
  assumes "is_dir st (fst p)" and "\<not> is_dir st (full_path p)"
  shows "fst (write_dated st p c dobj) = Inr ()
       \<and> map_option content (file_at (snd (write_dated st p c dobj)) p) = Some c"
  using assms set_file_date_content [of "st\<lparr>files := AList.update p \<lparr>content = c, mtime = None\<rparr> (files st)\<rparr>" p dobj p]
  by (simp add: write_dated_def write_file_def)

lemma file_at_set_file_date_None:
  "file_at (set_file_date st p dobj) q = None \<longleftrightarrow> file_at st q = None"
  using set_file_date_content [of st p dobj q] by (cases "file_at st q"; cases "file_at (set_file_date st p dobj) q") auto

lemma is_dir_set_file_date [simp]: "is_dir (set_file_date st p dobj) x = is_dir st x"
  by (simp add: is_dir_def)

lemma process_single_zip_type_error:
  "process_single_zip env cfg zp zpath d stem st =
     (Inl (TypeError ''ZipProcessor.check_already_processed() missing 1 required positional argument: date_formatted''), st)"
  by (simp add: process_single_zip_def check_already_processed_def)

lemma process_bundle_fails:
  "process_bundle env cfg zp (s, st) p = (s', st') \<Longrightarrow>
   st' = st \<and> processed_count s' = processed_count s \<and> zfailed_count s' = Suc (zfailed_count s)"
  by (auto simp: process_bundle_def process_single_zip_type_error zfail_def Let_def
      split: option.splits if_splits)

lemma foldl_process_bundle_fails:
  "foldl (process_bundle env cfg zp) (s, st) zs = (s', st') \<Longrightarrow>
   st' = st \<and> processed_count s' = processed_count s \<and> zfailed_count s' = zfailed_count s + length zs"
proof (induction zs arbitrary: s)
  case Nil
  then show ?case by simp
next
  case (Cons p zs)
  obtain s1 st1 where r: "process_bundle env cfg zp (s, st) p = (s1, st1)" by fastforce
  then have "st1 = st \<and> processed_count s1 = processed_count s \<and> zfailed_count s1 = Suc (zfailed_count s)"
    by (rule process_bundle_fails)
  moreover have "foldl (process_bundle env cfg zp) (s1, st) zs = (s', st')"
    using Cons.prems r calculation by simp
  ultimately show ?case using Cons.IH by fastforce
qed

lemma process_all_store: "snd (process_all env cfg zp st) = st"
proof (cases "walk_zips st (zp_output_dir zp) = []")
  case True
  then show ?thesis by (simp add: process_all_def)
next
  case False
  obtain s st' where r: "foldl (process_bundle env cfg zp) (zstats0, st) (walk_zips st (zp_output_dir zp)) = (s, st')"
    by fastforce
  then show ?thesis using False foldl_process_bundle_fails [OF r] by (simp add: process_all_def)
qed

lemma set_file_date_absent: "\<not> path_exists st p \<Longrightarrow> set_file_date st p dobj = st"
  by (simp add: set_file_date_def split: option.split)

subsection \<open>The example bundle\<close>

lemma ex_classify: "classify [''m.jpg'', ''overlay.png''] = (Some ''m.jpg'', Some ''overlay.png'')"
  by code_simp

lemma ex_media_ext: "media_ext ''m.jpg'' = ''jpg''"
  by code_simp

lemma ex_classify_media: "classify [''m.jpg''] = (Some ''m.jpg'', None)"
  by code_simp

section \<open>Properties\<close>

text \<open>C8. Every call of \<open>check_already_processed\<close> in \<open>process_single_zip\<close>
  (line 138) passes two arguments to a static method declared with three, so
  it raises \<open>TypeError\<close>: \<open>process_all\<close> processes no bundle, changes no
  file, and counts every bundle under the output directory as failed.\<close>

theorem process_all_processes_nothing:
  assumes "process_all env cfg zp st = (s, st')"
  shows "st' = st \<and> processed_count s = 0 \<and> zfailed_count s = length (walk_zips st (zp_output_dir zp))"
proof (cases "walk_zips st (zp_output_dir zp) = []")
  case True
  then show ?thesis using assms by (auto simp: process_all_def zstats0_def)
next
  case False
  then have "foldl (process_bundle env cfg zp) (zstats0, st) (walk_zips st (zp_output_dir zp)) = (s, st')"
    using assms by (simp add: process_all_def)
  then show ?thesis by (auto dest: foldl_process_bundle_fails simp: zstats0_def)
qed

theorem process_all_processes_nothing_witness:
  "snd (process_all ex_zenv ex_cfg ex_zp ex_zst) = ex_zst
   \<and> processed_count (fst (process_all ex_zenv ex_cfg ex_zp ex_zst)) = 0
   \<and> zfailed_count (fst (process_all ex_zenv ex_cfg ex_zp ex_zst)) = 1"
  using process_all_processes_nothing [OF prod.collapse [symmetric], of ex_zenv ex_cfg ex_zp ex_zst]
  by (simp add: walk_zips_def under_dir_def str_ops_eval)

text \<open>C9. In mode \<open>composed\<close>, when the image composition fails,
  \<open>_process_single_zip_impl\<close> writes nothing and still returns \<open>True\<close>
  (lines 232--237), so the caller would delete the bundle and the memory's
  media would be lost.\<close>

theorem composed_image_failure_returns_true:
  assumes "zp_mode zp = ''composed''" and "file_at st zpath = Some zf"
    and "unzip env (content zf) = Some entries" and "classify (map fst entries) = (Some mf, Some ovf)"
    and "zip_read entries ovf \<noteq> []" and "is_image_ext (media_ext mf)"
    and "img_comp env (zip_read entries mf) (zip_read entries ovf)
           (suffix ''.jpg'' (lower (full_path (d, out_name stem [] (media_ext mf))))) = None"
    and "\<not> path_exists st (d, out_name stem [] (media_ext mf))"
  shows "process_single_zip_impl env zp zpath d stem st = (True, st)"
  using assms by (simp add: impl_media [OF assms(2-4)] run_mode_def mode_composed_def compose_image_def
      set_file_date_absent)

theorem composed_image_failure_returns_true_witness:
  "process_single_zip_impl ex_zenv ex_zp (''out'', ''20251215_213158.zip'') ''out'' ''20251215_213158'' ex_zst
   = (True, ex_zst)"
  by (rule composed_image_failure_returns_true [where zf = "\<lparr>content = [9], mtime = None\<rparr>"
        and entries = "[(''m.jpg'', [1, 2]), (''overlay.png'', [3])]" and mf = "''m.jpg''" and ovf = "''overlay.png''"])
    (simp_all add: ex_classify ex_media_ext file_at_def zip_read_def is_image_ext_def path_exists_def out_name_def is_dir_def full_path_def path_join_def suffix_to_prefix)

text \<open>C24. In mode \<open>composed\<close>, a bundle with media and no PNG overlay is
  processed successfully and its media is written unchanged to
  \<open>stem.ext\<close> (lines 261--272).\<close>

theorem composed_without_overlay_keeps_media:
  assumes "zp_mode zp = ''composed''" and "file_at st zpath = Some zf"
    and "unzip env (content zf) = Some entries" and "classify (map fst entries) = (Some mf, None)"
    and "is_dir st d" and "\<not> is_dir st (full_path (d, out_name stem [] (media_ext mf)))"
  shows "fst (process_single_zip_impl env zp zpath d stem st)
       \<and> map_option content (file_at (snd (process_single_zip_impl env zp zpath d stem st))
                                 (d, out_name stem [] (media_ext mf)))
         = Some (zip_read entries mf)"
proof -
  let ?p = "(d, out_name stem [] (media_ext mf))"
  have w: "fst (write_dated st ?p (zip_read entries mf) (parse_date_from_filename stem)) = Inr ()
     \<and> map_option content (file_at (snd (write_dated st ?p (zip_read entries mf) (parse_date_from_filename stem))) ?p)
       = Some (zip_read entries mf)"
    using assms(5,6) by (intro write_dated_ok) simp_all
  obtain r s where e: "write_dated st ?p (zip_read entries mf) (parse_date_from_filename stem) = (r, s)"
    by fastforce
  show ?thesis
    using w e assms(1) by (simp add: impl_media [OF assms(2-4)] run_mode_def mode_composed_def)
qed

theorem composed_without_overlay_keeps_media_witness:
  "fst (process_single_zip_impl (ex_zenv\<lparr>unzip := \<lambda>_. Some [(''m.jpg'', [1, 2])]\<rparr>) ex_zp
          (''out'', ''20251215_213158.zip'') ''out'' ''20251215_213158'' ex_zst)
   \<and> map_option content (file_at (snd (process_single_zip_impl (ex_zenv\<lparr>unzip := \<lambda>_. Some [(''m.jpg'', [1, 2])]\<rparr>) ex_zp
          (''out'', ''20251215_213158.zip'') ''out'' ''20251215_213158'' ex_zst)) (''out'', ''20251215_213158.jpg''))
     = Some [1, 2]"
  using composed_without_overlay_keeps_media [where zf = "\<lparr>content = [9], mtime = None\<rparr>"
        and entries = "[(''m.jpg'', [1, 2])]" and mf = "''m.jpg''"
        and env = "ex_zenv\<lparr>unzip := \<lambda>_. Some [(''m.jpg'', [1, 2])]\<rparr>" and zp = ex_zp and st = ex_zst
        and zpath = "(''out'', ''20251215_213158.zip'')" and d = "''out''" and stem = "''20251215_213158''"]
  by (simp add: ex_classify_media ex_media_ext file_at_def zip_read_def is_dir_def out_name_def full_path_def path_join_def suffix_to_prefix)

text \<open>C25. When \<open>ffmpeg\<close> fails in mode \<open>composed\<close> the raw video is renamed
  to \<open>stem.mp4\<close> and both temporary files are gone afterwards (lines
  238--260): the temporary overlay is cleaned up on the fallback path too.
  The three names must not be directories: \<open>open(..., 'wb')\<close> and
  \<open>os.rename\<close> raise \<open>IsADirectoryError\<close> on one.\<close>

lemma composed_video_fallback:
  assumes "vid_comp env media ovd = None" and "is_dir st d"
    and "\<not> is_dir st (full_path (d, out_name stem ''_temp'' ''mp4''))"
    and "\<not> is_dir st (full_path (d, stem @ ''_temp_overlay.png''))"
    and "\<not> is_dir st (full_path (d, out_name stem [] ''mp4''))"
  shows "fst (composed_video env d stem ''mp4'' media ovd dobj st) = Inr ()
       \<and> map_option content (file_at (snd (composed_video env d stem ''mp4'' media ovd dobj st)) (d, out_name stem [] ''mp4'')) = Some media
       \<and> file_at (snd (composed_video env d stem ''mp4'' media ovd dobj st)) (d, out_name stem ''_temp'' ''mp4'') = None
       \<and> file_at (snd (composed_video env d stem ''mp4'' media ovd dobj st)) (d, stem @ ''_temp_overlay.png'') = None"
proof -
  let ?tv = "(d, out_name stem ''_temp'' ''mp4'')" and ?tov = "(d, stem @ ''_temp_overlay.png'')"
    and ?cp = "(d, out_name stem [] ''mp4'')"
  have ne: "?tv \<noteq> ?tov" "?tv \<noteq> ?cp" "?tov \<noteq> ?cp" by (simp_all add: out_name_def)
  define st1 where "st1 = st\<lparr>files := AList.update ?tv \<lparr>content = media, mtime = None\<rparr> (files st)\<rparr>"
  define st2 where "st2 = st1\<lparr>files := AList.update ?tov \<lparr>content = ovd, mtime = None\<rparr> (files st1)\<rparr>"
  have w1: "write_plain st ?tv media = (Inr (), st1)"
    using assms(2,3) by (simp add: write_plain_def write_file_def st1_def)
  have w2: "write_plain st1 ?tov ovd = (Inr (), st2)"
    using assms(2,4) by (simp add: write_plain_def write_file_def st1_def st2_def is_dir_def)
  have fa2: "file_at st2 q = (if q = ?tov then Some \<lparr>content = ovd, mtime = None\<rparr>
      else if q = ?tv then Some \<lparr>content = media, mtime = None\<rparr> else file_at st q)" for q
    by (simp add: st2_def st1_def file_at_def update_conv')
  have cv: "compose_video env st2 ?tv ?tov ?cp = (False, st2)"
    using assms(1) ne by (simp add: compose_video_def fa2)
  define st3 where "st3 = st2\<lparr>files := AList.update ?cp \<lparr>content = media, mtime = None\<rparr> (AList.delete ?tv (files st2))\<rparr>"
  have dir2: "is_dir st2 d" using assms(2) by (simp add: st2_def st1_def is_dir_def)
  have nd: "\<not> is_dir st2 (full_path ?cp)" using assms(5) by (simp add: st2_def st1_def is_dir_def)
  have rn: "rename_step st2 ?tv ?cp = (Inr (), st3)"
    using dir2 ne nd by (simp add: rename_step_def rename_file_def fa2 st3_def)
  have fa3: "file_at st3 q = (if q = ?cp then Some \<lparr>content = media, mtime = None\<rparr> else if q = ?tv then None else file_at st2 q)" for q
    by (simp add: st3_def file_at_def update_conv' delete_conv')
  define st4 where "st4 = set_file_date st3 ?cp dobj"
  have ex4: "path_exists st4 ?tov"
    using ne fa3 fa2 file_at_set_file_date_None [of st3 ?cp dobj ?tov] by (simp add: st4_def path_exists_def)
  obtain f4 where f4: "file_at st4 ?tov = Some f4" using ex4 ne fa3 fa2 file_at_set_file_date_None [of st3 ?cp dobj ?tov]
    by (simp add: st4_def) (metis option.exhaust)
  define st5 where "st5 = st4\<lparr>files := AList.delete ?tov (files st4)\<rparr>"
  have rm: "remove_step st4 ?tov = (Inr (), st5)" using f4 by (simp add: remove_step_def remove_file_def st5_def)
  have run: "composed_video env d stem ''mp4'' media ovd dobj st = (Inr (), st5)"
    unfolding composed_video_def Let_def using w1 w2 cv rn ex4 rm by (simp add: zbind_def st4_def)
  have c5: "map_option content (file_at st5 ?cp) = Some media"
    using ne set_file_date_content [of st3 ?cp dobj ?cp] fa3 by (simp add: st5_def st4_def)
  have t5: "file_at st5 ?tv = None"
    using ne fa3 file_at_set_file_date_None [of st3 ?cp dobj ?tv] by (simp add: st5_def st4_def)
  have o5: "file_at st5 ?tov = None" by (simp add: st5_def)
  show ?thesis using run c5 t5 o5 by simp
qed

theorem composed_video_fallback_witness:
  "fst (composed_video ex_zenv ''out'' ''s'' ''mp4'' [1, 2] [3] None ex_zst) = Inr ()
   \<and> map_option content (file_at (snd (composed_video ex_zenv ''out'' ''s'' ''mp4'' [1, 2] [3] None ex_zst)) (''out'', ''s.mp4'')) = Some [1, 2]
   \<and> file_at (snd (composed_video ex_zenv ''out'' ''s'' ''mp4'' [1, 2] [3] None ex_zst)) (''out'', ''s_temp.mp4'') = None
   \<and> file_at (snd (composed_video ex_zenv ''out'' ''s'' ''mp4'' [1, 2] [3] None ex_zst)) (''out'', ''s_temp_overlay.png'') = None"
  using composed_video_fallback [of ex_zenv "[1, 2]" "[3]" ex_zst "''out''" "''s''" None]
  by (simp add: is_dir_def out_name_def full_path_def path_join_def suffix_to_prefix)

text \<open>C10. Processing one bundle changes no file outside its region: every
  file of another directory, or whose name does not start with the bundle's
  date stem, keeps its content and timestamp, in every mode and on every
  error path (lines 154--321).\<close>

theorem impl_outside_region_unchanged:
  "\<not> in_region d stem q \<Longrightarrow>
   file_at (snd (process_single_zip_impl env zp zpath d stem st)) q = file_at st q"
  using frame_impl [of d stem st env zp zpath] unfolding frame_ok_def by blast

theorem impl_outside_region_unchanged_witness:
  "file_at (snd (process_single_zip_impl ex_venv ex_zp (''out'', ''20251215_213158.zip'') ''out'' ''20251215_213158'' ex_zst2))
     (''out'', ''temp_overlay.png'')
   = Some \<lparr>content = [7], mtime = None\<rparr>"
  using impl_outside_region_unchanged [of "''out''" "''20251215_213158''" "(''out'', ''temp_overlay.png'')"
      ex_venv ex_zp "(''out'', ''20251215_213158.zip'')" ex_zst2]
  by (simp add: in_region_def file_at_def)

text \<open>C26. \<open>_process_single_zip_impl\<close> catches every exception itself, so the
  retry loop of \<open>process_single_zip\<close> (lines 141--152) runs its body once and
  never sleeps: its result is the implementation's first result.\<close>

theorem impl_never_retried:
  "0 < max_retries cfg \<Longrightarrow>
   zip_retry cfg (\<lambda>s. case process_single_zip_impl env zp zpath d stem s of (b, s') \<Rightarrow> (Inr b, s'))
     [0..<max_retries cfg] st
   = (ZReturn (fst (process_single_zip_impl env zp zpath d stem st)),
      snd (process_single_zip_impl env zp zpath d stem st), [])"
proof -
  assume "0 < max_retries cfg"
  moreover obtain b s' where "process_single_zip_impl env zp zpath d stem st = (b, s')" by fastforce
  ultimately show ?thesis by (simp add: upt_conv_Cons)
qed

theorem impl_never_retried_witness:
  "zip_retry ex_cfg (\<lambda>s. case process_single_zip_impl ex_zenv ex_zp (''out'', ''20251215_213158.zip'') ''out'' ''20251215_213158'' s of (b, s') \<Rightarrow> (Inr b, s'))
     [0..<max_retries ex_cfg] ex_zst
   = (ZReturn (fst (process_single_zip_impl ex_zenv ex_zp (''out'', ''20251215_213158.zip'') ''out'' ''20251215_213158'' ex_zst)),
      snd (process_single_zip_impl ex_zenv ex_zp (''out'', ''20251215_213158.zip'') ''out'' ''20251215_213158'' ex_zst), [])"
  by (rule impl_never_retried) simp

end
