(* ===== verification/Console.thy ===== *)
theory Console
  imports Prelude
begin

text \<open>
  The interactive part of the program: \<open>Colors\<close> and \<open>print_color\<close>
  (\<open>src/src/utils.py\<close>, lines 1--11), the prompts \<open>ask_organization_mode\<close> and
  \<open>ask_filename_format\<close> (lines 20--52) and \<open>ZipProcessor.ask_processing_mode\<close>
  (\<open>src/src/zip_processor.py\<close>, lines 60--90). The console is a record: the
  lines the user will type, without their newline, and the bytes written to
  standard output so far (UTF-8, so an emoji is several bytes). \<open>input(p)\<close>
  writes \<open>p\<close>, then takes the next line, or raises \<open>EOFError\<close> when there is
  none. Each prompt loops until a line, stripped, is one of its choices; the
  loop is recursion over the remaining input, one line per iteration.
\<close>

record console =
  inp :: "string list"
  outp :: string

definition utf8 :: "nat list \<Rightarrow> string" where
  "utf8 bs = map char_of bs"

definition NL :: string where
  "NL = [CHR 0x0A]"

definition esc :: string where
  "esc = [CHR 0x1B]"

text \<open>\<open>class Colors\<close>, lines 1--8.\<close>

definition GREEN :: string where "GREEN = esc @ ''[0;32m''"
definition BLUE :: string where "BLUE = esc @ ''[0;34m''"
definition RED :: string where "RED = esc @ ''[0;31m''"
definition YELLOW :: string where "YELLOW = esc @ ''[1;33m''"
definition CYAN :: string where "CYAN = esc @ ''[0;36m''"
definition BOLD :: string where "BOLD = esc @ ''[1m''"
definition RESET :: string where "RESET = esc @ ''[0m''"

text \<open>\<open>print(s)\<close> and \<open>print_color\<close>, lines 10--11.\<close>

definition print_line :: "string \<Rightarrow> console \<Rightarrow> console" where
  "print_line s con = con\<lparr>outp := outp con @ s @ NL\<rparr>"

definition print_color :: "string \<Rightarrow> string \<Rightarrow> console \<Rightarrow> console" where
  "print_color text color con = print_line (color @ text @ RESET) con"

text \<open>The text \<open>print_color\<close> writes, and several \<open>print\<close> calls in a row.\<close>

definition colored :: "string \<Rightarrow> string \<Rightarrow> string" where
  "colored text color = color @ text @ RESET"

definition print_lines :: "string list \<Rightarrow> console \<Rightarrow> console" where
  "print_lines ls con = con\<lparr>outp := outp con @ concat (map (\<lambda>l. l @ NL) ls)\<rparr>"

text \<open>\<open>"=" * 80\<close>.\<close>

definition rule80 :: string where
  "rule80 = replicate 80 (CHR ''='')"

text \<open>The \<open>while True\<close> loop of a prompt: \<open>input(p).strip()\<close>, the choice
  of the stripped line, or the red error message and the next iteration.
  The result is the chosen value or \<open>EOFError\<close>, the unread lines and the
  output.\<close>

fun prompt_loop ::
  "string \<Rightarrow> (string \<Rightarrow> string option) \<Rightarrow> string \<Rightarrow> string list \<Rightarrow> string \<Rightarrow> string result \<times> string list \<times> string" where
  "prompt_loop p ch err [] out = (Inl EOFError, [], out @ p)"
| "prompt_loop p ch err (l # ls) out =
     (case ch (py_strip l) of
        Some v \<Rightarrow> (Inr v, ls, out @ p)
      | None \<Rightarrow> prompt_loop p ch err ls (out @ p @ RED @ err @ RESET @ NL))"

definition run_prompt ::
  "string \<Rightarrow> (string \<Rightarrow> string option) \<Rightarrow> string \<Rightarrow> console \<Rightarrow> string result \<times> console" where
  "run_prompt p ch err con =
     (case prompt_loop p ch err (inp con) (outp con) of (r, ls, out) \<Rightarrow> (r, \<lparr>inp = ls, outp = out\<rparr>))"

definition choice_prompt :: "string \<Rightarrow> string" where
  "choice_prompt rng = NL @ BOLD @ ''Your choice ['' @ rng @ '']:'' @ RESET @ '' ''"

definition menu_item :: "string \<Rightarrow> string \<Rightarrow> string" where
  "menu_item k text = CYAN @ k @ ''.'' @ RESET @ '' '' @ text"

definition print_header :: "string \<Rightarrow> console \<Rightarrow> console" where
  "print_header title con =
     print_color rule80 BLUE (print_color title BOLD (print_color (NL @ rule80) BLUE con))"

text \<open>\<open>ask_organization_mode\<close>, lines 20--35.\<close>

definition choose_org :: "string \<Rightarrow> string option" where
  "choose_org c = (if c = ''1'' then Some ''by_date'' else if c = ''2'' then Some ''flat'' else None)"

definition ask_organization_mode :: "console \<Rightarrow> string result \<times> console" where
  "ask_organization_mode con =
     run_prompt (choice_prompt ''1-2'') choose_org
       (utf8 [0xE2, 0x9D, 0x8C] @ '' Invalid choice. Enter 1 or 2.'')
       (print_line (menu_item ''2'' ''All in one folder'')
         (print_line (menu_item ''1'' ''By date (year/month folders) - Recommended'')
           (print_line (NL @ ''How do you want to organize your memories?'')
             (print_header (utf8 [0xF0, 0x9F, 0x93, 0x81] @ '' FILE ORGANIZATION'') con))))"

text \<open>\<open>ask_filename_format\<close>, lines 37--52.\<close>

definition choose_fmt :: "string \<Rightarrow> string option" where
  "choose_fmt c = (if c \<in> set [''1'', ''2'', ''3'', ''4''] then Some c else None)"

definition ask_filename_format :: "console \<Rightarrow> string result \<times> console" where
  "ask_filename_format con =
     run_prompt (choice_prompt ''1-4'') choose_fmt
       (utf8 [0xE2, 0x9D, 0x8C] @ '' Invalid choice. Enter 1-4.'')
       (print_line (menu_item ''4'' ''20251215 (Compact date only)'')
         (print_line (menu_item ''3'' ''2025-12-15 (Date only)'')
           (print_line (menu_item ''2'' ''2025-12-15_21-31-58 (Readable)'')
             (print_line (menu_item ''1'' ''20251215_213158 (Compact)'')
               (print_line (NL @ ''Choose the filename date format:'')
                 (print_header (utf8 [0xF0, 0x9F, 0x93, 0x9D] @ '' FILENAME FORMAT'') con))))))"

text \<open>\<open>ZipProcessor.ask_processing_mode\<close>, lines 60--90.\<close>

definition choose_zip :: "string \<Rightarrow> string option" where
  "choose_zip c =
     (if c = ''1'' then Some ''both'' else if c = ''2'' then Some ''composed''
      else if c = ''3'' then Some ''original'' else if c = ''4'' then Some ''all'' else None)"

definition ask_processing_mode :: "console \<Rightarrow> string result \<times> console" where
  "ask_processing_mode con =
     run_prompt (choice_prompt ''1-4'') choose_zip
       (utf8 [0xE2, 0x9D, 0x8C] @ '' Invalid choice. Enter a number between 1 and 4.'')
       (print_line (menu_item ''4'' ''Keep everything: original + overlay + composed'')
         (print_line (menu_item ''3'' ''Original only (without overlay)'')
           (print_line (menu_item ''2'' ''Composed only (with overlay applied)'')
             (print_line (menu_item ''1'' ''Original + composed (without separate PNG) (Recommended)'')
               (print_line (NL @ ''Available options:'')
                 (print_line (NL @ ''ZIP files contain the original media + a PNG overlay (text/drawings).'')
                   (print_header (utf8 [0xF0, 0x9F, 0x97, 0x9C, 0xEF, 0xB8, 0x8F] @ ''  ZIP FILE PROCESSING'') con)))))))"

section \<open>Lemmas\<close>

lemma prompt_loop_skip:
  "list_all (\<lambda>x. ch (py_strip x) = None) pre \<Longrightarrow>
   prompt_loop p ch err (pre @ rest) out
   = prompt_loop p ch err rest (out @ concat (map (\<lambda>_. p @ RED @ err @ RESET @ NL) pre))"
  by (induction pre arbitrary: out) auto

lemma run_prompt_first:
  "inp con = l # rest \<Longrightarrow> ch (py_strip l) = Some v \<Longrightarrow> fst (run_prompt p ch err con) = Inr v \<and> inp (snd (run_prompt p ch err con)) = rest"
  by (simp add: run_prompt_def)

lemma run_prompt_eof:
  "inp con = [] \<Longrightarrow> run_prompt p ch err con = (Inl EOFError, \<lparr>inp = [], outp = outp con @ p\<rparr>)"
  by (simp add: run_prompt_def)

lemma inp_print [simp]:
  "inp (print_line s con) = inp con" "inp (print_color s c con) = inp con" "inp (print_header t con) = inp con"
  by (simp_all add: print_line_def print_color_def print_header_def)

lemma print_color_lines: "print_color text color con = print_lines [colored text color] con"
  by (simp add: print_color_def print_line_def print_lines_def colored_def)

lemma print_lines_append [simp]: "print_lines ls (print_lines ls' con) = print_lines (ls' @ ls) con"
  by (simp add: print_lines_def)

lemma inp_print_lines [simp]: "inp (print_lines ls con) = inp con"
  by (simp add: print_lines_def)

lemma ask_first:
  "inp con = l # rest \<Longrightarrow> choose_org (py_strip l) = Some v \<Longrightarrow>
     fst (ask_organization_mode con) = Inr v \<and> inp (snd (ask_organization_mode con)) = rest"
  "inp con = l # rest \<Longrightarrow> choose_fmt (py_strip l) = Some v \<Longrightarrow>
     fst (ask_filename_format con) = Inr v \<and> inp (snd (ask_filename_format con)) = rest"
  "inp con = l # rest \<Longrightarrow> choose_zip (py_strip l) = Some v \<Longrightarrow>
     fst (ask_processing_mode con) = Inr v \<and> inp (snd (ask_processing_mode con)) = rest"
  unfolding ask_organization_mode_def ask_filename_format_def ask_processing_mode_def
  by (rule run_prompt_first; simp)+

lemma ask_organization_mode_eof:
  "list_all (\<lambda>x. choose_org (py_strip x) = None) (inp con) \<Longrightarrow>
   \<exists>w. ask_organization_mode con = (Inl EOFError, \<lparr>inp = [], outp = w\<rparr>)"
  using prompt_loop_skip [of choose_org "inp con" _ _ "[]"]
  by (simp add: ask_organization_mode_def run_prompt_def)

section \<open>Properties of the prompts\<close>

text \<open>C18. A prompt reads lines until the first one that, stripped, is a
  valid choice: it returns that choice and leaves the later lines unread,
  and it has printed the prompt once per line read and the red error
  message once per rejected line.\<close>

theorem prompt_loop_first_valid:
  assumes "list_all (\<lambda>x. ch (py_strip x) = None) pre" and "ch (py_strip l) = Some v"
  shows "prompt_loop p ch err (pre @ l # post) out
       = (Inr v, post, out @ concat (map (\<lambda>_. p @ RED @ err @ RESET @ NL) pre) @ p)"
  using prompt_loop_skip [OF assms(1), of p err "l # post" out] assms(2) by simp

theorem prompt_loop_first_valid_witness:
  "prompt_loop (choice_prompt ''1-2'') choose_org ''bad'' ([''x''] @ '' 2 '' # [''1'']) []
   = (Inr ''flat'', [''1''], [] @ concat (map (\<lambda>_. choice_prompt ''1-2'' @ RED @ ''bad'' @ RESET @ NL) [''x''])
        @ choice_prompt ''1-2'')"
  by (rule prompt_loop_first_valid) (simp_all add: choose_org_def py_strip_def py_space_def)

text \<open>C19. When no line of the input is a valid choice, the prompt reads them
  all, prints the error message for each, prints the prompt once more, and
  raises \<open>EOFError\<close>: the loop ends exactly when the input does.\<close>

theorem prompt_loop_eof:
  assumes "list_all (\<lambda>x. ch (py_strip x) = None) ls"
  shows "prompt_loop p ch err ls out = (Inl EOFError, [], out @ concat (map (\<lambda>_. p @ RED @ err @ RESET @ NL) ls) @ p)"
  using prompt_loop_skip [OF assms, of p err "[]" out] by simp

theorem prompt_loop_eof_witness:
  "prompt_loop (choice_prompt ''1-2'') choose_org ''bad'' [''x'', ''3''] []
   = (Inl EOFError, [], [] @ concat (map (\<lambda>_. choice_prompt ''1-2'' @ RED @ ''bad'' @ RESET @ NL) [''x'', ''3''])
        @ choice_prompt ''1-2'')"
  by (rule prompt_loop_eof) (simp add: choose_org_def py_strip_def py_space_def)

end
