(* ===== verification/FormatSize.thy ===== *)
theory FormatSize
  imports Prelude
begin

text \<open>
  \<open>format_size\<close> (\<open>src/src/utils.py\<close>, lines 13--18), which renders the total
  size in the download summary. The loop compares the size with \<open>1024.0\<close> and
  divides it by \<open>1024.0\<close>; the first division turns the integer into a double.
  Every double the loop produces is \<open>D / 1024^k\<close> exactly, where \<open>D\<close> is the
  double nearest to the integer (\<open>float(n)\<close>, ties to even): a division by a
  power of two is exact. \<open>f"{x:.2f}"\<close> rounds the exact binary value to
  hundredths, ties to even. So the model computes with natural numbers only:
  \<open>to_double\<close>, \<open>round_half_even\<close> and \<open>fixed2\<close>.
\<close>

text \<open>The number of binary digits of \<open>n\<close>.\<close>

fun bitlen :: "nat \<Rightarrow> nat" where
  "bitlen n = (if n = 0 then 0 else Suc (bitlen (n div 2)))"

declare bitlen.simps [simp del]

text \<open>\<open>a / b\<close> rounded to an integer, ties to even.\<close>

definition round_half_even :: "nat \<Rightarrow> nat \<Rightarrow> nat" where
  "round_half_even a b =
     (let q = a div b; r = a mod b
      in if b < 2 * r \<or> (2 * r = b \<and> odd q) then Suc q else q)"

text \<open>\<open>float(n)\<close>: 53 significant bits, the rest rounded to nearest, ties to
  even.\<close>

definition to_double :: "nat \<Rightarrow> nat" where
  "to_double n =
     (if bitlen n \<le> 53 then n
      else let e = bitlen n - 53 in round_half_even n (2 ^ e) * 2 ^ e)"

text \<open>\<open>f"{a / b:.2f}"\<close>.\<close>

definition fixed2 :: "nat \<Rightarrow> nat \<Rightarrow> string" where
  "fixed2 a b =
     (let m = round_half_even (100 * a) b in show_nat (m div 100) @ ''.'' @ pad_nat 2 (m mod 100))"

text \<open>The \<open>for unit in [...]\<close> loop: at step \<open>k\<close> the value is \<open>d / 1024^k\<close>.\<close>

fun size_loop :: "nat \<Rightarrow> string list \<Rightarrow> nat \<Rightarrow> string" where
  "size_loop d [] k = fixed2 d (1024 ^ k) @ '' TB''"
| "size_loop d (u # us) k =
     (if d < 1024 ^ Suc k then fixed2 d (1024 ^ k) @ '' '' @ u else size_loop d us (Suc k))"

definition size_units :: "string list" where
  "size_units = [''B'', ''KB'', ''MB'', ''GB'']"

text \<open>Lines 13--18. Below \<open>1024\<close> the integer is formatted without a
  division; otherwise the conversion raises \<open>OverflowError\<close> when the
  nearest double would be infinite.\<close>

definition format_size :: "nat \<Rightarrow> string result" where
  "format_size n =
     (if n < 1024 then Inr (fixed2 n 1 @ '' B'')
      else if 2 ^ 1024 \<le> to_double n then Inl (OverflowError ''int too large to convert to float'')
      else Inr (size_loop (to_double n) size_units 0))"

text \<open>A Python \<open>float\<close> result of a division, as the exact value \<open>a / b\<close> of
  the double, or \<open>inf\<close>.\<close>

datatype double_val = Finite nat nat | Infinity

text \<open>\<open>p / q \<ge> 2^e\<close>, for an integer exponent.\<close>

definition ratio_ge :: "nat \<Rightarrow> nat \<Rightarrow> int \<Rightarrow> bool" where
  "ratio_ge p q e \<longleftrightarrow> q * 2 ^ nat e \<le> p * 2 ^ nat (- e)"

text \<open>The exponent \<open>e\<close> with \<open>2^e \<le> p / q < 2^(e+1)\<close>, from the bit lengths.\<close>

definition dexp :: "nat \<Rightarrow> nat \<Rightarrow> int" where
  "dexp p q = (let e0 = int (bitlen p) - int (bitlen q) in if ratio_ge p q e0 then e0 else e0 - 1)"

text \<open>The float division \<open>p / q\<close> of two doubles whose exact quotient is the
  rational \<open>p / q\<close>: rounded to 53 significant bits, to nearest with ties to
  even, the last bit never below \<open>2^-1074\<close> (subnormals), and \<open>inf\<close> when the
  rounded value reaches \<open>2^1024\<close>.\<close>

definition div_double :: "nat \<Rightarrow> nat \<Rightarrow> double_val" where
  "div_double p q =
     (let s = min (52 - dexp p q) 1074
      in if 0 \<le> s then
           (let m = round_half_even (p * 2 ^ nat s) q in
            if 2 ^ 1024 * 2 ^ nat s \<le> m then Infinity else Finite m (2 ^ nat s))
         else
           (let m = round_half_even p (q * 2 ^ nat (- s)) in
            if 2 ^ 1024 \<le> m * 2 ^ nat (- s) then Infinity else Finite (m * 2 ^ nat (- s)) 1))"

text \<open>\<open>f"{x:.2f}"\<close> of a float.\<close>

definition fmt_double :: "double_val \<Rightarrow> string" where
  "fmt_double v = (case v of Finite a b \<Rightarrow> fixed2 a b | Infinity \<Rightarrow> ''inf'')"

section \<open>Lemmas\<close>

lemma bitlen_0 [simp]: "bitlen 0 = 0"
  by (simp add: bitlen.simps)

lemma bitlen_Suc0 [simp]: "bitlen (Suc 0) = 1"
  by (simp add: bitlen.simps [of "Suc 0"] bitlen.simps [of 0])

lemma bitlen_1 [simp]: "bitlen 1 = 1"
  by simp

lemma bitlen_numeral [simp]:
  "bitlen (numeral (Num.Bit0 k)) = Suc (bitlen (numeral k))"
  "bitlen (numeral (Num.Bit1 k)) = Suc (bitlen (numeral k))"
  by (subst bitlen.simps; simp)+

lemmas size_eval = format_size_def to_double_def round_half_even_def fixed2_def size_units_def pad_nat_def
  show_nat.simps digit_char_def

lemmas double_eval = div_double_def dexp_def ratio_ge_def fmt_double_def

lemma bitlen_less: "bitlen n \<le> k \<longleftrightarrow> n < 2 ^ k"
proof (induction n arbitrary: k rule: bitlen.induct)
  case (1 n)
  show ?case
  proof (cases "n = 0")
    case True
    then show ?thesis by simp
  next
    case False
    then have b: "bitlen n = Suc (bitlen (n div 2))" by (simp add: bitlen.simps [of n])
    show ?thesis
    proof (cases k)
      case 0
      then show ?thesis using False b by simp
    next
      case (Suc j)
      have "bitlen (n div 2) \<le> j \<longleftrightarrow> n div 2 < 2 ^ j" using "1.IH" False by blast
      also have "\<dots> \<longleftrightarrow> n < 2 ^ Suc j" by auto
      finally show ?thesis using b Suc by simp
    qed
  qed
qed

lemma to_double_exact: "n < 2 ^ 53 \<Longrightarrow> to_double n = n"
  by (simp add: to_double_def bitlen_less)

lemma round_half_even_error:
  assumes "0 < b"
  shows "2 * \<bar>int a - int (round_half_even a b) * int b\<bar> \<le> int b"
proof -
  define q r where "q = a div b" and "r = a mod b"
  have a: "a = q * b + r" and rb: "r < b" using assms by (simp_all add: q_def r_def)
  show ?thesis
  proof (cases "b < 2 * r \<or> (2 * r = b \<and> odd q)")
    case True
    then have "round_half_even a b = Suc q" by (simp add: round_half_even_def q_def r_def Let_def)
    then show ?thesis using True a rb by (auto simp: algebra_simps of_nat_mult)
  next
    case False
    then have "round_half_even a b = q" by (simp add: round_half_even_def q_def r_def Let_def)
    then show ?thesis using False a by (auto simp: algebra_simps)
  qed
qed

lemma round_half_even_mono: "a \<le> c * b \<Longrightarrow> 0 < b \<Longrightarrow> round_half_even a b \<le> c"
proof -
  assume h: "a \<le> c * b" "0 < b"
  have "a div b \<le> c" using h by (metis div_le_mono div_mult_self_is_m)
  moreover have "a div b = c \<Longrightarrow> a mod b = 0"
    using h by (metis add.commute add_le_same_cancel2 div_mult_mod_eq le_zero_eq mult.commute)
  ultimately show ?thesis using h(2)
    by (cases "a div b = c") (auto simp: round_half_even_def Let_def)
qed

lemma size_loop_at:
  "j \<le> k \<Longrightarrow> k - j < length us \<Longrightarrow> (\<forall>i. j \<le> i \<and> i < k \<longrightarrow> 1024 ^ Suc i \<le> d) \<Longrightarrow> d < 1024 ^ Suc k \<Longrightarrow>
   size_loop d us j = fixed2 d (1024 ^ k) @ '' '' @ us ! (k - j)"
proof (induction us arbitrary: j)
  case Nil
  then show ?case by simp
next
  case (Cons u us)
  show ?case
  proof (cases "j = k")
    case True
    then show ?thesis using Cons.prems by simp
  next
    case False
    then have "j < k" using Cons.prems(1) by simp
    then have "\<not> d < 1024 ^ Suc j" using Cons.prems(3) by (simp add: not_less)
    moreover have "size_loop d us (Suc j) = fixed2 d (1024 ^ k) @ '' '' @ us ! (k - Suc j)"
      using Cons.prems \<open>j < k\<close> by (intro Cons.IH) auto
    ultimately show ?thesis using \<open>j < k\<close> by (simp add: Suc_diff_Suc)
  qed
qed

lemma size_range:
  "(n::nat) < 1024 ^ 4 \<Longrightarrow> \<exists>k < 4. (\<forall>i < k. 1024 ^ Suc i \<le> n) \<and> n < 1024 ^ Suc k"
proof -
  assume n: "n < 1024 ^ 4"
  consider "n < 1024" | "1024 \<le> n" "n < 1024 ^ 2" | "1024 ^ 2 \<le> n" "n < 1024 ^ 3" | "1024 ^ 3 \<le> n"
    by linarith
  then show ?thesis
  proof cases
    case 1
    then show ?thesis by (intro exI [of _ 0]) simp
  next
    case 2
    then show ?thesis by (intro exI [of _ 1]) auto
  next
    case 3
    then show ?thesis
      by (intro exI [of _ 2]) (auto simp: numeral_2_eq_2 less_Suc_eq)
  next
    case 4
    then show ?thesis using n
      by (intro exI [of _ 3]) (auto simp: numeral_3_eq_3 less_Suc_eq)
  qed
qed

lemma ratio_ge_iff:
  assumes "int i - int j = e"
  shows "ratio_ge p q e \<longleftrightarrow> q * 2 ^ i \<le> p * 2 ^ j"
proof -
  define x where "x = min i j"
  have i: "i = nat e + x" and j: "j = nat (- e) + x" using assms by (auto simp: x_def)
  have "q * 2 ^ i \<le> p * 2 ^ j \<longleftrightarrow> (q * 2 ^ nat e) * 2 ^ x \<le> (p * 2 ^ nat (- e)) * 2 ^ x"
    by (simp add: i j power_add mult.assoc)
  also have "\<dots> \<longleftrightarrow> q * 2 ^ nat e \<le> p * 2 ^ nat (- e)" by simp
  finally show ?thesis by (simp add: ratio_ge_def)
qed

lemma bitlen_bounds: "0 < n \<Longrightarrow> 2 ^ (bitlen n - 1) \<le> n \<and> n < 2 ^ bitlen n \<and> 0 < bitlen n"
  using bitlen_less [of n "bitlen n"] bitlen_less [of n "bitlen n - 1"] bitlen_less [of n 0]
  by (auto simp: not_less)

lemma dexp_bounds:
  assumes "0 < p" "0 < q"
  shows "ratio_ge p q (dexp p q) \<and> \<not> ratio_ge p q (dexp p q + 1)"
proof -
  define bp bq where "bp = bitlen p" and "bq = bitlen q"
  have p: "2 ^ (bp - 1) \<le> p" "p < 2 ^ bp" "0 < bp" using bitlen_bounds [OF assms(1)] by (simp_all add: bp_def)
  have q: "2 ^ (bq - 1) \<le> q" "q < 2 ^ bq" "0 < bq" using bitlen_bounds [OF assms(2)] by (simp_all add: bq_def)
  have lo: "ratio_ge p q (int bp - int bq - 1)"
  proof -
    have "q * 2 ^ (bp - 1) \<le> 2 ^ bq * p" using mult_le_mono [OF less_imp_le [OF q(2)] p(1)] by (simp add: mult.commute)
    then show ?thesis using ratio_ge_iff [of "bp - 1" bq "int bp - int bq - 1"] p(3) by (simp add: mult.commute)
  qed
  have hi: "\<not> ratio_ge p q (int bp - int bq + 1)"
  proof -
    have "p * 2 ^ (bq - 1) < 2 ^ bp * q" using mult_less_le_imp_less [OF p(2) q(1)] by simp
    then show ?thesis using ratio_ge_iff [of bp "bq - 1" "int bp - int bq + 1"] q(3) by (simp add: mult.commute)
  qed
  show ?thesis
    using lo hi by (simp add: dexp_def Let_def bp_def bq_def)
qed

lemma ratio_ge_mono: "ratio_ge p q e \<Longrightarrow> e' \<le> e \<Longrightarrow> ratio_ge p q e'"
proof -
  assume r: "ratio_ge p q e" and le: "e' \<le> e"
  have "q * 2 ^ nat e \<le> p * 2 ^ nat (- e)" using r by (simp add: ratio_ge_def)
  also have "\<dots> \<le> p * 2 ^ (nat (- e) + nat (e - e'))" by (intro mult_le_mono2 power_increasing) simp_all
  finally show ?thesis using le by (subst ratio_ge_iff [of "nat e" "nat (- e) + nat (e - e')"]) auto
qed

lemma round_half_even_ge:
  assumes "even c" "0 < c" "0 < b" and "(2 * c - 1) * b \<le> 2 * a"
  shows "c \<le> round_half_even a b"
proof -
  define q r where "q = a div b" and "r = a mod b"
  have a: "a = q * b + r" and rb: "r < b" using assms(3) by (simp_all add: q_def r_def)
  show ?thesis
  proof (cases "c \<le> q")
    case True
    then show ?thesis by (simp add: round_half_even_def q_def r_def Let_def)
  next
    case False
    have "(2 * c - 1) * b < (2 * q + 2) * b" using assms(4) a rb by (simp add: algebra_simps)
    then have "2 * c - 1 < 2 * q + 2" by (simp only: mult_less_cancel2)
    then have qc: "q = c - 1" using False by linarith
    then have "(2 * c - 1) * b = 2 * q * b + b" using assms(2) by (cases c) (simp_all add: algebra_simps)
    then have "b \<le> 2 * r" using assms(4) a by simp
    moreover have "odd q" using qc assms(1,2) by simp
    ultimately show ?thesis using qc by (auto simp: round_half_even_def q_def r_def Let_def)
  qed
qed

text \<open>Where the loop stops at unit \<open>k\<close>, \<open>format_size\<close> prints the value
  in that unit with two decimals.\<close>

lemma format_size_unit:
  assumes "k < 4" "\<forall>i < k. 1024 ^ Suc i \<le> n" "n < 1024 ^ Suc k"
  shows "format_size n = Inr (fixed2 n (1024 ^ k) @ '' '' @ size_units ! k)"
proof (cases k)
  case 0
  then show ?thesis using assms by (simp add: format_size_def size_units_def)
next
  case (Suc j)
  then have "1024 ^ Suc 0 \<le> n" using assms(2) by blast
  then have big: "1024 \<le> n" by simp
  have "n < 1024 ^ 4" using assms(1,3) power_increasing [of "Suc k" 4 "1024::nat"] by simp
  then have n53: "n < 2 ^ 53" by simp
  have "(2::nat) ^ 53 \<le> 2 ^ 1024" by (rule power_increasing) simp_all
  then have nbig: "\<not> 2 ^ 1024 \<le> to_double n" using n53 by (simp add: to_double_exact)
  have "size_loop n size_units 0 = fixed2 n (1024 ^ k) @ '' '' @ size_units ! (k - 0)"
    using assms by (intro size_loop_at) (auto simp: size_units_def)
  then show ?thesis using big n53 nbig
    by (simp only: format_size_def to_double_exact if_not_P not_less) simp
qed

section \<open>Properties of format_size\<close>

text \<open>C16. For every size below \<open>1024^4\<close> bytes, \<open>format_size\<close> prints a number
  \<open>m / 100\<close> with two decimals and the unit \<open>B\<close>, \<open>KB\<close>, \<open>MB\<close> or \<open>GB\<close> that the
  loop reached, the number is at most \<open>1024.00\<close>, and it is the exact value in
  that unit rounded to the nearest hundredth (error at most half a
  hundredth).\<close>

theorem format_size_spec:
  assumes "n < 1024 ^ 4"
  shows "\<exists>k < 4. \<exists>m. format_size n = Inr (show_nat (m div 100) @ ''.'' @ pad_nat 2 (m mod 100) @ '' '' @ size_units ! k)
           \<and> m \<le> 102400 \<and> 2 * \<bar>int (100 * n) - int m * 1024 ^ k\<bar> \<le> 1024 ^ k"
proof -
  obtain k where k: "k < 4" "\<forall>i < k. 1024 ^ Suc i \<le> n" "n < 1024 ^ Suc k"
    using size_range [OF assms] by blast
  define m where "m = round_half_even (100 * n) (1024 ^ k)"
  have f: "format_size n = Inr (fixed2 n (1024 ^ k) @ '' '' @ size_units ! k)"
    using format_size_unit [OF k] .
  have "m \<le> 1024 * 100"
    unfolding m_def using k(3) by (intro round_half_even_mono) simp_all
  moreover have "2 * \<bar>int (100 * n) - int m * 1024 ^ k\<bar> \<le> 1024 ^ k"
    using round_half_even_error [of "1024 ^ k" "100 * n"] by (simp add: m_def)
  moreover have "format_size n = Inr (show_nat (m div 100) @ ''.'' @ pad_nat 2 (m mod 100) @ '' '' @ size_units ! k)"
    using f by (simp add: fixed2_def m_def Let_def)
  ultimately show ?thesis using k(1) by auto
qed

theorem format_size_spec_witness:
  "\<exists>k < 4. \<exists>m. format_size 1048575 = Inr (show_nat (m div 100) @ ''.'' @ pad_nat 2 (m mod 100) @ '' '' @ size_units ! k)
     \<and> m \<le> 102400 \<and> 2 * \<bar>int (100 * 1048575) - int m * 1024 ^ k\<bar> \<le> 1024 ^ k"
  by (rule format_size_spec) simp

text \<open>C17. The bound \<open>1024.00\<close> is reached: in the units \<open>KB\<close>, \<open>MB\<close>
  and \<open>GB\<close>, every size whose value in that unit is at least \<open>1023.995\<close>
  but below \<open>1024\<close> is printed as \<open>1024.00\<close> of that unit, not as
  \<open>1.00\<close> of the next, because the loop compares the unrounded value with
  \<open>1024\<close> and only the printing rounds (ties to even).\<close>

theorem format_size_1024_kb:
  assumes "0 < k" "k < 4" and "204799 * 1024 ^ k \<le> 200 * n" and "n < 1024 ^ Suc k"
  shows "format_size n = Inr (''1024.00 '' @ size_units ! k)"
proof -
  have "1024 ^ k \<le> n" using assms(3) by linarith
  then have "\<forall>i < k. 1024 ^ Suc i \<le> n"
    using power_increasing [of _ k "1024::nat"] by (metis Suc_leI le_trans one_le_numeral)
  then have f: "format_size n = Inr (fixed2 n (1024 ^ k) @ '' '' @ size_units ! k)"
    using format_size_unit [OF assms(2) _ assms(4)] by blast
  have "round_half_even (100 * n) (1024 ^ k) \<le> 102400"
    using assms(4) by (intro round_half_even_mono) simp_all
  moreover have "102400 \<le> round_half_even (100 * n) (1024 ^ k)"
    using assms(3) by (intro round_half_even_ge) simp_all
  ultimately have "round_half_even (100 * n) (1024 ^ k) = 102400" by simp
  then show ?thesis using f by (simp add: fixed2_def pad_nat_def show_nat.simps digit_char_def)
qed

theorem format_size_1024_kb_witness:
  "format_size 1048575 = Inr (''1024.00 '' @ size_units ! 1)"
  by (rule format_size_1024_kb) simp_all

text \<open>Away from the subnormal range, the float division of the model
  rounds the exact quotient with a relative error of at most \<open>2^-53\<close>: the
  average speed \<open>download_all\<close> prints is \<open>success_count / elapsed_time\<close>
  rounded once before the two-decimal rendering.\<close>

theorem div_double_error:
  assumes "0 < p" "0 < q" "q \<le> p * 2 ^ 1022" and "div_double p q = Finite a b"
  shows "2 ^ 53 * \<bar>int a * int q - int p * int b\<bar> \<le> int p * int b"
proof -
  define e where "e = dexp p q"
  have lo: "ratio_ge p q e" and hi: "\<not> ratio_ge p q (e + 1)" using dexp_bounds [OF assms(1,2)] by (simp_all add: e_def)
  have "ratio_ge p q (- 1022)" using assms(3) ratio_ge_iff [of 0 1022 "- 1022" p q] by simp
  then have "- 1022 \<le> e" using hi ratio_ge_mono [of p q "- 1022" "e + 1"] by linarith
  then have s: "min (52 - e) 1074 = 52 - e" by simp
  show ?thesis
  proof (cases "0 \<le> 52 - e")
    case True
    define m where "m = round_half_even (p * 2 ^ nat (52 - e)) q"
    have "div_double p q = (if 2 ^ 1024 * 2 ^ nat (52 - e) \<le> m then Infinity else Finite m (2 ^ nat (52 - e)))"
      using True by (simp only: div_double_def e_def [symmetric] s m_def Let_def if_True)
    then have ab: "a = m" "b = 2 ^ nat (52 - e)"
      using assms(4) by (auto split: if_splits)
    have r: "2 * \<bar>int (p * 2 ^ nat (52 - e)) - int m * int q\<bar> \<le> int q"
      using round_half_even_error [of q "p * 2 ^ nat (52 - e)"] assms(2) by (simp add: m_def)
    have "q * 2 ^ 52 \<le> p * 2 ^ nat (52 - e)" using lo ratio_ge_iff [of 52 "nat (52 - e)" e p q] True by simp
    then have "int (q * 2 ^ 52) \<le> int (p * 2 ^ nat (52 - e))" by (simp only: of_nat_le_iff)
    then have "int q * 2 ^ 52 \<le> int p * 2 ^ nat (52 - e)" by (simp only: of_nat_mult of_nat_power of_nat_numeral)
    then show ?thesis using r by (simp add: ab abs_minus_commute)
  next
    case False
    define t where "t = nat (e - 52)"
    define m where "m = round_half_even p (q * 2 ^ t)"
    have "nat (- (52 - e)) = t" by (simp add: t_def)
    then have "div_double p q = (if 2 ^ 1024 \<le> m * 2 ^ t then Infinity else Finite (m * 2 ^ t) 1)"
      using False by (simp only: div_double_def e_def [symmetric] s m_def Let_def if_False)
    then have ab: "a = m * 2 ^ t" "b = 1"
      using assms(4) by (auto split: if_splits)
    have r: "2 * \<bar>int p - int m * int (q * 2 ^ t)\<bar> \<le> int (q * 2 ^ t)"
      using round_half_even_error [of "q * 2 ^ t" p] assms(2) by (simp add: m_def)
    have "q * 2 ^ (52 + t) \<le> p * 2 ^ 0" using lo ratio_ge_iff [of "52 + t" 0 e p q] False by (simp add: t_def)
    then have "int (q * 2 ^ 52 * 2 ^ t) \<le> int p" by (simp only: of_nat_le_iff power_add power_0 mult_1_right mult.assoc)
    then have "int q * 2 ^ 52 * 2 ^ t \<le> int p" by (simp only: of_nat_mult of_nat_power of_nat_numeral)
    then show ?thesis using r by (simp add: ab abs_minus_commute algebra_simps)
  qed
qed

theorem div_double_error_witness:
  "div_double 10 3 = Finite 7505999378950827 2251799813685248
   \<and> 2 ^ 53 * \<bar>int 7505999378950827 * int 3 - int 10 * int 2251799813685248\<bar> \<le> int 10 * int 2251799813685248"
proof -
  have d: "div_double 10 3 = Finite 7505999378950827 2251799813685248" by (simp add: double_eval round_half_even_def)
  have "2 ^ 53 * \<bar>int 7505999378950827 * int 3 - int 10 * int 2251799813685248\<bar> \<le> int 10 * int 2251799813685248"
    by (rule div_double_error [OF _ _ _ d]) simp_all
  with d show ?thesis by blast
qed

end
