(* ===== verification/Report.thy ===== *)
theory Report
  imports Parser Downloader ZipProcessor Console FormatSize
begin

text \<open>
  What the parse and the two phases write to standard output, on the console
  of theory \<open>Console\<close>: \<open>HTMLParser.parse\<close> (\<open>src/src/parser.py\<close>, lines
  11--50), \<open>Downloader.download_all\<close> with its summary
  (\<open>src/src/downloader.py\<close>, lines 109--185) and \<open>ZipProcessor.process_all\<close>
  with its summary (\<open>src/src/zip_processor.py\<close>, lines 323--401). The
  progress bars of \<open>tqdm\<close> write to standard error and are left out. The
  clock and the working directory enter as parameters: the elapsed time is
  the double \<open>a / b\<close> given by the pair \<open>(a, b)\<close>, and the absolute path of
  the output folder is a string. The section on the phases also proves the
  specification's idempotence of \<open>download_all\<close>.
\<close>

section \<open>The parse\<close>

text \<open>\<open>HTMLParser.parse\<close>, lines 11--50: the parse of theory \<open>Parser\<close> with
  its three messages.\<close>

definition parse_phase :: "string \<Rightarrow> string option \<Rightarrow> console \<Rightarrow> memory list result \<times> console" where
  "parse_phase hfile html con =
     (let con1 = print_color (utf8 [0xF0, 0x9F, 0x93, 0x84] @ '' Reading HTML file...'') BLUE con in
      case html of
        None \<Rightarrow>
          (Inl (SystemExit 1),
           print_color (utf8 [0xE2, 0x9D, 0x8C] @ '' Error: File '' @ hfile @ '' does not exist'') RED con1)
      | Some doc \<Rightarrow>
          (case parse_rows [] (re_findall_rows doc) of
             Inl e \<Rightarrow> (Inl e, con1)
           | Inr ms \<Rightarrow>
               (Inr ms,
                print_color (utf8 [0xE2, 0x9C, 0x93] @ '' '' @ show_nat (length ms) @ '' unique memories found'')
                  GREEN con1)))"

section \<open>The download phase\<close>

text \<open>Line 119.\<close>

definition download_start :: "nat \<Rightarrow> nat \<Rightarrow> console \<Rightarrow> console" where
  "download_start tot mw =
     print_color (NL @ utf8 [0xF0, 0x9F, 0x9A, 0x80] @ '' Starting download of '' @ show_nat tot
       @ '' memories with '' @ show_nat mw @ '' threads...'' @ NL) BOLD"

text \<open>Lines 165--169: the elapsed time \<open>a / b\<close>, and the speed
  \<open>success_count / elapsed_time\<close> (the count converted to a float first)
  when the time is positive.\<close>

definition time_lines :: "nat \<Rightarrow> nat \<times> nat \<Rightarrow> string list" where
  "time_lines sc el =
     (case el of (a, b) \<Rightarrow>
        colored (utf8 [0xE2, 0x8F, 0xB1, 0xEF, 0xB8, 0x8F] @ ''  Elapsed time: '' @ fixed2 a b @ '' seconds'') CYAN
        # (if 0 < a
           then [colored (utf8 [0xF0, 0x9F, 0x9A, 0x80] @ '' Average speed: ''
                   @ fmt_double (div_double (to_double sc * b) a) @ '' memories/second'') CYAN]
           else []))"

text \<open>Lines 174--178: the failures are listed only when there are at most
  ten of them; a URL is cut to its first 60 characters.\<close>

definition failed_lines :: "(string \<times> string \<times> string) list \<Rightarrow> string list" where
  "failed_lines fs =
     (if fs \<noteq> [] \<and> length fs \<le> 10
      then colored (utf8 [0xE2, 0x9A, 0xA0, 0xEF, 0xB8, 0x8F] @ ''  Failed memories:'') YELLOW
           # concat (map (\<lambda>(u, d, e). [''  '' @ utf8 [0xE2, 0x80, 0xA2] @ '' '' @ d @ '' - '' @ take 60 u @ ''...'',
                                        ''    Error: '' @ e]) fs)
      else [])"

text \<open>Lines 180--185.\<close>

definition verdict_line :: "nat \<Rightarrow> stats \<Rightarrow> string" where
  "verdict_line tot s =
     (if 0 < success_count s
      then colored (utf8 [0xF0, 0x9F, 0x8E, 0x89] @ '' Download completed successfully!'') GREEN
      else if skipped_count s = tot
      then colored (utf8 [0xE2, 0x84, 0xB9, 0xEF, 0xB8, 0x8F] @ ''  All memories were already downloaded'') YELLOW
      else colored (utf8 [0xE2, 0x9A, 0xA0, 0xEF, 0xB8, 0x8F] @ ''  Download completed with errors'') YELLOW)"

text \<open>Lines 158--163: the title and the three counters.\<close>

definition summary_counts :: "stats \<Rightarrow> string list" where
  "summary_counts s =
     [colored (NL @ rule80) BLUE,
      colored (utf8 [0xF0, 0x9F, 0x93, 0x8A] @ '' DOWNLOAD SUMMARY'') BOLD,
      colored rule80 BLUE,
      colored (utf8 [0xE2, 0x9C, 0x93] @ '' Successfully downloaded: '' @ show_nat (success_count s)) GREEN,
      colored (utf8 [0xE2, 0x8A, 0x98] @ '' Already existing (skipped): '' @ show_nat (skipped_count s)) YELLOW,
      colored (utf8 [0xE2, 0x9C, 0x97] @ '' Failed: '' @ show_nat (failed_count s)) RED]"

text \<open>Lines 155--185. \<open>format_size\<close> runs inside the f-string of line 164,
  after the first six lines are printed; its \<open>OverflowError\<close> ends the
  summary there.\<close>

definition download_summary :: "nat \<Rightarrow> stats \<Rightarrow> nat \<times> nat \<Rightarrow> string \<Rightarrow> console \<Rightarrow> unit result \<times> console" where
  "download_summary tot s el absdir con =
     (let con1 = print_lines (summary_counts s) con
      in case format_size (total_size s) of
           Inl e \<Rightarrow> (Inl e, con1)
         | Inr sz \<Rightarrow>
             (Inr (),
              print_lines
                ([colored (utf8 [0xF0, 0x9F, 0x93, 0x81] @ '' Total size downloaded: '' @ sz) CYAN]
                 @ time_lines (success_count s) el
                 @ [colored (utf8 [0xF0, 0x9F, 0x93, 0x82] @ '' Output folder: '' @ absdir) BLUE,
                    colored (rule80 @ NL) BLUE]
                 @ failed_lines (failed_items s)
                 @ [verdict_line tot s]) con1))"

text \<open>\<open>download_all\<close>, lines 109--185, with its output: the start line, the
  downloads of theory \<open>Downloader\<close>, the summary. The \<open>mkdir\<close> of line 110
  comes before the first print, so its error leaves the console and the
  store as they were.\<close>

definition download_phase ::
  "downloader \<Rightarrow> net_config \<Rightarrow> network \<Rightarrow> nat \<Rightarrow> nat \<times> nat \<Rightarrow> string \<Rightarrow> memory list \<Rightarrow> console \<Rightarrow> store \<Rightarrow>
   unit result \<times> console \<times> store" where
  "download_phase dl cfg net mw el absdir ms con st =
     (case download_all dl cfg net st ms of
        Inl e \<Rightarrow> (Inl e, con, st)
      | Inr (s, st', _) \<Rightarrow>
          (case download_summary (length ms) s el absdir (download_start (length ms) mw con) of
             (r, con') \<Rightarrow> (r, con', st')))"

section \<open>The ZIP phase\<close>

text \<open>Lines 392--401.\<close>

definition zip_summary :: "nat \<Rightarrow> zstats \<Rightarrow> string list" where
  "zip_summary tot s =
     [colored (NL @ rule80) BLUE,
      colored (utf8 [0xF0, 0x9F, 0x93, 0x8A] @ '' ZIP PROCESSING SUMMARY'') BOLD,
      colored rule80 BLUE,
      colored (utf8 [0xE2, 0x9C, 0x93] @ '' Successfully processed: '' @ show_nat (processed_count s) @ ''/'' @ show_nat tot) GREEN]
     @ (if 0 < zfailed_count s then [colored (utf8 [0xE2, 0x9C, 0x97] @ '' Failed: '' @ show_nat (zfailed_count s)) RED] else [])
     @ [colored (utf8 [0xF0, 0x9F, 0x96, 0xBC, 0xEF, 0xB8, 0x8F] @ ''  Images: '' @ show_nat (images_count s)) CYAN,
        colored (utf8 [0xF0, 0x9F, 0x8E, 0xAC] @ '' Videos: '' @ show_nat (videos_count s)) CYAN,
        colored (rule80 @ NL) BLUE]"

text \<open>\<open>process_all\<close>, lines 323--401, with its output: without bundles it
  returns after line 336.\<close>

definition zip_phase :: "zip_env \<Rightarrow> net_config \<Rightarrow> zip_processor \<Rightarrow> console \<Rightarrow> store \<Rightarrow> console \<times> store" where
  "zip_phase env cfg zp con st =
     (let con1 = print_color (NL @ utf8 [0xF0, 0x9F, 0x97, 0x9C, 0xEF, 0xB8, 0x8F] @ ''  Processing ZIP files...'') BLUE con;
          tot = length (walk_zips st (zp_output_dir zp))
      in case process_all env cfg zp st of
           (s, st') \<Rightarrow>
             if tot = 0
             then (print_color (utf8 [0xE2, 0x84, 0xB9, 0xEF, 0xB8, 0x8F] @ ''  No ZIP files found'') YELLOW con1, st')
             else (print_lines (zip_summary tot s) con1, st'))"

section \<open>Lemmas\<close>

lemma parse_phase_result: "fst (parse_phase hfile html con) = parse_html html"
  by (simp add: parse_phase_def parse_html_def Let_def split: option.split sum.split)

lemma run_downloads_skipped:
  "\<forall>m\<in>set ms. \<exists>f sz. skip_check st (mem_target dl m) (mem_stem dl m) = Inr (Some (f, sz)) \<Longrightarrow>
   \<exists>rs. run_downloads dl cfg net st ms = (rs, st, 0) \<and> length rs = length ms \<and> (\<forall>x\<in>set rs. is_skipped (snd x))"
proof (induction ms)
  case Nil
  then show ?case by simp
next
  case (Cons m ms)
  obtain f sz where "skip_check st (mem_target dl m) (mem_stem dl m) = Inr (Some (f, sz))" using Cons.prems by auto
  then have "download_single dl cfg net st m = (Skipped f sz, st, [], 0)" by (simp add: download_single_def)
  moreover obtain rs where "run_downloads dl cfg net st ms = (rs, st, 0)" "length rs = length ms" "\<forall>x\<in>set rs. is_skipped (snd x)"
    using Cons by auto
  ultimately show ?case by simp
qed

lemma foldl_tally_skipped:
  "\<forall>x\<in>set rs. is_skipped (snd x) \<Longrightarrow> foldl tally_step s rs = s\<lparr>skipped_count := skipped_count s + length rs\<rparr>"
proof (induction rs arbitrary: s)
  case Nil
  then show ?case by simp
next
  case (Cons x rs)
  obtain m out where x: "x = (m, out)" by fastforce
  then obtain f sz where "out = Skipped f sz" using Cons.prems by (cases out) auto
  then show ?case using Cons x by simp
qed

lemma format_size_zero: "format_size 0 = Inr ''0.00 B''"
  by (simp add: size_eval)

lemma format_size_small: "n < 2 ^ 53 \<Longrightarrow> \<exists>sz. format_size n = Inr sz"
proof -
  assume n: "n < 2 ^ 53"
  have "(2::nat) ^ 53 \<le> 2 ^ 1024" by (rule power_increasing) simp_all
  then have "\<not> 2 ^ 1024 \<le> to_double n" using n by (simp add: to_double_exact)
  then show ?thesis by (simp only: format_size_def if_not_P) auto
qed

lemma download_phase_Inr:
  assumes "download_all dl cfg net st ms = Inr (s, st1, n)" and "total_size s < 2 ^ 53"
  shows "fst (download_phase dl cfg net mw el absdir ms con st) = Inr ()
    \<and> snd (snd (download_phase dl cfg net mw el absdir ms con st)) = st1"
proof -
  obtain sz where "format_size (total_size s) = Inr sz" using format_size_small assms(2) by blast
  then show ?thesis using assms(1) by (simp add: download_phase_def download_summary_def Let_def split: prod.split)
qed

lemma download_phase_Inl:
  "download_all dl cfg net st ms = Inl e \<Longrightarrow> download_phase dl cfg net mw el absdir ms con st = (Inl e, con, st)"
  by (simp add: download_phase_def)

lemma zip_phase_fails:
  assumes "walk_zips st (zp_output_dir zp) \<noteq> []"
  shows "\<exists>i v. process_all env cfg zp st
    = (\<lparr>processed_count = 0, zfailed_count = length (walk_zips st (zp_output_dir zp)), images_count = i, videos_count = v\<rparr>, st)"
proof -
  obtain s st' where r: "foldl (process_bundle env cfg zp) (zstats0, st) (walk_zips st (zp_output_dir zp)) = (s, st')"
    by fastforce
  then have "st' = st \<and> processed_count s = 0 \<and> zfailed_count s = length (walk_zips st (zp_output_dir zp))"
    using foldl_process_bundle_fails [OF r] by (simp add: zstats0_def)
  moreover obtain p f i v where "s = \<lparr>processed_count = p, zfailed_count = f, images_count = i, videos_count = v\<rparr>"
    by (cases s) auto
  ultimately show ?thesis using r assms by (auto simp: process_all_def)
qed

lemma zip_phase_store: "snd (zip_phase env cfg zp con st) = st"
  using process_all_store [of env cfg zp st] by (cases "process_all env cfg zp st") (simp add: zip_phase_def Let_def)

lemma fetch_iter_body:
  "fetch_iter cfg u get as = (Inr (Some (p, ct)), sl, n) \<Longrightarrow> \<exists>a s r c. get a = Response s r c p"
proof (induction as arbitrary: sl n)
  case Nil
  then show ?case by simp
next
  case (Cons a as)
  show ?case
  proof (cases "attempt_get u (get a)")
    case (Inl e)
    then show ?thesis using Cons by (auto split: if_splits prod.splits)
  next
    case (Inr r)
    then show ?thesis using Cons.prems
      by (auto simp: attempt_get_def split: response.splits if_splits)
  qed
qed

lemma download_single_success_pos:
  assumes "\<forall>u a s r ct b. net u a = Response s r ct b \<longrightarrow> b \<noteq> []"
    and "download_single dl cfg net st m = (Success f sz, st', sl, n)"
  shows "0 < sz"
proof -
  obtain p ct where "fetch cfg net (url m) = (Inr (Some (p, ct)), sl, n)" "sz = length p"
    using assms(2) by (rule download_single_success_inv) auto
  moreover obtain a s r c where "net (url m) a = Response s r c p"
    using fetch_iter_body [OF calculation(1) [unfolded fetch_def]] by blast
  ultimately show ?thesis using assms(1) by auto
qed

lemma download_single_success_file_at:
  assumes "download_single dl cfg net st m = (Success f sz, st', sl, n)"
  shows "\<exists>e. file_at st' (mem_target dl m, f) = Some e \<and> length (content e) = sz
    \<and> (\<forall>q. q \<noteq> (mem_target dl m, f) \<longrightarrow> file_at st' q = file_at st q)
    \<and> prefix (mem_stem dl m) f \<and> is_dir st' (mem_target dl m) \<and> set (dirs st) \<subseteq> set (dirs st')"
proof -
  let ?d = "mem_target dl m" and ?s = "mem_stem dl m"
  obtain p ct where p: "sz = length p"
    "f = collision_loop (makedirs st ?d) ?d ?s (resolve_extension ct p) (?s @ ''.'' @ resolve_extension ct p) 1"
    "st' = (makedirs st ?d)\<lparr>files := AList.update (?d, f)
             \<lparr>content = p, mtime = snd (date_folder (organization_mode dl) (date m))\<rparr> (files st)\<rparr>"
    using assms by (rule download_single_success_store)
  have "prefix ?s f" unfolding p(2) by (rule collision_loop_prefix) simp
  moreover have "file_at st' q = (if q = (?d, f)
      then Some \<lparr>content = p, mtime = snd (date_folder (organization_mode dl) (date m))\<rparr> else file_at st q)" for q
    using p(3) by (simp add: file_at_def update_conv' makedirs_def)
  moreover have "is_dir st' ?d" using p(3) makedirs_target [of st ?d] by (simp add: is_dir_def makedirs_def)
  moreover have "set (dirs st) \<subseteq> set (dirs st')" using p(3) by (auto simp: makedirs_def)
  ultimately show ?thesis using p(1) by auto
qed

text \<open>A run in which every call succeeds with a non-empty payload keeps every
  file non-empty, keeps every file and directory, and leaves for each memory
  a file with its stem in its target directory.\<close>

lemma run_downloads_all_success:
  assumes "run_downloads dl cfg net st ms = (rs, st1, n)" and "\<forall>x\<in>set rs. is_success (snd x)"
    and "\<forall>u a s r ct b. net u a = Response s r ct b \<longrightarrow> b \<noteq> []"
    and "\<forall>q e. file_at st q = Some e \<longrightarrow> content e \<noteq> []"
  shows "(\<forall>q e. file_at st1 q = Some e \<longrightarrow> content e \<noteq> []) \<and> (\<forall>q. file_at st q \<noteq> None \<longrightarrow> file_at st1 q \<noteq> None)
    \<and> set (dirs st) \<subseteq> set (dirs st1)
    \<and> (\<forall>m\<in>set ms. is_dir st1 (mem_target dl m) \<and> (\<exists>f. file_at st1 (mem_target dl m, f) \<noteq> None \<and> prefix (mem_stem dl m) f))"
  using assms
proof (induction ms arbitrary: st rs n)
  case Nil
  then show ?case by simp
next
  case (Cons m ms)
  obtain out st' sl k where d: "download_single dl cfg net st m = (out, st', sl, k)"
    by (cases "download_single dl cfg net st m") auto
  obtain rs' n' where r: "run_downloads dl cfg net st' ms = (rs', st1, n')" "rs = (m, out) # rs'"
    using Cons.prems(1) d by (auto split: prod.splits)
  obtain f sz where out: "out = Success f sz" using Cons.prems(2) r(2) by (cases out) auto
  have pos: "0 < sz" using download_single_success_pos [OF Cons.prems(3)] d out by blast
  obtain e where e: "file_at st' (mem_target dl m, f) = Some e" "length (content e) = sz"
    "\<forall>q. q \<noteq> (mem_target dl m, f) \<longrightarrow> file_at st' q = file_at st q"
    "prefix (mem_stem dl m) f" "is_dir st' (mem_target dl m)" "set (dirs st) \<subseteq> set (dirs st')"
    using download_single_success_file_at [OF d [unfolded out]] by blast
  have ne: "\<forall>q e. file_at st' q = Some e \<longrightarrow> content e \<noteq> []"
  proof (intro allI impI)
    fix q e' assume q: "file_at st' q = Some e'"
    show "content e' \<noteq> []"
    proof (cases "q = (mem_target dl m, f)")
      case True
      then show ?thesis using q e(1,2) pos by auto
    next
      case False
      then have "file_at st q = Some e'" using q e(3) by simp
      then show ?thesis using Cons.prems(4) by blast
    qed
  qed
  have keep: "\<forall>q. file_at st q \<noteq> None \<longrightarrow> file_at st' q \<noteq> None"
    using e(1,3) by (metis option.distinct(1))
  have IH: "(\<forall>q e. file_at st1 q = Some e \<longrightarrow> content e \<noteq> []) \<and> (\<forall>q. file_at st' q \<noteq> None \<longrightarrow> file_at st1 q \<noteq> None)
    \<and> set (dirs st') \<subseteq> set (dirs st1)
    \<and> (\<forall>m\<in>set ms. is_dir st1 (mem_target dl m) \<and> (\<exists>f. file_at st1 (mem_target dl m, f) \<noteq> None \<and> prefix (mem_stem dl m) f))"
    using Cons.IH [OF r(1) _ Cons.prems(3) ne] Cons.prems(2) r(2) by simp
  have "is_dir st1 (mem_target dl m)" using IH e(5) by (auto simp: is_dir_def)
  moreover have "file_at st1 (mem_target dl m, f) \<noteq> None" using IH e(1) by simp
  ultimately show ?case using IH keep e(4,6) by auto
qed

lemma makedirs_present: "set (ancestors d) \<subseteq> set (dirs st) \<Longrightarrow> makedirs st d = st"
  by (simp add: makedirs_def subset_iff)

section \<open>Properties of the phases\<close>

text \<open>C23. A re-run over memories that are all on disk already: every memory
  is skipped without a request, no file is written, and the summary reports
  no download, every memory as skipped, a total size of \<open>0.00 B\<close>, and ends
  with ``All memories were already downloaded''. The store is the one the
  \<open>mkdir\<close> of the output directory made.\<close>

theorem rerun_reports_all_skipped:
  assumes "mkdirs st (output_dir dl) = Inr st0"
    and "\<forall>m\<in>set ms. \<exists>f sz. skip_check st0 (mem_target dl m) (mem_stem dl m) = Inr (Some (f, sz))"
  shows "download_phase dl cfg net mw el absdir ms con st
     = (Inr (),
        print_lines
          (summary_counts \<lparr>success_count = 0, skipped_count = length ms, failed_count = 0, total_size = 0, failed_items = []\<rparr>
           @ [colored (utf8 [0xF0, 0x9F, 0x93, 0x81] @ '' Total size downloaded: 0.00 B'') CYAN]
           @ time_lines 0 el
           @ [colored (utf8 [0xF0, 0x9F, 0x93, 0x82] @ '' Output folder: '' @ absdir) BLUE,
              colored (rule80 @ NL) BLUE,
              colored (utf8 [0xE2, 0x84, 0xB9, 0xEF, 0xB8, 0x8F] @ ''  All memories were already downloaded'') YELLOW])
          (download_start (length ms) mw con),
        st0)"
proof -
  obtain rs where rs: "run_downloads dl cfg net st0 ms = (rs, st0, 0)"
    "length rs = length ms" "\<forall>x\<in>set rs. is_skipped (snd x)"
    using run_downloads_skipped [OF assms(2)] by blast
  have "tally rs = \<lparr>success_count = 0, skipped_count = length ms, failed_count = 0, total_size = 0, failed_items = []\<rparr>"
    using foldl_tally_skipped [OF rs(3), of stats0] rs(2) by (simp add: tally_def stats0_def)
  then show ?thesis
    using rs(1) assms(1) by (simp add: download_phase_def download_all_def download_summary_def format_size_zero
        failed_lines_def verdict_line_def)
qed

theorem rerun_reports_all_skipped_witness:
  "download_phase ex_dl ex_cfg ex_net 4 (5, 2) ''/home/u/out'' [ex_m1] \<lparr>inp = [], outp = []\<rparr> ex_st2
     = (Inr (),
        print_lines
          (summary_counts \<lparr>success_count = 0, skipped_count = length [ex_m1], failed_count = 0, total_size = 0, failed_items = []\<rparr>
           @ [colored (utf8 [0xF0, 0x9F, 0x93, 0x81] @ '' Total size downloaded: 0.00 B'') CYAN]
           @ time_lines 0 (5, 2)
           @ [colored (utf8 [0xF0, 0x9F, 0x93, 0x82] @ '' Output folder: '' @ ''/home/u/out'') BLUE,
              colored (rule80 @ NL) BLUE,
              colored (utf8 [0xE2, 0x84, 0xB9, 0xEF, 0xB8, 0x8F] @ ''  All memories were already downloaded'') YELLOW])
          (download_start (length [ex_m1]) 4 \<lparr>inp = [], outp = []\<rparr>),
        ex_st2)"
  by (rule rerun_reports_all_skipped [where st0 = ex_st2]) (simp_all add: model_eval store_eval ancestors_def)

text \<open>C2. Idempotence of the download engine, as the specification states it:
  after a run in which every memory was downloaded (into a store whose files
  are all non-empty, from a server that never sends an empty body), a second
  run over the same memories makes no request, writes nothing, and reports
  as many skipped memories as the first run reported downloads.\<close>

theorem download_all_idempotent:
  assumes "\<forall>q e. file_at st q = Some e \<longrightarrow> content e \<noteq> []"
    and "\<forall>u a s r ct b. net u a = Response s r ct b \<longrightarrow> b \<noteq> []"
    and "download_all dl cfg net st ms = Inr (s, st1, n)" and "success_count s = length ms"
  shows "download_all dl cfg net' st1 ms
       = Inr (\<lparr>success_count = 0, skipped_count = success_count s, failed_count = 0, total_size = 0, failed_items = []\<rparr>, st1, 0)"
proof -
  obtain st0 where m0: "mkdirs st (output_dir dl) = Inr st0"
    using assms(3) by (auto simp: download_all_def split: sum.splits)
  let ?st0 = "makedirs st (output_dir dl)"
  have st0: "st0 = ?st0" using mkdirs_Inr [OF m0] .
  obtain rs where r: "run_downloads dl cfg net ?st0 ms = (rs, st1, n)" and s: "s = tally rs"
    using assms(3) m0 st0 by (auto simp: download_all_def split: prod.splits)
  have len: "length rs = length ms" using run_downloads_memories [OF r] by (metis length_map)
  have "length (filter (is_success \<circ> snd) rs) = length rs"
    using assms(4) len by (simp add: s tally_def tally_foldl stats0_def summary_spec_def)
  then have succ: "\<forall>x\<in>set rs. is_success (snd x)"
    by (metis comp_apply length_filter_less less_irrefl)
  have ne0: "\<forall>q e. file_at ?st0 q = Some e \<longrightarrow> content e \<noteq> []" using assms(1) by simp
  note run = run_downloads_all_success [OF r succ assms(2) ne0]
  have "set (ancestors (output_dir dl)) \<subseteq> set (dirs ?st0)" using is_dir_makedirs [of st "output_dir dl"] by (auto simp: is_dir_def)
  then have mk: "makedirs st1 (output_dir dl) = st1" using run by (intro makedirs_present) blast
  have "is_dir st1 (output_dir dl)" using makedirs_target [of st "output_dir dl"] run by (auto simp: is_dir_def)
  then have mk1: "mkdirs st1 (output_dir dl) = Inr st1" using mk by (simp add: mkdirs_def)
  have "\<forall>m\<in>set ms. \<exists>f sz. skip_check (makedirs st1 (output_dir dl)) (mem_target dl m) (mem_stem dl m) = Inr (Some (f, sz))"
  proof
    fix m assume m: "m \<in> set ms"
    obtain f e where f: "file_at st1 (mem_target dl m, f) = Some e" "prefix (mem_stem dl m) f" "is_dir st1 (mem_target dl m)"
      using run m by blast
    have all: "\<forall>n e. file_at st1 (mem_target dl m, n) = Some e \<longrightarrow> prefix (mem_stem dl m) n \<longrightarrow> content e \<noteq> []"
      using run by blast
    have "content e \<noteq> []" using run f(1) by blast
    then obtain h sz where "skip_check st1 (mem_target dl m) (mem_stem dl m) = Inr (Some (h, sz))"
      using skip_check_hit [OF f(3) f(1) _ f(2) all] by blast
    then show "\<exists>f sz. skip_check (makedirs st1 (output_dir dl)) (mem_target dl m) (mem_stem dl m) = Inr (Some (f, sz))"
      using mk by auto
  qed
  then obtain rs2 where r2: "run_downloads dl cfg net' (makedirs st1 (output_dir dl)) ms = (rs2, makedirs st1 (output_dir dl), 0)"
    "length rs2 = length ms" "\<forall>x\<in>set rs2. is_skipped (snd x)"
    using run_downloads_skipped by blast
  have "tally rs2 = \<lparr>success_count = 0, skipped_count = success_count s, failed_count = 0, total_size = 0, failed_items = []\<rparr>"
    using foldl_tally_skipped [OF r2(3), of stats0] r2(2) assms(4) by (simp add: tally_def stats0_def)
  then show ?thesis using r2(1) mk mk1 by (simp add: download_all_def)
qed

theorem download_all_idempotent_witness:
  "download_all ex_dl ex_cfg (\<lambda>u a. TransportError ''offline'') ex_st2 [ex_m1]
   = Inr (\<lparr>success_count = 0, skipped_count = success_count (tally [(ex_m1, Success ''2025-12-15.png'' 2)]), failed_count = 0,
       total_size = 0, failed_items = []\<rparr>, ex_st2, 0)"
  by (rule download_all_idempotent [OF _ _ download_all_example]) (simp_all add: file_at_def tally_def stats0_def)

end
