(* ===== verification/Cli.thy ===== *)
theory Cli
  imports Report
begin

text \<open>
  The entry point \<open>main\<close> of \<open>src/main.py\<close> (lines 12--45): the banner, the
  three prompts, the parse of the HTML export, the download phase and the
  ZIP phase, one after the other on one console and one store, and the
  handler of lines 36--45 that turns the outcome into an exit status. The
  constants \<open>HTML_FILE\<close>, \<open>OUTPUT_DIR\<close> and \<open>MAX_WORKERS\<close> of the absent
  \<open>src/config.py\<close>, with the absolute path of the output folder and the
  elapsed time of the download phase, are the record \<open>run_env\<close>; the text
  of the export file (\<open>None\<close> if it does not exist) is the parameter
  \<open>html\<close>. The download phase is the sequential \<open>download_all\<close>, which
  theory \<open>Workers\<close> shows to be the result of one interleaving of the pool.
\<close>

record run_env =
  html_file :: string
  out_dir :: string
  max_workers :: nat
  abs_out :: string
  elapsed :: "nat \<times> nat"

text \<open>Lines 21--33, after the prompts: an exception, or \<open>sys.exit(n)\<close> as
  \<open>SystemExit n\<close>, ends the run with the console and the store as they are
  at that point.\<close>

definition main_run ::
  "zip_env \<Rightarrow> net_config \<Rightarrow> network \<Rightarrow> run_env \<Rightarrow> string \<Rightarrow> string \<Rightarrow> string \<Rightarrow> string option \<Rightarrow>
   console \<Rightarrow> store \<Rightarrow> unit result \<times> console \<times> store" where
  "main_run env cfg net re org fmt zip_mode html con st =
     (case parse_phase (html_file re) html con of
        (Inl e, con1) \<Rightarrow> (Inl e, con1, st)
      | (Inr [], con1) \<Rightarrow>
          (Inl (SystemExit 1), print_color (utf8 [0xE2, 0x9D, 0x8C] @ '' No memories found in HTML file'') RED con1, st)
      | (Inr ms, con1) \<Rightarrow>
          (let dl = \<lparr>output_dir = out_dir re, organization_mode = org, filename_format = fmt\<rparr>
           in case download_phase dl cfg net (max_workers re) (elapsed re) (abs_out re) ms con1 st of
                (Inl e, con2, st1) \<Rightarrow> (Inl e, con2, st1)
              | (Inr _, con2, st1) \<Rightarrow>
                  (case zip_phase env cfg \<lparr>zp_output_dir = out_dir re, zp_mode = zip_mode, zp_filename_format = fmt\<rparr>
                          con2 st1 of
                     (con3, st2) \<Rightarrow> (Inr (), con3, st2))))"

text \<open>Lines 13--15.\<close>

definition main_banner :: "console \<Rightarrow> console" where
  "main_banner con =
     print_color (rule80 @ NL) BLUE
       (print_color (utf8 [0xF0, 0x9F, 0x93, 0xB8] @ '' SNAPCHAT MEMORIES DOWNLOADER'') BOLD
         (print_color (NL @ rule80) BLUE con))"

text \<open>Lines 43--45.\<close>

definition unexpected_error :: "pyerr \<Rightarrow> console \<Rightarrow> console" where
  "unexpected_error e con = print_color (NL @ utf8 [0xE2, 0x9D, 0x8C] @ '' Unexpected Error : '' @ str_err e) RED con"

text \<open>Lines 36--45: \<open>main\<close> returns (status 0), calls \<open>sys.exit(n)\<close>, whose
  \<open>SystemExit\<close> is no \<open>Exception\<close> and passes the handler, or raises an
  exception, which the handler prints before \<open>sys.exit(1)\<close>.\<close>

definition main_exit :: "unit result \<times> console \<times> store \<Rightarrow> nat \<times> console \<times> store" where
  "main_exit r =
     (case r of
        (Inr _, con, st) \<Rightarrow> (0, con, st)
      | (Inl (SystemExit n), con, st) \<Rightarrow> (n, con, st)
      | (Inl e, con, st) \<Rightarrow> (1, unexpected_error e con, st))"

text \<open>\<open>main\<close>, lines 12--33, run as the script: the banner, the three prompts
  (an \<open>EOFError\<close> of one of them reaches the handler), then \<open>main_run\<close>.\<close>

definition main_prog ::
  "zip_env \<Rightarrow> net_config \<Rightarrow> network \<Rightarrow> run_env \<Rightarrow> string option \<Rightarrow> console \<Rightarrow> store \<Rightarrow> nat \<times> console \<times> store" where
  "main_prog env cfg net re html con st =
     main_exit
       (case ask_organization_mode (main_banner con) of
          (Inl e, con1) \<Rightarrow> (Inl e, con1, st)
        | (Inr org, con1) \<Rightarrow>
            (case ask_filename_format con1 of
               (Inl e, con2) \<Rightarrow> (Inl e, con2, st)
             | (Inr fmt, con2) \<Rightarrow>
                 (case ask_processing_mode con2 of
                    (Inl e, con3) \<Rightarrow> (Inl e, con3, st)
                  | (Inr zm, con3) \<Rightarrow> main_run env cfg net re org fmt zm html con3 st)))"

text \<open>The configuration of the worked examples.\<close>

abbreviation ex_re :: run_env where
  "ex_re \<equiv> \<lparr>html_file = ''memories_history.html'', out_dir = ''out'', max_workers = 4,
             abs_out = ''/home/u/out'', elapsed = (5, 2)\<rparr>"

text \<open>A store in which \<open>out\<close> is a regular file of the working directory.\<close>

abbreviation ex_st2b :: store where
  "ex_st2b \<equiv> \<lparr>files = [(([], ''out''), \<lparr>content = [1], mtime = None\<rparr>)], dirs = [], dir_size = 4096\<rparr>"

section \<open>Lemmas\<close>

lemma inp_main_banner [simp]: "inp (main_banner con) = inp con"
  by (simp add: main_banner_def)

lemma parse_phase_ok:
  assumes "parse_html html = Inr ms"
  obtains con1 where "parse_phase hfile html con = (Inr ms, con1)"
  using parse_phase_result [of hfile html con] assms by (cases "parse_phase hfile html con") auto

lemma ex_malformed_parse:
  "parse_html (Some (render_row ''2025-12-15 21:31:58 UTC'' ''Image'' ''Latitude, Longitude: 1.2.3, 4.5'' ''u1''))
   = Inl (ValueError (''could not convert string to float: '' @ [quote_char] @ ''1.2.3'' @ [quote_char]))"
  by code_simp

section \<open>Properties of the whole run\<close>

text \<open>C13. Across the two phases: when the export holds memories and the
  download phase ends normally (its \<open>mkdir\<close> succeeds and the bytes
  downloaded stay below \<open>2^53\<close>, so that \<open>format_size\<close> cannot overflow),
  \<open>main\<close> ends normally and the store it leaves is the one the download
  phase left. The ZIP phase changes nothing, so every downloaded bundle
  stays a \<open>.zip\<close> file (by \<open>ZipProcessor.process_all\<close> raising
  \<open>TypeError\<close> for each bundle).\<close>

theorem main_zip_phase_noop:
  assumes "parse_html html = Inr ms" and "ms \<noteq> []"
    and "download_all \<lparr>output_dir = out_dir re, organization_mode = org, filename_format = fmt\<rparr> cfg net st ms
         = Inr (s, st1, n)"
    and "total_size s < 2 ^ 53"
  shows "fst (main_run env cfg net re org fmt zip_mode html con st) = Inr ()
       \<and> snd (snd (main_run env cfg net re org fmt zip_mode html con st)) = st1"
proof -
  define dl where "dl = \<lparr>output_dir = out_dir re, organization_mode = org, filename_format = fmt\<rparr>"
  obtain con1 where p: "parse_phase (html_file re) html con = (Inr ms, con1)" using parse_phase_ok [OF assms(1)] by blast
  obtain m ms' where ms: "ms = m # ms'" using assms(2) by (cases ms) auto
  obtain r con2 st1' where d: "download_phase dl cfg net (max_workers re) (elapsed re) (abs_out re) ms con1 st = (r, con2, st1')"
    by (cases "download_phase dl cfg net (max_workers re) (elapsed re) (abs_out re) ms con1 st") auto
  have "r = Inr () \<and> st1' = st1"
    using download_phase_Inr [OF assms(3) [folded dl_def] assms(4), of "max_workers re" "elapsed re" "abs_out re" con1] d
    by simp
  then have r: "r = Inr ()" and st1: "st1' = st1" by simp_all
  obtain con3 st2 where z: "zip_phase env cfg \<lparr>zp_output_dir = out_dir re, zp_mode = zip_mode, zp_filename_format = fmt\<rparr> con2 st1' = (con3, st2)"
    by fastforce
  have "st2 = st1'"
    using zip_phase_store [of env cfg "\<lparr>zp_output_dir = out_dir re, zp_mode = zip_mode, zp_filename_format = fmt\<rparr>" con2 st1'] z
    by simp
  then show ?thesis using p d z r st1 ms by (simp add: main_run_def dl_def [symmetric])
qed

theorem main_zip_phase_noop_witness:
  "fst (main_run ex_zenv ex_cfg ex_net ex_re ''by_date'' ''3'' ''composed''
      (Some (render_row ''2025-12-15 21:31:58 UTC'' ''Image'' ''x'' ''u1'')) \<lparr>inp = [], outp = []\<rparr> ex_st0) = Inr ()
   \<and> snd (snd (main_run ex_zenv ex_cfg ex_net ex_re ''by_date'' ''3'' ''composed''
      (Some (render_row ''2025-12-15 21:31:58 UTC'' ''Image'' ''x'' ''u1'')) \<lparr>inp = [], outp = []\<rparr> ex_st0)) = ex_st2"
proof -
  have da: "download_all \<lparr>output_dir = out_dir ex_re, organization_mode = ''by_date'', filename_format = ''3''\<rparr>
      ex_cfg ex_net ex_st0 [ex_m1] = Inr (tally [(ex_m1, Success ''2025-12-15.png'' 2)], ex_st2, 1)"
    using download_all_example by simp
  show ?thesis by (rule main_zip_phase_noop [OF ex_doc_parse _ da]) (simp_all add: tally_def stats0_def)
qed

text \<open>C15. A row with a malformed coordinate aborts the run: when the first
  row with a new URL whose coordinate \<open>float\<close> rejects comes after rows
  whose coordinates all convert, the parser raises that \<open>ValueError\<close> after
  ``Reading HTML file'', whatever follows the row; the handler prints it as
  an unexpected error, \<open>main\<close> exits with status 1 and no memory is
  downloaded.\<close>

theorem main_malformed_coordinate:
  assumes "re_findall_rows doc = pre @ (d, t, l, u) # post"
    and "\<forall>r\<in>set pre. \<exists>c. coords (fst (snd (snd r))) = Inr c"
    and "u \<notin> set (map (snd \<circ> snd \<circ> snd) pre)" and "coords l = Inl e"
  shows "main_exit (main_run env cfg net re org fmt zip_mode (Some doc) con st)
   = (1, unexpected_error e (print_color (utf8 [0xF0, 0x9F, 0x93, 0x84] @ '' Reading HTML file...'') BLUE con), st)"
proof -
  have "parse_rows [] (re_findall_rows doc) = Inl e"
    unfolding assms(1) using assms(2-4) by (intro parse_rows_error) simp_all
  moreover obtain msg where "e = ValueError msg" using coords_Inl [OF assms(4)] by blast
  ultimately show ?thesis by (simp add: main_run_def main_exit_def parse_phase_def Let_def)
qed

theorem main_malformed_coordinate_witness:
  "main_exit (main_run ex_zenv ex_cfg ex_net ex_re ''by_date'' ''3'' ''composed''
     (Some (render_row ''2025-12-15 21:31:58 UTC'' ''Image'' ''Latitude, Longitude: 1.5, 4.5'' ''u1''
        @ render_row ''2025-12-16 08:00:00 UTC'' ''Video'' ''Latitude, Longitude: 1.2.3, 4.5'' ''u2''
        @ render_row ''2025-12-17 08:00:00 UTC'' ''Image'' ''x'' ''u3'')) \<lparr>inp = [], outp = []\<rparr> ex_st0)
   = (1, unexpected_error (ValueError (''could not convert string to float: '' @ [quote_char] @ ''1.2.3'' @ [quote_char]))
          (print_color (utf8 [0xF0, 0x9F, 0x93, 0x84] @ '' Reading HTML file...'') BLUE \<lparr>inp = [], outp = []\<rparr>), ex_st0)"
proof -
  have f: "re_findall_rows (render_row ''2025-12-15 21:31:58 UTC'' ''Image'' ''Latitude, Longitude: 1.5, 4.5'' ''u1''
        @ render_row ''2025-12-16 08:00:00 UTC'' ''Video'' ''Latitude, Longitude: 1.2.3, 4.5'' ''u2''
        @ render_row ''2025-12-17 08:00:00 UTC'' ''Image'' ''x'' ''u3'')
    = [(''2025-12-15 21:31:58 UTC'', ''Image'', ''Latitude, Longitude: 1.5, 4.5'', ''u1'')]
      @ (''2025-12-16 08:00:00 UTC'', ''Video'', ''Latitude, Longitude: 1.2.3, 4.5'', ''u2'')
      # [(''2025-12-17 08:00:00 UTC'', ''Image'', ''x'', ''u3'')]"
    by code_simp
  have c1: "coords ''Latitude, Longitude: 1.5, 4.5'' = Inr (Some ''1.5'', Some ''4.5'')" by code_simp
  have c2: "coords ''Latitude, Longitude: 1.2.3, 4.5''
      = Inl (ValueError (''could not convert string to float: '' @ [quote_char] @ ''1.2.3'' @ [quote_char]))"
    by code_simp
  show ?thesis by (rule main_malformed_coordinate [OF f _ _ c2]) (simp_all add: c1)
qed

text \<open>C14. An output folder that is a regular file: after the parse, the
  \<open>mkdir\<close> of line 110 of \<open>downloader.py\<close> raises
  \<open>FileExistsError\<close> before the start line is printed; the handler prints it
  as an unexpected error, \<open>main\<close> exits with status 1, nothing is
  requested and the store is unchanged.\<close>

theorem main_output_dir_file:
  assumes "parse_html html = Inr ms" and "ms \<noteq> []"
    and "file_path st (out_dir re)" and "\<not> is_dir st (out_dir re)"
  shows "main_exit (main_run env cfg net re org fmt zip_mode html con st)
   = (1, unexpected_error (OSError (''[Errno 17] File exists: '' @ quoted (out_dir re)))
          (snd (parse_phase (html_file re) html con)), st)"
proof -
  obtain con1 where p: "parse_phase (html_file re) html con = (Inr ms, con1)" using parse_phase_ok [OF assms(1)] by blast
  obtain m ms' where ms: "ms = m # ms'" using assms(2) by (cases ms) auto
  have "mkdirs st (out_dir re) = Inl (OSError (''[Errno 17] File exists: '' @ quoted (out_dir re)))"
    using assms(3,4) by (simp add: mkdirs_def)
  then show ?thesis using p ms by (simp add: main_run_def main_exit_def download_phase_def download_all_def)
qed

theorem main_output_dir_file_witness:
  "main_exit (main_run ex_zenv ex_cfg ex_net ex_re ''by_date'' ''3'' ''composed''
      (Some (render_row ''2025-12-15 21:31:58 UTC'' ''Image'' ''x'' ''u1'')) \<lparr>inp = [], outp = []\<rparr> ex_st2b)
   = (1, unexpected_error (OSError (''[Errno 17] File exists: '' @ quoted ''out''))
          (snd (parse_phase ''memories_history.html'' (Some (render_row ''2025-12-15 21:31:58 UTC'' ''Image'' ''x'' ''u1''))
            \<lparr>inp = [], outp = []\<rparr>)), ex_st2b)"
  using main_output_dir_file [where re = ex_re and st = ex_st2b, OF ex_doc_parse] by (simp add: store_eval path_join_def)

text \<open>C22. Without an export file the parser prints its error and calls
  \<open>sys.exit(1)\<close>; \<open>SystemExit\<close> is not an \<open>Exception\<close>, so the handler of
  line 43 prints nothing more, the status is 1 and no file is written.\<close>

theorem main_no_export:
  "main_exit (main_run env cfg net re org fmt zip_mode None con st)
   = (1, print_lines [colored (utf8 [0xF0, 0x9F, 0x93, 0x84] @ '' Reading HTML file...'') BLUE,
                      colored (utf8 [0xE2, 0x9D, 0x8C] @ '' Error: File '' @ html_file re @ '' does not exist'') RED] con, st)"
  by (simp add: main_run_def main_exit_def parse_phase_def print_color_lines)

text \<open>C20. The three prompts feed the run: when the first three lines the
  user types are valid choices, \<open>main\<close> is \<open>main_run\<close> with the options they
  select (organisation, file-name variant, ZIP mode, in this order) on the
  console that has read exactly those three lines.\<close>

theorem main_prog_options:
  assumes "inp con = a # b # c # rest"
    and "choose_org (py_strip a) = Some org" and "choose_fmt (py_strip b) = Some fmt"
    and "choose_zip (py_strip c) = Some zm"
  shows "\<exists>con3. inp con3 = rest \<and> main_prog env cfg net re html con st = main_exit (main_run env cfg net re org fmt zm html con3 st)"
proof -
  obtain c1 where 1: "ask_organization_mode (main_banner con) = (Inr org, c1)" "inp c1 = b # c # rest"
    using ask_first(1) [of "main_banner con" a "b # c # rest" org] assms(1,2) by (metis prod.collapse inp_main_banner)
  obtain c2 where 2: "ask_filename_format c1 = (Inr fmt, c2)" "inp c2 = c # rest"
    using ask_first(2) [OF 1(2) assms(3)] by (metis prod.collapse)
  obtain c3 where 3: "ask_processing_mode c2 = (Inr zm, c3)" "inp c3 = rest"
    using ask_first(3) [OF 2(2) assms(4)] by (metis prod.collapse)
  show ?thesis using 1 2 3 by (auto simp: main_prog_def)
qed

theorem main_prog_options_witness:
  "\<exists>con3. inp con3 = [] \<and> main_prog ex_zenv ex_cfg ex_net ex_re None \<lparr>inp = ['' 2 '', ''3'', ''1''], outp = []\<rparr> ex_st0
     = main_exit (main_run ex_zenv ex_cfg ex_net ex_re ''flat'' ''3'' ''both'' None con3 ex_st0)"
  by (rule main_prog_options [where a = "'' 2 ''" and b = "''3''" and c = "''1''"])
    (simp_all add: choose_org_def choose_fmt_def choose_zip_def py_strip_def py_space_def)

text \<open>C21. When the input ends before a valid organisation choice, \<open>input()\<close>
  raises \<open>EOFError\<close>, the handler of line 43 prints it in red and the program
  exits with status 1; nothing is parsed or downloaded.\<close>

theorem main_prog_eof:
  assumes "list_all (\<lambda>x. choose_org (py_strip x) = None) (inp con)"
  shows "\<exists>w. main_prog env cfg net re html con st
    = (1, \<lparr>inp = [], outp = w @ RED @ NL @ utf8 [0xE2, 0x9D, 0x8C] @ '' Unexpected Error : EOF when reading a line'' @ RESET @ NL\<rparr>, st)"
proof -
  obtain w where "ask_organization_mode (main_banner con) = (Inl EOFError, \<lparr>inp = [], outp = w\<rparr>)"
    using ask_organization_mode_eof [of "main_banner con"] assms by auto
  then show ?thesis
    by (simp add: main_prog_def main_exit_def unexpected_error_def print_color_def print_line_def)
qed

theorem main_prog_eof_witness:
  "\<exists>w. main_prog ex_zenv ex_cfg ex_net ex_re None \<lparr>inp = [''x''], outp = []\<rparr> ex_st0
    = (1, \<lparr>inp = [], outp = w @ RED @ NL @ utf8 [0xE2, 0x9D, 0x8C] @ '' Unexpected Error : EOF when reading a line'' @ RESET @ NL\<rparr>, ex_st0)"
  by (rule main_prog_eof) (simp add: choose_org_def py_strip_def py_space_def)

end
