(* ===== verification/Workers.thy ===== *)
theory Workers
  imports Downloader
begin

text \<open>
  The download phase as it runs: \<open>download_all\<close> submits every memory to a
  \<open>ThreadPoolExecutor\<close> of \<open>max_workers\<close> threads (\<open>src/src/downloader.py\<close>,
  lines 127--131), and the workers share the file system. One call of
  \<open>download_single\<close> is split where another worker's writes can interleave:
  the skip check and the fetch (lines 40--83, which write nothing), the
  \<open>mkdir\<close> (whose error ends the task through the \<open>except\<close> clauses) and
  the collision loop that picks the name (85--93), and the write
  with its \<open>utime\<close> (95--102). The interleavings are the inductive relation
  \<open>wstep\<close> on a state holding one phase per submitted memory and the store; the
  executor starts tasks in submission order and runs at most \<open>max_workers\<close>
  of them at once. The counters are updated by the main thread on each
  completion (lines 133--153) and are therefore not part of the race; their
  independence of the completion order is \<open>Downloader.tally_order_independent\<close>.
  The result is the race of two memories with the same stem.
\<close>

text \<open>The phase of one submitted memory.\<close>

datatype wphase =
    Queued memory
  | Ready memory string bytes
  | Named memory string bytes
  | Finished memory outcome

record wstate =
  phases :: "wphase list"
  wstore :: store

fun wmem :: "wphase \<Rightarrow> memory" where
  "wmem (Queued m) = m"
| "wmem (Ready m _ _) = m"
| "wmem (Named m _ _) = m"
| "wmem (Finished m _) = m"

fun is_queued :: "wphase \<Rightarrow> bool" where
  "is_queued (Queued _) = True"
| "is_queued _ = False"

fun is_active :: "wphase \<Rightarrow> bool" where
  "is_active (Ready _ _ _) = True"
| "is_active (Named _ _ _) = True"
| "is_active _ = False"

definition busy :: "wphase list \<Rightarrow> nat" where
  "busy ps = length (filter is_active ps)"

definition winit :: "memory list \<Rightarrow> store \<Rightarrow> wstate" where
  "winit ms st = \<lparr>phases = map Queued ms, wstore = st\<rparr>"

text \<open>Lines 40--83 of \<open>download_single\<close>: the skip check on the store as it
  is when the task starts, the retry loop and the extension. Either the
  task ends here with its outcome, or it holds the extension and the payload.\<close>

definition wk_prepare ::
  "downloader \<Rightarrow> net_config \<Rightarrow> network \<Rightarrow> store \<Rightarrow> memory \<Rightarrow> outcome + string \<times> bytes" where
  "wk_prepare dl cfg net st m =
     (case skip_check st (mem_target dl m) (mem_stem dl m) of
        Inl e \<Rightarrow> Inl (caught (url m) e)
      | Inr (Some (f, sz)) \<Rightarrow> Inl (Skipped f sz)
      | Inr None \<Rightarrow>
          (case fetch cfg net (url m) of
             (Inl e, _, _) \<Rightarrow> Inl (caught (url m) e)
           | (Inr None, _, _) \<Rightarrow> Inl (caught (url m) unbound_content_type)
           | (Inr (Some (payload, ct)), _, _) \<Rightarrow> Inr (resolve_extension ct payload, payload)))"

text \<open>Lines 85--93: \<open>mkdir\<close> and the collision loop, on the store as it is
  when the worker reaches them. An error of \<open>mkdir\<close> is caught by the
  \<open>except\<close> clauses and ends the task.\<close>

definition wk_name :: "downloader \<Rightarrow> store \<Rightarrow> memory \<Rightarrow> string \<Rightarrow> (outcome + string) \<times> store" where
  "wk_name dl st m ext =
     (let tdir = mem_target dl m; stem = mem_stem dl m
      in case mkdirs st tdir of
           Inl e \<Rightarrow> (Inl (caught (url m) e), st)
         | Inr st1 \<Rightarrow> (Inr (collision_loop st1 tdir stem ext (stem @ ''.'' @ ext) 1), st1))"

text \<open>Lines 95--107: \<open>open(filepath, 'wb')\<close>, which truncates a file written
  meanwhile by another worker, then \<open>os.utime\<close>.\<close>

definition wk_write :: "downloader \<Rightarrow> store \<Rightarrow> memory \<Rightarrow> string \<Rightarrow> bytes \<Rightarrow> outcome \<times> store" where
  "wk_write dl st m fname payload =
     (let tdir = mem_target dl m in
      case write_file st (tdir, fname) payload of
        Inl e \<Rightarrow> (caught (url m) e, st)
      | Inr st2 \<Rightarrow>
          (case snd (date_folder (organization_mode dl) (date m)) of
             None \<Rightarrow> (Success fname (length payload), st2)
           | Some t \<Rightarrow> (case utime st2 (tdir, fname) t of
                         Inl e \<Rightarrow> (caught (url m) e, st2)
                       | Inr st3 \<Rightarrow> (Success fname (length payload), st3))))"

text \<open>One step of one worker. A task starts only when every earlier task has
  started (the executor's queue is FIFO) and fewer than \<open>W\<close> tasks are
  between their start and their end.\<close>

inductive wstep :: "nat \<Rightarrow> downloader \<Rightarrow> net_config \<Rightarrow> network \<Rightarrow> wstate \<Rightarrow> wstate \<Rightarrow> bool"
  for W dl cfg net where
  w_start_done:
    "\<lbrakk>i < length (phases s); phases s ! i = Queued m; list_all (\<lambda>p. \<not> is_queued p) (take i (phases s));
      busy (phases s) < W; wk_prepare dl cfg net (wstore s) m = Inl out\<rbrakk>
     \<Longrightarrow> wstep W dl cfg net s (s\<lparr>phases := (phases s)[i := Finished m out]\<rparr>)"
| w_start_ready:
    "\<lbrakk>i < length (phases s); phases s ! i = Queued m; list_all (\<lambda>p. \<not> is_queued p) (take i (phases s));
      busy (phases s) < W; wk_prepare dl cfg net (wstore s) m = Inr (ext, payload)\<rbrakk>
     \<Longrightarrow> wstep W dl cfg net s (s\<lparr>phases := (phases s)[i := Ready m ext payload]\<rparr>)"
| w_name:
    "\<lbrakk>i < length (phases s); phases s ! i = Ready m ext payload; wk_name dl (wstore s) m ext = (Inr fname, st1)\<rbrakk>
     \<Longrightarrow> wstep W dl cfg net s \<lparr>phases = (phases s)[i := Named m fname payload], wstore = st1\<rparr>"
| w_name_error:
    "\<lbrakk>i < length (phases s); phases s ! i = Ready m ext payload; wk_name dl (wstore s) m ext = (Inl out, st1)\<rbrakk>
     \<Longrightarrow> wstep W dl cfg net s \<lparr>phases = (phases s)[i := Finished m out], wstore = st1\<rparr>"
| w_write:
    "\<lbrakk>i < length (phases s); phases s ! i = Named m fname payload; wk_write dl (wstore s) m fname payload = (out, st2)\<rbrakk>
     \<Longrightarrow> wstep W dl cfg net s \<lparr>phases = (phases s)[i := Finished m out], wstore = st2\<rparr>"

abbreviation wreach :: "nat \<Rightarrow> downloader \<Rightarrow> net_config \<Rightarrow> network \<Rightarrow> wstate \<Rightarrow> wstate \<Rightarrow> bool" where
  "wreach W dl cfg net \<equiv> (wstep W dl cfg net)\<^sup>*\<^sup>*"

text \<open>Two memories of the same day under the date-only variant, answered
  with different payloads.\<close>

abbreviation ex_m2 :: memory where
  "ex_m2 \<equiv> \<lparr>url = ''u2'', date = ''2025-12-15 08:00:00 UTC'', mem_type = ''Image'', latitude = None, longitude = None\<rparr>"

abbreviation ex_net2 :: network where
  "ex_net2 \<equiv> \<lambda>u a. Response 200 ''OK'' (Some ''image/png'') (if u = ''u1'' then [1] else [2])"

abbreviation ex_std :: store where
  "ex_std \<equiv> makedirs ex_st1 ''out/2025/12''"

section \<open>Lemmas\<close>

subsection \<open>The example interleaving\<close>

lemma ex_targets:
  "mem_target ex_dl ex_m1 = ''out/2025/12''" "mem_stem ex_dl ex_m1 = ''2025-12-15''"
  "mem_target ex_dl ex_m2 = ''out/2025/12''" "mem_stem ex_dl ex_m2 = ''2025-12-15''"
  by (simp_all add: model_eval)

lemma ex_prepare:
  "wk_prepare ex_dl ex_cfg ex_net2 ex_st1 ex_m1 = Inr (''png'', [1])"
  "wk_prepare ex_dl ex_cfg ex_net2 ex_st1 ex_m2 = Inr (''png'', [2])"
  by (simp_all add: wk_prepare_def ex_targets skip_check_def is_dir_def model_eval download_run_eval)


lemma ex_std_eq: "ex_std = \<lparr>files = [], dirs = [''out'', ''out/2025'', ''out/2025/12''], dir_size = 4096\<rparr>"
  by code_simp

lemma ex_name:
  "wk_name ex_dl ex_st1 ex_m1 ''png'' = (Inr ''2025-12-15.png'', ex_std)"
  "wk_name ex_dl ex_std ex_m2 ''png'' = (Inr ''2025-12-15.png'', ex_std)"
proof -
  have np: "\<not> path_exists ex_std (''out/2025/12'', ''2025-12-15'' @ ''.'' @ ''png'')"
    unfolding ex_std_eq by (simp add: path_exists_def file_at_def is_dir_def full_path_def path_join_def)
  have m1: "mkdirs ex_st1 ''out/2025/12'' = Inr ex_std" by (simp add: mkdirs_no_files)
  have m2: "mkdirs ex_std ''out/2025/12'' = Inr ex_std"
    using mkdirs_no_files [of ex_std "''out/2025/12''"] by (simp add: makedirs_def)
  show "wk_name ex_dl ex_st1 ex_m1 ''png'' = (Inr ''2025-12-15.png'', ex_std)"
    unfolding wk_name_def Let_def ex_targets m1 sum.case
    by (subst collision_loop_free_start [OF np]) simp
  show "wk_name ex_dl ex_std ex_m2 ''png'' = (Inr ''2025-12-15.png'', ex_std)"
    unfolding wk_name_def Let_def ex_targets m2 sum.case collision_loop_free_start [OF np] by simp
qed

lemma race_steps:
  "(wstep 2 ex_dl ex_cfg ex_net2 ^^ 6) (winit [ex_m1, ex_m2] ex_st1)
     \<lparr>phases = [Finished ex_m1 (fst (wk_write ex_dl ex_std ex_m1 ''2025-12-15.png'' [1])),
                Finished ex_m2 (fst (wk_write ex_dl (snd (wk_write ex_dl ex_std ex_m1 ''2025-12-15.png'' [1])) ex_m2 ''2025-12-15.png'' [2]))],
      wstore = snd (wk_write ex_dl (snd (wk_write ex_dl ex_std ex_m1 ''2025-12-15.png'' [1])) ex_m2 ''2025-12-15.png'' [2])\<rparr>"
proof -
  define S0 where "S0 = winit [ex_m1, ex_m2] ex_st1"
  define S1 where "S1 = S0\<lparr>phases := (phases S0)[0 := Ready ex_m1 ''png'' [1]]\<rparr>"
  define S2 where "S2 = S1\<lparr>phases := (phases S1)[1 := Ready ex_m2 ''png'' [2]]\<rparr>"
  define S3 where "S3 = \<lparr>phases = (phases S2)[0 := Named ex_m1 ''2025-12-15.png'' [1]], wstore = ex_std\<rparr>"
  define S4 where "S4 = \<lparr>phases = (phases S3)[1 := Named ex_m2 ''2025-12-15.png'' [2]], wstore = ex_std\<rparr>"
  define w1 where "w1 = wk_write ex_dl ex_std ex_m1 ''2025-12-15.png'' [1]"
  define S5 where "S5 = \<lparr>phases = (phases S4)[0 := Finished ex_m1 (fst w1)], wstore = snd w1\<rparr>"
  define w2 where "w2 = wk_write ex_dl (snd w1) ex_m2 ''2025-12-15.png'' [2]"
  define S6 where "S6 = \<lparr>phases = (phases S5)[1 := Finished ex_m2 (fst w2)], wstore = snd w2\<rparr>"
  have "wstep 2 ex_dl ex_cfg ex_net2 S0 S1"
    unfolding S1_def by (rule w_start_ready) (simp_all add: S0_def winit_def busy_def ex_prepare)
  moreover have "wstep 2 ex_dl ex_cfg ex_net2 S1 S2"
    unfolding S2_def by (rule w_start_ready) (simp_all add: S1_def S0_def winit_def busy_def ex_prepare)
  moreover have "wstep 2 ex_dl ex_cfg ex_net2 S2 S3"
    unfolding S3_def by (rule w_name [where ext = "''png''"]) (simp_all add: S2_def S1_def S0_def winit_def ex_name)
  moreover have "wstep 2 ex_dl ex_cfg ex_net2 S3 S4"
    unfolding S4_def by (rule w_name [where ext = "''png''"]) (simp_all add: S3_def S2_def S1_def S0_def winit_def ex_name)
  moreover have "wstep 2 ex_dl ex_cfg ex_net2 S4 S5"
    unfolding S5_def by (rule w_write) (simp_all add: S4_def S3_def S2_def S1_def S0_def winit_def w1_def)
  moreover have "wstep 2 ex_dl ex_cfg ex_net2 S5 S6"
    unfolding S6_def by (rule w_write) (simp_all add: S5_def S4_def S3_def S2_def S1_def S0_def winit_def w2_def)
  ultimately have r: "(wstep 2 ex_dl ex_cfg ex_net2 ^^ Suc (Suc (Suc (Suc (Suc (Suc 0)))))) S0 S6"
    by (blast intro: relpowp_Suc_I2 relpowp_0_I)
  have n6: "(6::nat) = Suc (Suc (Suc (Suc (Suc (Suc 0)))))" by simp
  have s6: "S6 = \<lparr>phases = [Finished ex_m1 (fst w1), Finished ex_m2 (fst w2)], wstore = snd w2\<rparr>"
    by (simp add: S6_def S5_def S4_def S3_def S2_def S1_def S0_def winit_def)
  have "(wstep 2 ex_dl ex_cfg ex_net2 ^^ 6) S0 S6" unfolding n6 by (rule r)
  then show ?thesis unfolding s6 S0_def w1_def w2_def .
qed

lemma ex_writes:
  "wk_write ex_dl ex_std ex_m1 ''2025-12-15.png'' [1] = (Success ''2025-12-15.png'' 1,
     \<lparr>files = [((''out/2025/12'', ''2025-12-15.png''),
        \<lparr>content = [1], mtime = Some \<lparr>year = 2025, month = 12, day = 15, hour = 21, minute = 31, second = 58\<rparr>\<rparr>)],
      dirs = [''out'', ''out/2025'', ''out/2025/12''], dir_size = 4096\<rparr>)"
  "wk_write ex_dl \<lparr>files = [((''out/2025/12'', ''2025-12-15.png''),
        \<lparr>content = [1], mtime = Some \<lparr>year = 2025, month = 12, day = 15, hour = 21, minute = 31, second = 58\<rparr>\<rparr>)],
      dirs = [''out'', ''out/2025'', ''out/2025/12''], dir_size = 4096\<rparr> ex_m2 ''2025-12-15.png'' [2] = (Success ''2025-12-15.png'' 1,
     \<lparr>files = [((''out/2025/12'', ''2025-12-15.png''),
        \<lparr>content = [2], mtime = Some \<lparr>year = 2025, month = 12, day = 15, hour = 8, minute = 0, second = 0\<rparr>\<rparr>)],
      dirs = [''out'', ''out/2025'', ''out/2025/12''], dir_size = 4096\<rparr>)"
  by (simp_all add: wk_write_def ex_targets Let_def model_eval)

lemma race_trace:
  "wreach 2 ex_dl ex_cfg ex_net2 (winit [ex_m1, ex_m2] ex_st1)
     \<lparr>phases = [Finished ex_m1 (fst (wk_write ex_dl ex_std ex_m1 ''2025-12-15.png'' [1])),
                Finished ex_m2 (fst (wk_write ex_dl (snd (wk_write ex_dl ex_std ex_m1 ''2025-12-15.png'' [1])) ex_m2 ''2025-12-15.png'' [2]))],
      wstore = snd (wk_write ex_dl (snd (wk_write ex_dl ex_std ex_m1 ''2025-12-15.png'' [1])) ex_m2 ''2025-12-15.png'' [2])\<rparr>"
  by (rule relpowp_imp_rtranclp [OF race_steps])

section \<open>Properties of the worker pool\<close>

text \<open>C12. Two memories with the same stem, downloaded by two workers at once:
  both pass the skip check before either has written, both collision loops
  see the name free, and both report success under the same name, while the
  directory holds one file with the second payload. The first memory is lost
  although the summary counts it as downloaded (lines 40--46, 89--96).\<close>

theorem concurrent_same_stem_overwrite:
  "\<exists>s. wreach 2 ex_dl ex_cfg ex_net2 (winit [ex_m1, ex_m2] ex_st1) s
     \<and> phases s = [Finished ex_m1 (Success ''2025-12-15.png'' 1), Finished ex_m2 (Success ''2025-12-15.png'' 1)]
     \<and> listdir (wstore s) ''out/2025/12'' = [''2025-12-15.png'']
     \<and> map_option content (file_at (wstore s) (''out/2025/12'', ''2025-12-15.png'')) = Some [2]"
proof -
  note r = race_trace [unfolded ex_std_eq]
  note w = ex_writes [unfolded ex_std_eq]
  show ?thesis
    by (intro exI conjI, rule r [unfolded w fst_conv snd_conv w]) (simp_all add: listdir_def child_name_def file_at_def model_eval)
qed

end
