(* ===== verification/Spec2Isabelle.thy ===== *)
theory Spec2Isabelle
  imports Cli Workers FormatSize
begin

text \<open>
  \<^bold>\<open>A verification library for Snapchat-Downloader-Memories.\<close>

  \<^bold>\<open>The program.\<close> \<open>src/main.py\<close> asks three questions (folder organisation,
  file-name variant, ZIP processing mode), parses the exported HTML into
  \<open>Memory\<close> records (\<open>src/src/parser.py\<close>, \<open>src/src/models.py\<close>), downloads them
  with a thread pool (\<open>Downloader\<close> in \<open>src/src/downloader.py\<close>) and finally walks
  the output tree and turns every downloaded ZIP bundle (media plus a PNG
  overlay) into final files (\<open>ZipProcessor\<close> in \<open>src/src/zip_processor.py\<close>).
  The two phases share nothing but the file system: the downloader names every
  file after a stem derived from the memory's timestamp
  (\<open>format_filename_date\<close>, \<open>src/src/utils.py\<close>), and the ZIP processor recovers
  that stem from the bundle's name and the timestamp from the stem.

  \<^bold>\<open>Theories.\<close>
  \<^item> \<open>Prelude\<close>: bytes (\<open>8 word list\<close>), Python exceptions as the datatype
    \<open>pyerr\<close> and the error-or-value type \<open>pyerr + 'a\<close> with its bind \<open>ebind\<close>,
    Python string operations (\<open>str.lower\<close> on ASCII, \<open>startswith\<close>/\<open>endswith\<close>/\<open>in\<close>
    as \<open>prefix\<close>/\<open>suffix\<close>/\<open>sublist\<close>), decimal rendering and reading of numbers
    with their round trip, \<open>os.path.join\<close>.
  \<^item> \<open>Strptime\<close>: the part of CPython's \<open>datetime.strptime\<close>/\<open>strftime\<close> the program
    relies on. \<open>strptime\<close> compiles the format into a regular expression whose
    directives are ordered alternations; the model returns every match in
    backtracking order and takes the first, as \<open>re\<close> does, then applies the
    \<open>datetime\<close> range checks. Main result: the round trip \<open>strptime_strftime\<close>.
  \<^item> \<open>Naming\<close>: \<open>format_filename_date\<close> and the date folder of
    \<open>download_single\<close> (forward), and \<open>parse_date_from_filename\<close> and the stem
    search of \<open>process_all\<close> (backward). Results: the specification's concrete
    scenario, the sentinel \<open>unknown\<close>, and that the backward direction inverts
    the forward one (\<open>date_match_stem\<close>, \<open>parse_date_from_stem\<close>).

  \<^item> \<open>FileStore\<close>: the file system both phases use, as a record \<open>store\<close> of
    regular files keyed by (directory, name) in listing order, the directories
    that exist, and the size \<open>os.path.getsize\<close> reports for a directory. The
    operations \<open>path_exists\<close>, \<open>listdir\<close>, \<open>getsize\<close>, \<open>mkdirs\<close>
    (\<open>Path.mkdir(parents=True, exist_ok=True)\<close>), \<open>write_file\<close>, \<open>utime\<close>,
    \<open>remove_file\<close>, \<open>rename_file\<close> raise where Python does:
    \<open>FileNotFoundError\<close>; \<open>FileExistsError\<close> (\<open>[Errno 17]\<close>) and
    \<open>NotADirectoryError\<close> (\<open>[Errno 20]\<close>) of \<open>mkdir\<close> when the target or
    one of its ancestors is a regular file; \<open>IsADirectoryError\<close>
    (\<open>[Errno 21]\<close>) of \<open>os.rename\<close> onto a directory. \<open>store_ok\<close> (one
    entry per path) is preserved by all of them, and a directory holds
    finitely many names.
  \<^item> \<open>Classifier\<close>: \<open>resolve_extension\<close>, the \<open>Content-Type\<close> table and the
    byte-signature sniffing of \<open>download_single\<close> (lines 63--83). Results:
    a header holding one of the six known MIME types (with parameters)
    decides the extension in the table's order; without one, the JPEG, PNG,
    GIF and \<open>ftyp\<close> signatures decide it.
  \<^item> \<open>Downloader\<close>: \<open>Downloader.download_single\<close> and \<open>download_all\<close>.
    \<open>download_single\<close> takes the options (record \<open>downloader\<close>), the constants
    \<open>MAX_RETRIES\<close> and \<open>RETRY_DELAY\<close> of the absent \<open>src/config.py\<close> (record
    \<open>net_config\<close>), a network answering each request by URL and attempt index,
    the store and the memory, and returns the outcome, the new store, the
    back-off sleeps and the number of requests. Its parts are
    \<open>skip_check\<close> (lines 40--46), the retry loop \<open>fetch_iter\<close> over
    \<open>range(MAX_RETRIES)\<close> (48--61), \<open>resolve_extension\<close>, \<open>write_download\<close>
    with the collision loop \<open>collision_loop\<close> (85--100), and \<open>caught\<close> for the
    two \<open>except\<close> clauses. The collision loop is a \<open>function\<close> whose
    termination is proved from the finiteness of a directory. \<open>download_all\<close>
    creates the output folder with the \<open>mkdir\<close> of line 110, which is
    outside every \<open>try\<close>, so that its error is the value of the whole call;
    it then runs the memories in completion order and folds the outcomes
    into the counters (\<open>tally\<close>), which are shown equal to the specification
    \<open>summary_spec\<close> and independent of the completion order. Results: the
    re-run skips every downloaded memory; a second memory of the same day
    under variants 3 and 4 is skipped and lost; retry success after \<open>k\<close>
    failures and exhaustion; the first free collision name and no overwrite;
    the frame of a successful write; bounds on requests and sleeps; the
    store invariant; the error for \<open>MAX_RETRIES = 0\<close>; the first response is
    accepted without retry exactly when its status is outside 400--599.

  \<^item> \<open>ZipClassify\<close>: the two passes of \<open>_process_single_zip_impl\<close> that
    pick the media and the overlay entry of a bundle (lines 161--178), and the
    extension normalisation (187--195). Result: the passes refine the
    specification's rule ``the last media entry; the last overlay-named PNG,
    else the last PNG'' (\<open>classify_refines_spec\<close>).
  \<^item> \<open>ZipProcessor\<close>: the rest of \<open>src/src/zip_processor.py\<close>. The archive
    reader and the two compositors are parameters (record \<open>zip_env\<close>); the
    four retention modes (\<open>mode_all\<close>, \<open>mode_composed\<close> with
    \<open>composed_video\<close>, \<open>mode_original\<close>, \<open>mode_both\<close> with \<open>both_video\<close>)
    are state-exception steps \<open>'a zstep\<close> (the value or the exception,
    together with the store at that point) chained by \<open>zbind\<close>, with
    \<open>try/except: pass\<close> as \<open>swallow\<close>. \<open>process_single_zip_impl\<close> catches
    every exception; \<open>check_already_processed\<close> is modelled as Python calls
    it, a static method applied to its positional arguments;
    \<open>process_single_zip\<close> is the retry loop \<open>zip_retry\<close> around the
    implementation, and \<open>process_all\<close> folds \<open>process_bundle\<close> over the
    bundles that \<open>walk_zips\<close> finds. Results: the frame of one bundle (no
    file outside its directory and stem is touched, \<open>frame_impl\<close>); the
    outputs of mode \<open>composed\<close> with and without overlay, the video
    fallback and its clean-up (when the output name is not a directory,
    onto which \<open>os.rename\<close> raises); and what the code gets wrong: the call of
    \<open>check_already_processed\<close> with two arguments raises \<open>TypeError\<close>, so
    \<open>process_all\<close> processes nothing; a failed image composition in mode
    \<open>composed\<close> still reports success; the retry loop never retries.

  \<^item> \<open>Workers\<close>: the thread pool of \<open>download_all\<close> (lines 127--135). One
    call of \<open>download_single\<close> is split into the three parts between which
    other workers' writes can interleave: \<open>wk_prepare\<close> (skip check, retry
    loop and extension, lines 40--83, which write nothing), \<open>wk_name\<close>
    (\<open>mkdir\<close> and the collision loop, 85--93) and \<open>wk_write\<close> (\<open>open\<close>
    and \<open>utime\<close>, 95--107). The inductive relation \<open>wstep\<close> interleaves
    them over a state with one phase per submitted memory and the shared
    store; tasks start in submission order and at most \<open>max_workers\<close> run
    at once; a failing \<open>mkdir\<close> finishes the memory with the outcome of the
    \<open>except\<close> clauses. Result: a concrete interleaving of two memories with
    the same stem in which both report success under one name and the first
    payload is lost.

  \<^item> \<open>HtmlRows\<close> and \<open>Parser\<close>: \<open>HTMLParser.parse\<close>
    (\<open>src/src/parser.py\<close>). The row pattern of line 21 is the matcher
    \<open>row_match\<close> (its lazy \<open>.*?\<close> the shortest skip without a newline) and
    \<open>re.findall\<close> the function \<open>re_findall_rows\<close>, whose termination rests on
    every match consuming input; the coordinate pattern and \<open>float()\<close> are
    \<open>coords\<close>, and the loop with \<open>seen_urls\<close> is \<open>parse_rows\<close>. Results:
    de-duplication keeps the first row of each URL in document order; the
    pattern recovers the fields of an exported row; well-formed coordinates
    are read as written.
  \<^item> \<open>Console\<close>: the console as a record \<open>console\<close> (the lines still to be
    typed, the bytes written, UTF-8), \<open>Colors\<close> and \<open>print_color\<close>
    (\<open>src/src/utils.py\<close>, lines 1--11), and the three prompts
    \<open>ask_organization_mode\<close>, \<open>ask_filename_format\<close> (lines 20--52) and
    \<open>ZipProcessor.ask_processing_mode\<close> (\<open>src/src/zip_processor.py\<close>,
    60--90). Their \<open>while True\<close> loops are the one function \<open>prompt_loop\<close>,
    structural recursion over the remaining input lines: \<open>input()\<close> on an
    exhausted input raises \<open>EOFError\<close>. Results: a prompt returns the
    choice of the first valid stripped line, leaves the rest unread and
    prints one error per rejected line; with no valid line it ends with
    \<open>EOFError\<close>.
  \<^item> \<open>FormatSize\<close>: \<open>format_size\<close> (\<open>src/src/utils.py\<close>, lines 13--18), used
    by the download summary, and the float division and \<open>.2f\<close> rendering
    of the summary's speed line. The float arithmetic is computed exactly on
    naturals: \<open>float(n)\<close> rounds to 53 bits (\<open>to_double\<close>), a division by
    \<open>1024.0\<close> is exact, \<open>div_double\<close> rounds a quotient to the nearest double
    (subnormals and \<open>inf\<close> included), and \<open>.2f\<close> rounds the exact binary
    value to hundredths, ties to even (\<open>fixed2\<close>). Results: below \<open>1024^4\<close>
    bytes the printed number is the size in the chosen unit rounded to a
    hundredth and at most \<open>1024.00\<close>; that bound is reached in \<open>KB\<close>,
    \<open>MB\<close> and \<open>GB\<close> by every size from \<open>1023.995\<close> to below \<open>1024\<close> of
    the unit (\<open>1048575\<close> bytes print as \<open>1024.00 KB\<close>); the division's
    relative error is at most \<open>2^-53\<close> (a lemma on the model).
  \<^item> \<open>Report\<close>: everything the parse (\<open>parse_phase\<close>), the download phase
    (\<open>download_phase\<close>, with \<open>download_start\<close>, \<open>summary_counts\<close>,
    \<open>time_lines\<close>, \<open>failed_lines\<close>, \<open>verdict_line\<close>) and the ZIP phase
    (\<open>zip_phase\<close>, \<open>zip_summary\<close>) print, around the pure models of theories
    \<open>Parser\<close>, \<open>Downloader\<close> and \<open>ZipProcessor\<close>. Results: the
    specification's idempotence of the download engine (after a run that
    downloaded every memory, a second run makes no request, writes nothing
    and reports as many skips as the first run reported downloads); once the
    output folder exists, a run over memories all on disk already reports
    them all as skipped with ``All memories were already downloaded''. An
    error of the \<open>mkdir\<close> of \<open>download_all\<close> leaves the console and the
    store as they were.
  \<^item> \<open>Cli\<close>: \<open>main\<close> of \<open>src/main.py\<close>. \<open>main_run\<close> (lines 21--33) is
    the parse, the download phase and the ZIP phase on one console and one
    store, ending normally, by an exception or by \<open>SystemExit\<close>;
    \<open>main_prog\<close> adds the banner and the three prompts, and \<open>main_exit\<close>
    the handler of lines 36--45 that prints an unexpected exception and
    gives the exit status. The constants of \<open>src/config.py\<close>, the elapsed
    time and the absolute output path are the record \<open>run_env\<close>. Results
    across the phases: with memories and a download phase that ends
    normally, the run ends normally with the store of the download phase,
    every bundle left unextracted; an output folder that is a regular file
    ends it with status 1 and the \<open>FileExistsError\<close> line before any
    request; the first row with a new URL and a malformed coordinate ends
    it with status 1 and an unexpected-error line before any download,
    whatever follows the row; without an export it ends with status 1 and the parser's
    message only; three valid answers run \<open>main_run\<close> with the options they
    select; an input that ends before a valid answer ends the program with
    status 1 and the \<open>EOFError\<close> message, the store untouched.

  \<^bold>\<open>Bounds and fuel.\<close> No fuel is used: both retry loops are structural
  recursion over the list \<open>[0..<MAX_RETRIES]\<close>, the prompt loops over the
  list of input lines, the unit loop of \<open>format_size\<close> over its four units, the passes over an
  archive's names are folds, the collision loop terminates by the
  measure ``existing candidates from the counter on'', and \<open>re.findall\<close>
  by the length of the rest of the text. The worker pool is a relation, of
  which only the concrete race is derived.

  \<^bold>\<open>Not modelled.\<close> The \<open>tqdm\<close> progress bars, which write to standard
  error; standard output is modelled line for line. The clock and the
  working directory are parameters: the elapsed time is a non-negative
  double (\<open>time.time()\<close> going backwards is not modelled) and
  \<open>os.path.abspath\<close> is the string it returns. Characters are bytes, so
  \<open>strip()\<close> removes ASCII white space only and \<open>url[:60]\<close> counts bytes.
  Permissions and other \<open>OSError\<close>s of the file system are not modelled:
  \<open>mkdir\<close>, \<open>open\<close> and \<open>rename\<close> fail only for the reasons listed
  under \<open>FileStore\<close>. The pixels computed by PIL and ffmpeg are not modelled: only which files
  the compositors read and write. \<open>KeyboardInterrupt\<close> (an asynchronous
  signal), the decoding of the export file and the network session's
  connection pool are outside the model; the constants of the absent
  \<open>src/config.py\<close> are parameters (\<open>net_config\<close>, \<open>run_env\<close>, the pool
  size \<open>W\<close> of theory \<open>Workers\<close>).
\<close>

end
